(* ===== verification/GoPrelude.thy ===== *)
theory GoPrelude
  imports Main "HOL-Library.AList" "HOL-Library.Word"
begin

text \<open>
  Shared vocabulary of the development.

  A Go map \<^verbatim>\<open>map[K]V\<close> is an association list with distinct keys: the list order stands for
  the order in which a \<^verbatim>\<open>range\<close> loop over the map visits it.  Go leaves that order unspecified,
  so every property about the result of such a loop is stated up to reordering (as a set, as a
  multiset or as a length).  A comma-ok read \<^verbatim>\<open>v, ok := m[k]\<close> is \<open>map_of m k\<close>,
  \<^verbatim>\<open>m[k] = v\<close> is \<open>mput k v m\<close>, \<^verbatim>\<open>delete(m, k)\<close> is \<open>mdel k m\<close>
  and \<^verbatim>\<open>len(m)\<close> is \<open>length m\<close>.  A set \<^verbatim>\<open>map[string]struct{}\<close> is such a map into \<open>unit\<close>.

  A run-time panic (an out-of-range \<^verbatim>\<open>make\<close>, a nil dereference) is the value \<open>Panic\<close>
  of the type \<open>'a go\<close>; the server has no \<^verbatim>\<open>recover\<close>, so a panic ends the process.
\<close>

named_theorems go_map \<comment> \<open>reads after writes of Go maps\<close>
named_theorems wf_intros \<comment> \<open>operations that keep the keys of a map distinct\<close>

type_synonym ('k, 'v) gomap = "('k \<times> 'v) list"
type_synonym goset = "(string, unit) gomap"

abbreviation mput :: "'k \<Rightarrow> 'v \<Rightarrow> ('k, 'v) gomap \<Rightarrow> ('k, 'v) gomap" where
  "mput \<equiv> AList.update"

abbreviation mdel :: "'k \<Rightarrow> ('k, 'v) gomap \<Rightarrow> ('k, 'v) gomap" where
  "mdel \<equiv> AList.delete"

abbreviation mkeys :: "('k, 'v) gomap \<Rightarrow> 'k list" where
  "mkeys \<equiv> map fst"

definition wf_map :: "('k, 'v) gomap \<Rightarrow> bool" where
  "wf_map m \<longleftrightarrow> distinct (mkeys m)"

datatype 'a go = Ret 'a | Panic

primrec map_go :: "('a \<Rightarrow> 'b) \<Rightarrow> 'a go \<Rightarrow> 'b go" where
  "map_go f (Ret x) = Ret (f x)"
| "map_go f Panic = Panic"

subsection \<open>Reads after writes\<close>

lemma map_of_mput [simp, go_map]: "map_of (mput k v m) = (map_of m)(k \<mapsto> v)"
  by (rule update_conv')

lemma map_of_mdel [simp, go_map]: "map_of (mdel k m) = (map_of m)(k := None)"
  by (rule delete_conv')

lemma wf_map_in_set: "wf_map m \<Longrightarrow> (k, v) \<in> set m \<longleftrightarrow> map_of m k = Some v"
  by (simp add: wf_map_def)

lemma wf_map_Nil [simp, wf_intros]: "wf_map []"
  by (simp add: wf_map_def)

lemma wf_map_mput [simp, wf_intros]: "wf_map m \<Longrightarrow> wf_map (mput k v m)"
  by (simp add: wf_map_def distinct_update)

lemma wf_map_mdel [simp, wf_intros]: "wf_map m \<Longrightarrow> wf_map (mdel k m)"
  by (simp add: wf_map_def distinct_delete)

lemma wf_map_filter [simp, wf_intros]: "wf_map m \<Longrightarrow> wf_map (filter P m)"
  by (auto simp: wf_map_def distinct_map intro: inj_on_subset)

lemma map_of_filter_wf:
  "wf_map m \<Longrightarrow> map_of (filter (\<lambda>(k, v). P k v) m) k =
     (case map_of m k of None \<Rightarrow> None | Some v \<Rightarrow> if P k v then Some v else None)"
proof (induction m)
  case Nil
  then show ?case by simp
next
  case (Cons e m)
  obtain k' v' where e: "e = (k', v')" by (cases e)
  from Cons.prems e have "wf_map m" and notin: "k' \<notin> fst ` set m"
    by (auto simp: wf_map_def)
  then have IH: "map_of (filter (\<lambda>(k, v). P k v) m) k =
     (case map_of m k of None \<Rightarrow> None | Some v \<Rightarrow> if P k v then Some v else None)"
    using Cons.IH by simp
  have "map_of m k' = None"
    using notin by (simp add: map_of_eq_None_iff)
  with IH e show ?case by (auto split: option.splits)
qed

lemma length_mdel_Some:
  "wf_map m \<Longrightarrow> map_of m k = Some v \<Longrightarrow> Suc (length (mdel k m)) = length m"
proof (induction m)
  case Nil
  then show ?case by simp
next
  case (Cons e m)
  obtain k' v' where e: "e = (k', v')" by (cases e)
  from Cons.prems e have "wf_map m" and notin: "k' \<notin> fst ` set m"
    by (auto simp: wf_map_def)
  show ?case
  proof (cases "k' = k")
    case True
    with notin have "mdel k m = m" by (simp add: delete_idem)
    with True e show ?thesis by simp
  next
    case False
    with Cons e \<open>wf_map m\<close> show ?thesis by simp
  qed
qed

lemma mdel_None: "map_of m k = None \<Longrightarrow> mdel k m = m"
  by (simp add: delete_idem map_of_eq_None_iff)

lemma length_mput_None: "map_of m k = None \<Longrightarrow> length (mput k v m) = Suc (length m)"
  by (induction m) (auto split: if_splits)

lemma length_mput_Some: "map_of m k = Some w \<Longrightarrow> length (mput k v m) = length m"
  by (induction m) (auto split: if_splits)

lemma mput_not_Nil [simp]: "mput k v m \<noteq> []"
  by (cases m) (auto split: if_splits prod.splits)

lemma map_of_Nil_iff: "m = [] \<longleftrightarrow> map_of m = Map.empty"
  by (cases m) (auto simp: fun_eq_iff split: prod.splits)

lemma in_mkeys_iff: "k \<in> set (mkeys m) \<longleftrightarrow> map_of m k \<noteq> None"
  by (auto simp: map_of_eq_None_iff)

lemma set_mkeys: "set (mkeys m) = dom (map_of m)"
  by (simp add: dom_map_of_conv_image_fst)

lemma wf_map_card: "wf_map m \<Longrightarrow> length m = card (dom (map_of m))"
  using distinct_card [of "mkeys m"] by (simp add: wf_map_def dom_map_of_conv_image_fst)

section \<open>Loops over map keys\<close>

text \<open>The deletion loop shared by \<^verbatim>\<open>HDel\<close>, \<^verbatim>\<open>SRem\<close> and \<^verbatim>\<open>ZRem\<close>, with its count.\<close>

fun removeKeys :: "'k list \<Rightarrow> ('k, 'v) gomap \<Rightarrow> ('k, 'v) gomap \<times> int" where
  "removeKeys [] m = (m, 0)"
| "removeKeys (k # ks) m =
     (if map_of m k \<noteq> None then (let (m', n) = removeKeys ks (mdel k m) in (m', n + 1))
      else removeKeys ks m)"

lemma map_of_removeKeys:
  "map_of (fst (removeKeys ks m)) k = (if k \<in> set ks then None else map_of m k)"
  by (induction ks arbitrary: m) (auto simp: case_prod_beta Let_def)

lemma wf_map_removeKeys [simp, wf_intros]: "wf_map m \<Longrightarrow> wf_map (fst (removeKeys ks m))"
  by (induction ks arbitrary: m) (simp_all add: case_prod_beta Let_def)

lemma removeKeys_count:
  "wf_map m \<Longrightarrow> snd (removeKeys ks m) = int (length m) - int (length (fst (removeKeys ks m)))"
  by (induction ks arbitrary: m) (auto simp: case_prod_beta Let_def, drule (1) length_mdel_Some, simp)

lemma removeKeys_nonneg: "0 \<le> snd (removeKeys ks m)"
  by (induction ks arbitrary: m) (auto simp: case_prod_beta Let_def intro: add_nonneg_nonneg)

end
