(* ===== verification/GoLib.thy ===== *)
theory GoLib
  imports GoPrelude "HOL-Library.Multiset"
begin

text \<open>
  The parts of Go's language and standard library that the server's own code computes with.

  \<^item> \<^verbatim>\<open>int\<close> and \<^verbatim>\<open>int64\<close> are integers in \<open>[-2^63, 2^63)\<close> (the server runs on 64-bit
    platforms); arithmetic that can leave the range is followed by \<open>wrap64\<close>.
  \<^item> A Go \<^verbatim>\<open>string\<close> is a byte sequence, as is an Isabelle \<open>string\<close> (a \<open>char\<close> is a byte).
  \<^item> \<^verbatim>\<open>strconv.ParseInt(s, 10, 64)\<close> and \<^verbatim>\<open>strconv.Atoi(s)\<close> accept the same strings with the same
    value: \<open>ParseInt\<close>; \<^verbatim>\<open>FormatInt\<close>, \<^verbatim>\<open>Itoa\<close> and \<^verbatim>\<open>Sprintf("%d")\<close> are \<open>FormatInt\<close>.
  \<^item> \<^verbatim>\<open>strings.ToUpper\<close> is only ever compared with upper-case ASCII literals.  Apart from the ASCII
    letters exactly two runes have an ASCII upper case: U+0131 (bytes C4 B1, upper case \<open>I\<close>) and
    U+017F (bytes C5 BF, upper case \<open>S\<close>).  \<open>toUpper\<close> maps these and leaves every other
    non-ASCII byte in place, so it equals an ASCII literal exactly when the Go function does.
  \<^item> \<^verbatim>\<open>time.Time\<close> is the number of nanoseconds since Go's internal epoch, so that the zero
    \<^verbatim>\<open>Time{}\<close> is \<open>0\<close>; \<^verbatim>\<open>time.Duration\<close> is a 64-bit count of nanoseconds.  The clock is a
    parameter of every operation that reads it.
\<close>

section \<open>64-bit integers\<close>

definition minInt64 :: int where "minInt64 = - (2 ^ 63)"

definition maxInt64 :: int where "maxInt64 = 2 ^ 63 - 1"

definition in64 :: "int \<Rightarrow> bool" where
  "in64 x \<longleftrightarrow> minInt64 \<le> x \<and> x \<le> maxInt64"

definition wrap64 :: "int \<Rightarrow> int" where
  "wrap64 x = (x + 2 ^ 63) mod 2 ^ 64 - 2 ^ 63"

section \<open>strconv\<close>

definition digit_char :: "nat \<Rightarrow> char" where
  "digit_char d = char_of (48 + d)"

definition digit_val :: "char \<Rightarrow> nat option" where
  "digit_val c = (let n = of_char c in if 48 \<le> n \<and> n \<le> 57 then Some (n - 48) else None)"

fun fmt_nat :: "nat \<Rightarrow> string" where
  "fmt_nat n = (if n < 10 then [digit_char n] else fmt_nat (n div 10) @ [digit_char (n mod 10)])"

declare fmt_nat.simps [simp del]

definition FormatInt :: "int \<Rightarrow> string" where
  "FormatInt i = (if i < 0 then CHR ''-'' # fmt_nat (nat (- i)) else fmt_nat (nat i))"

fun parse_digits :: "nat \<Rightarrow> string \<Rightarrow> nat option" where
  "parse_digits acc [] = Some acc"
| "parse_digits acc (c # cs) =
     (case digit_val c of None \<Rightarrow> None | Some d \<Rightarrow> parse_digits (10 * acc + d) cs)"

definition ParseInt :: "string \<Rightarrow> int option" where
  "ParseInt s =
     (case s of
        [] \<Rightarrow> None
      | c # cs \<Rightarrow>
          let neg = (c = CHR ''-'');
              ds = (if c = CHR ''-'' \<or> c = CHR ''+'' then cs else s)
          in if ds = [] then None
             else case parse_digits 0 ds of
                    None \<Rightarrow> None
                  | Some n \<Rightarrow>
                      let v = (if neg then - int n else int n)
                      in if in64 v then Some v else None)"

definition ParseUint :: "string \<Rightarrow> nat option" where
  "ParseUint s =
     (if s = [] then None
      else case parse_digits 0 s of
             None \<Rightarrow> None
           | Some n \<Rightarrow> if n < 2 ^ 64 then Some n else None)"

section \<open>strings\<close>

definition upper_char :: "char \<Rightarrow> char" where
  "upper_char c = (let n = of_char c in if 97 \<le> n \<and> n \<le> (122 :: nat) then char_of (n - 32) else c)"

fun toUpper :: "string \<Rightarrow> string" where
  "toUpper [] = []"
| "toUpper [c] = [upper_char c]"
| "toUpper (c # d # cs) =
     (if c = CHR 0xC4 \<and> d = CHR 0xB1 then CHR ''I'' # toUpper cs
      else if c = CHR 0xC5 \<and> d = CHR 0xBF then CHR ''S'' # toUpper cs
      else upper_char c # toUpper (d # cs))"

definition trimRight :: "char list \<Rightarrow> string \<Rightarrow> string" where
  "trimRight cset s = rev (dropWhile (\<lambda>c. c \<in> set cset) (rev s))"

section \<open>time\<close>

type_synonym gotime = int
type_synonym duration = int

abbreviation (input) zeroTime :: gotime where "zeroTime \<equiv> 0"

definition Millisecond :: duration where "Millisecond = 1000000"

definition Second :: duration where "Second = 1000000000"

definition unixToInternal :: int where "unixToInternal = 62135596800"

definition sat64 :: "int \<Rightarrow> int" where
  "sat64 x = max minInt64 (min maxInt64 x)"

definition timeSub :: "gotime \<Rightarrow> gotime \<Rightarrow> duration" where
  "timeSub t u = sat64 (t - u)"

definition timeUnix :: "int \<Rightarrow> gotime" where
  "timeUnix sec = wrap64 (sec + unixToInternal) * Second"

definition timeUnixMilli :: "int \<Rightarrow> gotime" where
  "timeUnixMilli ms = ms * Millisecond + unixToInternal * Second"

definition unixMilli :: "gotime \<Rightarrow> int" where
  "unixMilli t = (t - unixToInternal * Second) div Millisecond"

definition timeUntil :: "gotime \<Rightarrow> gotime \<Rightarrow> duration" where
  "timeUntil now t = timeSub t now"

definition mulDuration :: "int \<Rightarrow> duration \<Rightarrow> duration" where
  "mulDuration n d = wrap64 (n * d)"

section \<open>Allocation\<close>

text \<open>
  \<^verbatim>\<open>make([]T, n)\<close> panics when \<open>n\<close> is negative or the slice would exceed the address space
  the runtime can hand out (2^48 bytes on linux/amd64).
\<close>

definition maxAlloc :: int where "maxAlloc = 2 ^ 48"

definition makeslice_ok :: "int \<Rightarrow> int \<Rightarrow> bool" where
  "makeslice_ok elemsize n \<longleftrightarrow> 0 \<le> n \<and> elemsize * n \<le> maxAlloc"

section \<open>Lemmas\<close>

lemma in64_bounds: "in64 x \<longleftrightarrow> -9223372036854775808 \<le> x \<and> x \<le> 9223372036854775807"
  by (simp add: in64_def minInt64_def maxInt64_def)

lemma wrap64_in64 [simp]: "in64 (wrap64 x)"
proof -
  have "0 \<le> (x + 2 ^ 63) mod 2 ^ 64" and "(x + 2 ^ 63) mod 2 ^ 64 < (2::int) ^ 64"
    by simp_all
  then show ?thesis by (simp add: wrap64_def in64_bounds)
qed

lemma wrap64_id: "in64 x \<Longrightarrow> wrap64 x = x"
  by (simp add: wrap64_def in64_bounds)

lemma wrap64_above:
  assumes "maxInt64 < x" and "x \<le> maxInt64 + 2 ^ 64"
  shows "wrap64 x = x - 2 ^ 64"
proof -
  have "(x + 2 ^ 63) mod 2 ^ 64 = ((x - 2 ^ 63) + 2 ^ 64) mod 2 ^ 64"
    by (rule arg_cong [where f = "\<lambda>y. y mod 2 ^ 64"]) simp
  also have "\<dots> = (x - 2 ^ 63) mod 2 ^ 64"
    by (rule mod_add_self2)
  also have "\<dots> = x - 2 ^ 63"
    using assms by (intro mod_pos_pos_trivial) (simp_all add: maxInt64_def)
  finally show ?thesis by (simp add: wrap64_def)
qed

lemma wrap64_below:
  assumes "x < minInt64" and "minInt64 - 2 ^ 64 \<le> x"
  shows "wrap64 x = x + 2 ^ 64"
proof -
  have "(x + 2 ^ 63) mod 2 ^ 64 = ((x + 2 ^ 63) + 2 ^ 64) mod 2 ^ 64"
    by (rule mod_add_self2 [symmetric])
  also have "\<dots> = x + 2 ^ 63 + 2 ^ 64"
    using assms by (intro mod_pos_pos_trivial) (simp_all add: minInt64_def)
  finally show ?thesis by (simp add: wrap64_def)
qed

lemma digit_val_digit_char [simp]: "d < 10 \<Longrightarrow> digit_val (digit_char d) = Some d"
  by (simp add: digit_val_def digit_char_def Let_def)

lemma parse_digits_append:
  "parse_digits acc (xs @ ys) = Option.bind (parse_digits acc xs) (\<lambda>a. parse_digits a ys)"
  by (induction acc xs rule: parse_digits.induct) (auto split: option.splits)

lemma fmt_nat_not_Nil [simp]: "fmt_nat n \<noteq> []"
  by (subst fmt_nat.simps) simp

lemma parse_digits_fmt_nat [simp]: "parse_digits 0 (fmt_nat n) = Some n"
proof (induction n rule: fmt_nat.induct)
  case (1 n)
  show ?case
  proof (cases "n < 10")
    case True
    then show ?thesis by (simp add: fmt_nat.simps [of n])
  next
    case False
    with "1.IH" show ?thesis
      by (simp add: fmt_nat.simps [of n] parse_digits_append)
  qed
qed

lemma fmt_nat_digits: "c \<in> set (fmt_nat n) \<Longrightarrow> digit_val c \<noteq> None"
proof (induction n rule: fmt_nat.induct)
  case (1 n)
  show ?case
  proof (cases "n < 10")
    case True
    with "1.prems" show ?thesis by (simp add: fmt_nat.simps [of n])
  next
    case False
    with "1" show ?thesis by (auto simp: fmt_nat.simps [of n])
  qed
qed

lemma digit_val_sign: "digit_val c \<noteq> None \<Longrightarrow> c \<noteq> CHR ''-'' \<and> c \<noteq> CHR ''+''"
  by (auto simp: digit_val_def Let_def)

lemma fmt_nat_Cons: obtains c cs where "fmt_nat n = c # cs" "c \<noteq> CHR ''-''" "c \<noteq> CHR ''+''"
proof -
  obtain c cs where c: "fmt_nat n = c # cs"
    using fmt_nat_not_Nil [of n] by (cases "fmt_nat n") auto
  with fmt_nat_digits [of c n] have "digit_val c \<noteq> None" by simp
  with c that digit_val_sign show ?thesis by blast
qed

lemma ParseInt_FormatInt [simp]: "in64 i \<Longrightarrow> ParseInt (FormatInt i) = Some i"
proof (cases "i < 0")
  case True
  assume "in64 i"
  with True show ?thesis by (simp add: ParseInt_def FormatInt_def Let_def)
next
  case False
  assume "in64 i"
  obtain c cs where c: "fmt_nat (nat i) = c # cs" "c \<noteq> CHR ''-''" "c \<noteq> CHR ''+''"
    by (rule fmt_nat_Cons)
  have "parse_digits 0 (c # cs) = Some (nat i)"
    using c parse_digits_fmt_nat [of "nat i"] by simp
  with c \<open>in64 i\<close> False show ?thesis
    by (auto simp: ParseInt_def FormatInt_def Let_def)
qed

lemma ParseInt_in64: "ParseInt s = Some i \<Longrightarrow> in64 i"
  by (auto simp: ParseInt_def Let_def split: list.splits if_splits option.splits)

lemma FormatInt_chars: "c \<in> set (FormatInt i) \<Longrightarrow> digit_val c \<noteq> None \<or> c = CHR ''-''"
  by (auto simp: FormatInt_def split: if_splits dest: fmt_nat_digits)

lemma FormatInt_not_Nil [simp]: "FormatInt i \<noteq> []"
  by (simp add: FormatInt_def)

lemma FormatInt_inj: "in64 i \<Longrightarrow> in64 j \<Longrightarrow> FormatInt i = FormatInt j \<Longrightarrow> i = j"
  by (metis ParseInt_FormatInt option.inject)

lemma trimRight_id: "s = [] \<or> last s \<notin> set cset \<Longrightarrow> trimRight cset s = s"
  by (cases s rule: rev_cases) (auto simp: trimRight_def)

lemma trimRight_snoc: "c \<in> set cset \<Longrightarrow> trimRight cset (s @ [c]) = trimRight cset s"
  by (simp add: trimRight_def)

lemma sat64_id: "in64 x \<Longrightarrow> sat64 x = x"
  by (simp add: sat64_def in64_def)

lemma in64_sat64 [simp]: "in64 (sat64 x)"
  by (simp add: sat64_def in64_def minInt64_def maxInt64_def)

section \<open>Random numbers\<close>

text \<open>
  \<^verbatim>\<open>math/rand/v2\<close> draws from a source that is modelled by an arbitrary function \<open>rnd\<close>: the
  \<open>i\<close>-th draw below \<open>n\<close> is \<open>rnd i mod n\<close>, so every outcome the library can produce is that of
  some \<open>rnd\<close>.  \<^verbatim>\<open>rand.Shuffle\<close> is the Fisher-Yates loop from the last index down.
\<close>

definition swapAt :: "nat \<Rightarrow> nat \<Rightarrow> 'a list \<Rightarrow> 'a list" where
  "swapAt i j xs = xs[i := xs ! j, j := xs ! i]"

fun shuffleFrom :: "(nat \<Rightarrow> nat) \<Rightarrow> nat \<Rightarrow> 'a list \<Rightarrow> 'a list" where
  "shuffleFrom rnd 0 xs = xs"
| "shuffleFrom rnd (Suc i) xs = shuffleFrom rnd i (swapAt (Suc i) (rnd (Suc i) mod Suc (Suc i)) xs)"

definition randShuffle :: "(nat \<Rightarrow> nat) \<Rightarrow> 'a list \<Rightarrow> 'a list" where
  "randShuffle rnd xs = shuffleFrom rnd (length xs - 1) xs"

lemma mset_swapAt: "i < length xs \<Longrightarrow> j < length xs \<Longrightarrow> mset (swapAt i j xs) = mset xs"
  unfolding swapAt_def by (rule mset_swap)

lemma mset_shuffleFrom: "i < length xs \<or> xs = [] \<and> i = 0 \<Longrightarrow> mset (shuffleFrom rnd i xs) = mset xs"
proof (induction i arbitrary: xs)
  case (Suc i)
  let ?j = "rnd (Suc i) mod Suc (Suc i)"
  have "?j < Suc (Suc i)" by (rule mod_less_divisor) simp
  then have j: "?j < length xs" using Suc.prems by linarith
  have "length (swapAt (Suc i) ?j xs) = length xs" by (simp add: swapAt_def)
  then show ?case using Suc.IH [of "swapAt (Suc i) ?j xs"] Suc.prems mset_swapAt [OF _ j, of "Suc i"] by simp
qed simp

lemma mset_randShuffle [simp]: "mset (randShuffle rnd xs) = mset xs"
  unfolding randShuffle_def by (rule mset_shuffleFrom) (cases xs; simp)

lemma set_randShuffle [simp]: "set (randShuffle rnd xs) = set xs"
  by (rule mset_eq_setD) simp

lemma length_randShuffle [simp]: "length (randShuffle rnd xs) = length xs"
  by (rule mset_eq_length) simp

lemma distinct_randShuffle [simp]: "distinct (randShuffle rnd xs) = distinct xs"
  by (rule mset_eq_imp_distinct_iff) simp

end
