(* ===== verification/Protocol.thy ===== *)
theory Protocol
  imports GoLib
begin

text \<open>
  RESP values and their wire format: \<^verbatim>\<open>internal/protocol/types.go\<close> and
  \<^verbatim>\<open>internal/protocol/serializer.go\<close>.

  The Go struct \<^verbatim>\<open>Response\<close> has a type tag and one populated field per tag, so it is the tagged
  union \<open>Response\<close>; the reads \<^verbatim>\<open>resp.Integer\<close>, \<^verbatim>\<open>resp.Str\<close> and \<^verbatim>\<open>resp.Array\<close> of a value
  with another tag give the zero value of the field (\<open>respInteger\<close>, \<open>respStr\<close>, \<open>respArray\<close>).

  The interface \<open>stream_codec\<close> is what the rest of the program needs of an encoding on a byte
  stream: a decoder that gives back the encoded value and the bytes after it.
\<close>

section \<open>Values\<close>

datatype Response =
    SimpleString string
  | Error string
  | Integer int
  | BulkString string
  | NullBulkString
  | Array "Response list"
  | NullArray

fun respInteger :: "Response \<Rightarrow> int" where
  "respInteger (Integer n) = n"
| "respInteger _ = 0"

fun respStr :: "Response \<Rightarrow> string" where
  "respStr (SimpleString s) = s"
| "respStr (Error s) = s"
| "respStr (BulkString s) = s"
| "respStr _ = []"

fun respArray :: "Response \<Rightarrow> Response list" where
  "respArray (Array rs) = rs"
| "respArray _ = []"

section \<open>Serialization\<close>

definition CRLF :: string where
  "CRLF = [CHR 0x0D, CHR 0x0A]"

fun Serialize :: "Response \<Rightarrow> string" where
  "Serialize (SimpleString s) = CHR ''+'' # s @ CRLF"
| "Serialize (Error s) = CHR ''-'' # s @ CRLF"
| "Serialize (Integer n) = CHR '':'' # FormatInt n @ CRLF"
| "Serialize (BulkString s) = CHR ''$'' # FormatInt (int (length s)) @ CRLF @ s @ CRLF"
| "Serialize NullBulkString = CHR ''$'' # ''-1'' @ CRLF"
| "Serialize NullArray = CHR ''*'' # ''-1'' @ CRLF"
| "Serialize (Array rs) =
     CHR ''*'' # FormatInt (int (length rs)) @ CRLF @ concat (map Serialize rs)"

section \<open>Interface: an encoding on a byte stream\<close>

text \<open>
  \<open>dec\<close> reads one value from the front of a stream; \<open>None\<close> is any failure.  \<open>valid\<close> are
  the values the encoding is meant for.
\<close>

locale stream_codec =
  fixes enc :: "'a \<Rightarrow> string"
    and dec :: "string \<Rightarrow> ('a \<times> string) option"
    and valid :: "'a \<Rightarrow> bool"
  assumes dec_enc: "valid x \<Longrightarrow> dec (enc x @ rest) = Some (x, rest)"
begin

fun dec_many :: "nat \<Rightarrow> string \<Rightarrow> ('a list \<times> string) option" where
  "dec_many 0 s = Some ([], s)"
| "dec_many (Suc n) s =
     (case dec s of
        None \<Rightarrow> None
      | Some (x, r) \<Rightarrow> map_option (\<lambda>(xs, t). (x # xs, t)) (dec_many n r))"

lemma unique_decoding:
  assumes "valid x" and "valid y" and "enc x @ s = enc y @ t"
  shows "x = y \<and> s = t"
proof -
  have "Some (x, s) = dec (enc x @ s)" using assms(1) by (simp add: dec_enc)
  also have "\<dots> = dec (enc y @ t)" using assms(3) by simp
  also have "\<dots> = Some (y, t)" using assms(2) by (simp add: dec_enc)
  finally show ?thesis by simp
qed

lemma enc_inj: "valid x \<Longrightarrow> valid y \<Longrightarrow> enc x = enc y \<Longrightarrow> x = y"
  using unique_decoding [of x y "[]" "[]"] by simp

lemma not_proper_prefix: "valid x \<Longrightarrow> valid y \<Longrightarrow> enc y = enc x @ t \<Longrightarrow> t = []"
  using unique_decoding [of x y t "[]"] by simp

lemma dec_many_concat:
  "(\<And>x. x \<in> set xs \<Longrightarrow> valid x) \<Longrightarrow> dec_many (length xs) (concat (map enc xs) @ rest) = Some (xs, rest)"
  by (induction xs) (simp_all add: dec_enc)

end

section \<open>Lemmas\<close>

lemma CRLF_simps: "CRLF = CHR 0x0D # CHR 0x0A # []"
  by (simp add: CRLF_def)

lemma Serialize_not_Nil [simp]: "Serialize r \<noteq> []"
  by (cases r) simp_all

end
