(* ===== verification/Float64.thy ===== *)
theory Float64
  imports Complex_Main GoLib "HOL-Library.Log_Nat"
begin

text \<open>
  Go's \<^verbatim>\<open>float64\<close> (IEEE 754 binary64) as far as the sorted-set scores use it.

  A finite number is the rational it stands for, with the negative zero kept apart because it
  prints differently; the sign and payload of a NaN are not observable.  \<open>fround\<close> is rounding
  to nearest, ties to even, with gradual underflow and overflow to the infinities; sums and
  products are the rounded exact results.
\<close>

datatype float64 = NaN | NInf | NegZero | Fin rat | PInf

section \<open>Comparison\<close>

fun frank :: "float64 \<Rightarrow> int" where
  "frank NInf = -1"
| "frank PInf = 1"
| "frank _ = 0"

fun fval :: "float64 \<Rightarrow> rat" where
  "fval (Fin r) = r"
| "fval _ = 0"

definition flt :: "float64 \<Rightarrow> float64 \<Rightarrow> bool" where
  "flt a b \<longleftrightarrow> a \<noteq> NaN \<and> b \<noteq> NaN \<and>
     (frank a < frank b \<or> frank a = frank b \<and> fval a < fval b)"

definition feq :: "float64 \<Rightarrow> float64 \<Rightarrow> bool" where
  "feq a b \<longleftrightarrow> a \<noteq> NaN \<and> b \<noteq> NaN \<and> frank a = frank b \<and> fval a = fval b"

definition fle :: "float64 \<Rightarrow> float64 \<Rightarrow> bool" where
  "fle a b \<longleftrightarrow> flt a b \<or> feq a b"

section \<open>Rounding\<close>

definition pow2 :: "int \<Rightarrow> rat" where
  "pow2 e = (if 0 \<le> e then 2 ^ nat e else 1 / 2 ^ nat (- e))"

definition floor_log2 :: "rat \<Rightarrow> int" where
  "floor_log2 r =
     (let (p, q) = quotient_of r; e = bitlen p - bitlen q
      in if pow2 e \<le> r then e else e - 1)"

definition round_even :: "rat \<Rightarrow> int" where
  "round_even r =
     (let f = \<lfloor>r\<rfloor>; d = r - of_int f
      in if d < 1 / 2 then f else if d > 1 / 2 then f + 1 else if even f then f else f + 1)"

definition fround_pos :: "rat \<Rightarrow> rat" where
  "fround_pos r = (let u = pow2 (max (floor_log2 r - 52) (-1074)) in of_int (round_even (r / u)) * u)"

definition fround :: "rat \<Rightarrow> float64" where
  "fround r =
     (if r = 0 then Fin 0
      else if 0 < r then (let v = fround_pos r in if pow2 1024 \<le> v then PInf else Fin v)
      else (let v = fround_pos (- r)
            in if pow2 1024 \<le> v then NInf else if v = 0 then NegZero else Fin (- v)))"

section \<open>Arithmetic\<close>

fun fadd :: "float64 \<Rightarrow> float64 \<Rightarrow> float64" where
  "fadd NaN b = NaN"
| "fadd a NaN = NaN"
| "fadd PInf NInf = NaN"
| "fadd NInf PInf = NaN"
| "fadd PInf b = PInf"
| "fadd a PInf = PInf"
| "fadd NInf b = NInf"
| "fadd a NInf = NInf"
| "fadd NegZero b = b"
| "fadd a NegZero = a"
| "fadd (Fin a) (Fin b) = fround (a + b)"

fun fneg_sign :: "float64 \<Rightarrow> bool" where
  "fneg_sign NInf = True"
| "fneg_sign NegZero = True"
| "fneg_sign (Fin r) = (r < 0)"
| "fneg_sign _ = False"

definition fis_zero :: "float64 \<Rightarrow> bool" where
  "fis_zero a \<longleftrightarrow> a = NegZero \<or> a = Fin 0"

definition fmul :: "float64 \<Rightarrow> float64 \<Rightarrow> float64" where
  "fmul a b =
     (let neg = (fneg_sign a \<noteq> fneg_sign b)
      in if a = NaN \<or> b = NaN then NaN
         else if frank a \<noteq> 0 \<or> frank b \<noteq> 0 then
           (if fis_zero a \<or> fis_zero b then NaN else if neg then NInf else PInf)
         else if fis_zero a \<or> fis_zero b then (if neg then NegZero else Fin 0)
         else fround (fval a * fval b))"

section \<open>Lemmas\<close>

lemma flt_irrefl [simp]: "\<not> flt a a"
  by (simp add: flt_def)

lemma flt_trans: "flt a b \<Longrightarrow> flt b c \<Longrightarrow> flt a c"
  by (auto simp: flt_def)

lemma flt_total: "a \<noteq> NaN \<Longrightarrow> b \<noteq> NaN \<Longrightarrow> flt a b \<or> feq a b \<or> flt b a"
  by (auto simp: flt_def feq_def)

lemma feq_refl: "feq a a \<longleftrightarrow> a \<noteq> NaN"
  by (simp add: feq_def)

lemma feq_sym: "feq a b \<Longrightarrow> feq b a"
  by (simp add: feq_def)

lemma feq_trans: "feq a b \<Longrightarrow> feq b c \<Longrightarrow> feq a c"
  by (simp add: feq_def)

lemma flt_feq_trans: "flt a b \<Longrightarrow> feq b c \<Longrightarrow> flt a c" "feq a b \<Longrightarrow> flt b c \<Longrightarrow> flt a c"
  by (auto simp: flt_def feq_def)

lemma flt_not_feq: "flt a b \<Longrightarrow> \<not> feq a b \<and> \<not> feq b a \<and> \<not> flt b a"
  by (auto simp: flt_def feq_def)

lemma not_flt: "a \<noteq> NaN \<Longrightarrow> b \<noteq> NaN \<Longrightarrow> \<not> flt a b \<longleftrightarrow> fle b a"
  using flt_total [of a b] flt_not_feq [of a b] feq_sym [of a b] by (auto simp: fle_def)

lemma not_fle: "a \<noteq> NaN \<Longrightarrow> b \<noteq> NaN \<Longrightarrow> \<not> fle a b \<longleftrightarrow> flt b a"
  using not_flt [of b a] by blast

end
