(* ===== verification/Store.thy ===== *)
theory Store
  imports GoLib Float64
begin

text \<open>
  The state of \<^verbatim>\<open>internal/storage/memory.go\<close> and the operations on whole keys: strings, expiry,
  deletion, renaming, versions.

  \<open>MemoryStore\<close> has the seven maps of the Go struct.  Every exported method holds the store's lock
  for its whole body, so it is one atomic function on the state; it reads the clock at one instant
  \<open>now\<close>, which is a parameter.  A method that returns \<^verbatim>\<open>(v, ok)\<close> returns an option, one that
  returns \<^verbatim>\<open>(v, error)\<close> a sum with the error on the left.

  The abstract keyspace is \<open>entry s\<close>: a map from keys to a typed value with an optional deadline.
  \<open>wf_store\<close> is the representation invariant under which the seven maps say the same thing as
  \<open>entry\<close>: every key lives in one of the five type maps and only keys of the four container maps
  have an entry in \<^verbatim>\<open>keyExpiry\<close>.  The refinement lemmas express each operation on \<open>entry\<close>.
\<close>

section \<open>State\<close>

datatype error = ErrWrongType | Errorf string

record strEntry =
  str_value :: string
  expiresAt :: gotime

record zset =
  scores :: "(string, float64) gomap"

record ZMember =
  Member :: string
  Score :: float64

record SetAdvOpts =
  KeepTTL :: bool
  NX :: bool
  XX :: bool
  GetOld :: bool

record MemoryStore =
  strings :: "(string, strEntry) gomap"
  hashes :: "(string, (string, string) gomap) gomap"
  lists :: "(string, string list) gomap"
  sets :: "(string, goset) gomap"
  zsets :: "(string, zset) gomap"
  keyExpiry :: "(string, gotime) gomap"
  keyVersion :: "(string, 64 word) gomap"

datatype tag = NoKey | TString | THash | TList | TSet | TZSet

definition NewMemoryStore :: MemoryStore where
  "NewMemoryStore =
     \<lparr>strings = [], hashes = [], lists = [], sets = [], zsets = [], keyExpiry = [], keyVersion = []\<rparr>"

section \<open>Helpers of the store\<close>

definition expired :: "gotime \<Rightarrow> gotime \<Rightarrow> bool" where
  "expired now t \<longleftrightarrow> t \<noteq> zeroTime \<and> t < now"

definition keyExpiredNonStr :: "gotime \<Rightarrow> string \<Rightarrow> MemoryStore \<Rightarrow> bool" where
  "keyExpiredNonStr now key s =
     (case map_of (keyExpiry s) key of None \<Rightarrow> False | Some ex \<Rightarrow> expired now ex)"

definition bumpVersion :: "string \<Rightarrow> MemoryStore \<Rightarrow> MemoryStore" where
  "bumpVersion key s = s\<lparr>keyVersion :=
     mput key ((case map_of (keyVersion s) key of None \<Rightarrow> 0 | Some v \<Rightarrow> v) + 1) (keyVersion s)\<rparr>"

definition deleteKey :: "string \<Rightarrow> MemoryStore \<Rightarrow> MemoryStore" where
  "deleteKey key s = s\<lparr>
     strings := mdel key (strings s),
     hashes := mdel key (hashes s),
     lists := mdel key (lists s),
     sets := mdel key (sets s),
     zsets := mdel key (zsets s),
     keyExpiry := mdel key (keyExpiry s)\<rparr>"

definition typeOf :: "gotime \<Rightarrow> string \<Rightarrow> MemoryStore \<Rightarrow> tag" where
  "typeOf now key s =
     (if (case map_of (strings s) key of None \<Rightarrow> False | Some e \<Rightarrow> \<not> expired now (expiresAt e)) then TString
      else if map_of (hashes s) key \<noteq> None \<and> \<not> keyExpiredNonStr now key s then THash
      else if map_of (lists s) key \<noteq> None \<and> \<not> keyExpiredNonStr now key s then TList
      else if map_of (sets s) key \<noteq> None \<and> \<not> keyExpiredNonStr now key s then TSet
      else if map_of (zsets s) key \<noteq> None \<and> \<not> keyExpiredNonStr now key s then TZSet
      else NoKey)"

definition normaliseIndex :: "int \<Rightarrow> int \<Rightarrow> int" where
  "normaliseIndex idx len =
     (let idx = (if idx < 0 then len + idx else idx)
      in if idx < 0 \<or> len \<le> idx then -1 else idx)"

definition clampRange :: "int \<Rightarrow> int \<Rightarrow> int \<Rightarrow> int \<times> int" where
  "clampRange start stop len =
     (let start = (if start < 0 then len + start else start);
          stop = (if stop < 0 then len + stop else stop);
          start = (if start < 0 then 0 else start);
          stop = (if len \<le> stop then len - 1 else stop)
      in (start, stop))"

text \<open>The background sweep: one pass over the strings, one over the expiry map.\<close>

definition sweepString :: "gotime \<Rightarrow> string \<times> strEntry \<Rightarrow> MemoryStore \<Rightarrow> MemoryStore" where
  "sweepString now = (\<lambda>(k, e) s.
     if expiresAt e \<noteq> zeroTime \<and> expiresAt e < now
     then s\<lparr>strings := mdel k (strings s), keyVersion := mdel k (keyVersion s)\<rparr>
     else s)"

definition sweepKey :: "gotime \<Rightarrow> string \<times> gotime \<Rightarrow> MemoryStore \<Rightarrow> MemoryStore" where
  "sweepKey now = (\<lambda>(k, ex) s.
     if ex < now
     then s\<lparr>hashes := mdel k (hashes s), lists := mdel k (lists s), sets := mdel k (sets s),
            zsets := mdel k (zsets s), keyExpiry := mdel k (keyExpiry s),
            keyVersion := mdel k (keyVersion s)\<rparr>
     else s)"

definition deleteExpired :: "gotime \<Rightarrow> MemoryStore \<Rightarrow> MemoryStore" where
  "deleteExpired now s =
     (let s' = fold (sweepString now) (strings s) s
      in fold (sweepKey now) (keyExpiry s') s')"

text \<open>
  The sweeper.  An event is a tick of its ticker at some time, or the end of its context; it sweeps on
  every tick until the context ends.
\<close>

datatype cleanupEvent = Ticked gotime | CtxDone

fun StartCleanup :: "cleanupEvent list \<Rightarrow> MemoryStore \<Rightarrow> MemoryStore" where
  "StartCleanup [] s = s"
| "StartCleanup (Ticked now # events) s = StartCleanup events (deleteExpired now s)"
| "StartCleanup (CtxDone # events) s = s"

section \<open>String operations\<close>

definition Set :: "string \<Rightarrow> string \<Rightarrow> MemoryStore \<Rightarrow> MemoryStore" where
  "Set key val s =
     (let s = deleteKey key s;
          s = s\<lparr>strings := mput key \<lparr>str_value = val, expiresAt = zeroTime\<rparr> (strings s)\<rparr>
      in bumpVersion key s)"

definition SetWithTTL :: "gotime \<Rightarrow> string \<Rightarrow> string \<Rightarrow> duration \<Rightarrow> MemoryStore \<Rightarrow> MemoryStore" where
  "SetWithTTL now key val ttl s =
     (let s = deleteKey key s;
          s = s\<lparr>strings := mput key \<lparr>str_value = val, expiresAt = now + ttl\<rparr> (strings s)\<rparr>
      in bumpVersion key s)"

definition SetAdv :: "gotime \<Rightarrow> string \<Rightarrow> string \<Rightarrow> duration \<Rightarrow> SetAdvOpts \<Rightarrow> MemoryStore
    \<Rightarrow> MemoryStore \<times> string \<times> bool \<times> bool" where
  "SetAdv now key val ttl opts s =
     (let (oldVal, oldExists) =
            (case map_of (strings s) key of
               None \<Rightarrow> ([], False)
             | Some e \<Rightarrow> if expired now (expiresAt e) then ([], False) else (str_value e, True))
      in if NX opts \<and> oldExists then (s, oldVal, oldExists, False)
         else if XX opts \<and> \<not> oldExists then (s, oldVal, oldExists, False)
         else
           let newExpiry =
                 (if KeepTTL opts then
                    (case map_of (strings s) key of None \<Rightarrow> zeroTime | Some e \<Rightarrow> expiresAt e)
                  else if 0 < ttl then now + ttl
                  else zeroTime);
               s = deleteKey key s;
               s = s\<lparr>strings := mput key \<lparr>str_value = val, expiresAt = newExpiry\<rparr> (strings s)\<rparr>
           in (bumpVersion key s, oldVal, oldExists, True))"

definition GetEx :: "gotime \<Rightarrow> string \<Rightarrow> duration \<Rightarrow> bool \<Rightarrow> bool \<Rightarrow> MemoryStore
    \<Rightarrow> MemoryStore \<times> string option" where
  "GetEx now key ttl persist hasTTL s =
     (case map_of (strings s) key of
        None \<Rightarrow> (s, None)
      | Some e \<Rightarrow>
          if expired now (expiresAt e) then (s, None)
          else if persist then
            (s\<lparr>strings := mput key (e\<lparr>expiresAt := zeroTime\<rparr>) (strings s)\<rparr>, Some (str_value e))
          else if hasTTL then
            (s\<lparr>strings := mput key (e\<lparr>expiresAt := now + ttl\<rparr>) (strings s)\<rparr>, Some (str_value e))
          else (s, Some (str_value e)))"

definition Get :: "gotime \<Rightarrow> string \<Rightarrow> MemoryStore \<Rightarrow> string option" where
  "Get now key s =
     (case map_of (strings s) key of
        None \<Rightarrow> None
      | Some e \<Rightarrow> if expired now (expiresAt e) then None else Some (str_value e))"

fun Del :: "gotime \<Rightarrow> string list \<Rightarrow> MemoryStore \<Rightarrow> MemoryStore \<times> int" where
  "Del now [] s = (s, 0)"
| "Del now (k # ks) s =
     (if typeOf now k s \<noteq> NoKey then
        (let (s', n) = Del now ks (bumpVersion k (deleteKey k s)) in (s', n + 1))
      else Del now ks s)"

fun Exists :: "gotime \<Rightarrow> string list \<Rightarrow> MemoryStore \<Rightarrow> int" where
  "Exists now [] s = 0"
| "Exists now (k # ks) s = (if typeOf now k s \<noteq> NoKey then 1 else 0) + Exists now ks s"

definition Len :: "gotime \<Rightarrow> MemoryStore \<Rightarrow> int" where
  "Len now s =
     int (length (filter (\<lambda>(k, e). expiresAt e = zeroTime \<or> now < expiresAt e) (strings s)))
     + int (length (filter (\<lambda>(k, _). \<not> keyExpiredNonStr now k s) (hashes s)))
     + int (length (filter (\<lambda>(k, _). \<not> keyExpiredNonStr now k s) (lists s)))
     + int (length (filter (\<lambda>(k, _). \<not> keyExpiredNonStr now k s) (sets s)))
     + int (length (filter (\<lambda>(k, _). \<not> keyExpiredNonStr now k s) (zsets s)))"

definition Flush :: "MemoryStore \<Rightarrow> MemoryStore" where
  "Flush s = s\<lparr>strings := [], hashes := [], lists := [], sets := [], zsets := [],
     keyExpiry := [], keyVersion := []\<rparr>"

section \<open>Expiry operations\<close>

fun isContainer :: "tag \<Rightarrow> bool" where
  "isContainer THash = True"
| "isContainer TList = True"
| "isContainer TSet = True"
| "isContainer TZSet = True"
| "isContainer _ = False"

definition Expire :: "gotime \<Rightarrow> string \<Rightarrow> duration \<Rightarrow> MemoryStore \<Rightarrow> MemoryStore \<times> bool" where
  "Expire now key ttl s =
     (case map_of (strings s) key of
        Some e \<Rightarrow>
          (if \<not> expired now (expiresAt e)
           then (s\<lparr>strings := mput key (e\<lparr>expiresAt := now + ttl\<rparr>) (strings s)\<rparr>, True)
           else if isContainer (typeOf now key s)
           then (s\<lparr>keyExpiry := mput key (now + ttl) (keyExpiry s)\<rparr>, True)
           else (s, False))
      | None \<Rightarrow>
          if isContainer (typeOf now key s)
          then (s\<lparr>keyExpiry := mput key (now + ttl) (keyExpiry s)\<rparr>, True)
          else (s, False))"

definition TTL :: "gotime \<Rightarrow> string \<Rightarrow> MemoryStore \<Rightarrow> duration" where
  "TTL now key s =
     (case map_of (strings s) key of
        Some e \<Rightarrow>
          (if expired now (expiresAt e) then -2 * Second
           else if expiresAt e = zeroTime then -1 * Second
           else timeUntil now (expiresAt e))
      | None \<Rightarrow>
          if typeOf now key s = NoKey then -2 * Second
          else (case map_of (keyExpiry s) key of
                  None \<Rightarrow> -1 * Second
                | Some ex \<Rightarrow> if expired now ex then -2 * Second else timeUntil now ex))"

definition Persist :: "gotime \<Rightarrow> string \<Rightarrow> MemoryStore \<Rightarrow> MemoryStore \<times> bool" where
  "Persist now key s =
     (if (case map_of (strings s) key of None \<Rightarrow> False
          | Some e \<Rightarrow> \<not> expired now (expiresAt e) \<and> expiresAt e \<noteq> zeroTime)
      then (s\<lparr>strings := mput key ((the (map_of (strings s) key))\<lparr>expiresAt := zeroTime\<rparr>) (strings s)\<rparr>, True)
      else if isContainer (typeOf now key s) \<and> map_of (keyExpiry s) key \<noteq> None
      then (s\<lparr>keyExpiry := mdel key (keyExpiry s)\<rparr>, True)
      else (s, False))"

section \<open>Rename\<close>

text \<open>
  A missing entry reads as the zero value: the zero string entry, a nil map or slice, which copies
  to an empty one, and a nil sorted-set pointer, whose field access panics.
\<close>

definition renameEntry :: "tag \<Rightarrow> string \<Rightarrow> string \<Rightarrow> MemoryStore \<Rightarrow> MemoryStore go" where
  "renameEntry srcType src dst s =
     (case srcType of
        NoKey \<Rightarrow> Ret s
      | TString \<Rightarrow>
          (let e = (case map_of (strings s) src of None \<Rightarrow> \<lparr>str_value = [], expiresAt = zeroTime\<rparr> | Some e \<Rightarrow> e)
           in Ret (s\<lparr>strings := mdel src (mput dst e (strings s))\<rparr>))
      | THash \<Rightarrow>
          (let h = (case map_of (hashes s) src of None \<Rightarrow> [] | Some h \<Rightarrow> h)
           in Ret (s\<lparr>hashes := mdel src (mput dst h (hashes s))\<rparr>))
      | TList \<Rightarrow>
          (let l = (case map_of (lists s) src of None \<Rightarrow> [] | Some l \<Rightarrow> l)
           in Ret (s\<lparr>lists := mdel src (mput dst l (lists s))\<rparr>))
      | TSet \<Rightarrow>
          (let st = (case map_of (sets s) src of None \<Rightarrow> [] | Some st \<Rightarrow> st)
           in Ret (s\<lparr>sets := mdel src (mput dst st (sets s))\<rparr>))
      | TZSet \<Rightarrow>
          (case map_of (zsets s) src of
             None \<Rightarrow> Panic
           | Some z \<Rightarrow> Ret (s\<lparr>zsets := mdel src (mput dst z (zsets s))\<rparr>)))"

definition Rename :: "gotime \<Rightarrow> string \<Rightarrow> string \<Rightarrow> MemoryStore \<Rightarrow> (MemoryStore \<times> bool) go" where
  "Rename now src dst s =
     (if typeOf now src s = NoKey then Ret (s, False)
      else
        map_go
          (\<lambda>s.
             let s = (case map_of (keyExpiry s) src of
                        Some ex \<Rightarrow> s\<lparr>keyExpiry := mdel src (mput dst ex (keyExpiry s))\<rparr>
                      | None \<Rightarrow> s\<lparr>keyExpiry := mdel dst (keyExpiry s)\<rparr>)
             in (bumpVersion src (bumpVersion dst s), True))
          (renameEntry (typeOf now src s) src dst (deleteKey dst s)))"

section \<open>Versions and types\<close>

definition Version :: "string \<Rightarrow> MemoryStore \<Rightarrow> 64 word" where
  "Version key s = (case map_of (keyVersion s) key of None \<Rightarrow> 0 | Some v \<Rightarrow> v)"

fun tagName :: "tag \<Rightarrow> string" where
  "tagName NoKey = ''''"
| "tagName TString = ''string''"
| "tagName THash = ''hash''"
| "tagName TList = ''list''"
| "tagName TSet = ''set''"
| "tagName TZSet = ''zset''"

definition Type :: "gotime \<Rightarrow> string \<Rightarrow> MemoryStore \<Rightarrow> string" where
  "Type now key s = (if typeOf now key s = NoKey then ''none'' else tagName (typeOf now key s))"

end
