(* ===== verification/Keyspace.thy ===== *)
theory Keyspace
  imports Store
begin

text \<open>
  The abstract keyspace and the representation invariant of the store, with the refinement lemmas
  of the whole-key operations: what \<^verbatim>\<open>Set\<close>, \<^verbatim>\<open>Del\<close>, \<^verbatim>\<open>Expire\<close>, \<^verbatim>\<open>Rename\<close> and the
  background sweep do to the map from keys to values and deadlines.

  For every mutating method there are three facts, here and in the theories of the data types: which
  keys it may change (\<open>same_at\<close>), that it keeps the invariant (\<open>wf_store\<close>), and that the version counters
  record what it changed (\<open>versioned\<close>).
\<close>

named_theorems store_simps \<comment> \<open>fields of the store after the helper updates\<close>

section \<open>The abstract keyspace\<close>

datatype obj =
    OStr string
  | OHash "(string, string) gomap"
  | OList "string list"
  | OSet goset
  | OZSet zset

fun tagOf :: "obj \<Rightarrow> tag" where
  "tagOf (OStr _) = TString"
| "tagOf (OHash _) = THash"
| "tagOf (OList _) = TList"
| "tagOf (OSet _) = TSet"
| "tagOf (OZSet _) = TZSet"

definition dlOf :: "gotime \<Rightarrow> gotime option" where
  "dlOf t = (if t = zeroTime then None else Some t)"

definition container_of :: "(string, string) gomap option \<Rightarrow> string list option \<Rightarrow> goset option
    \<Rightarrow> zset option \<Rightarrow> obj option" where
  "container_of h l st z =
     (case h of
        Some h \<Rightarrow> Some (OHash h)
      | None \<Rightarrow>
        (case l of
           Some l \<Rightarrow> Some (OList l)
         | None \<Rightarrow>
           (case st of
              Some st \<Rightarrow> Some (OSet st)
            | None \<Rightarrow> map_option OZSet z)))"

definition container :: "MemoryStore \<Rightarrow> string \<Rightarrow> obj option" where
  "container s k =
     container_of (map_of (hashes s) k) (map_of (lists s) k) (map_of (sets s) k) (map_of (zsets s) k)"

definition entry_of :: "strEntry option \<Rightarrow> obj option \<Rightarrow> gotime option \<Rightarrow> (obj \<times> gotime option) option" where
  "entry_of e c x =
     (case e of
        Some e \<Rightarrow> Some (OStr (str_value e), dlOf (expiresAt e))
      | None \<Rightarrow> map_option (\<lambda>ob. (ob, x)) c)"

definition entry :: "MemoryStore \<Rightarrow> string \<Rightarrow> (obj \<times> gotime option) option" where
  "entry s k = entry_of (map_of (strings s) k) (container s k) (map_of (keyExpiry s) k)"

lemma container_of_simps [simp]:
  "container_of (Some h) a b z = Some (OHash h)"
  "container_of None (Some l) b z = Some (OList l)"
  "container_of None None (Some st) z = Some (OSet st)"
  "container_of None None None z = map_option OZSet z"
  by (simp_all add: container_of_def)

lemma entry_of_simps [simp]:
  "entry_of (Some e) c x = Some (OStr (str_value e), dlOf (expiresAt e))"
  "entry_of None (Some ob) x = Some (ob, x)"
  "entry_of None None x = None"
  by (simp_all add: entry_of_def)

definition dead :: "gotime \<Rightarrow> gotime option \<Rightarrow> bool" where
  "dead now dl = (case dl of None \<Rightarrow> False | Some t \<Rightarrow> t < now)"

lemma dead_simps [simp]: "\<not> dead now None" "dead now (Some t) \<longleftrightarrow> t < now"
  by (simp_all add: dead_def)

definition live :: "gotime \<Rightarrow> MemoryStore \<Rightarrow> string \<Rightarrow> (obj \<times> gotime option) option" where
  "live now s k =
     (case entry s k of
        None \<Rightarrow> None
      | Some (ob, dl) \<Rightarrow> if dead now dl then None else Some (ob, dl))"

text \<open>A key is settled when no expired value of it waits for the sweep.\<close>

definition settled :: "gotime \<Rightarrow> MemoryStore \<Rightarrow> string \<Rightarrow> bool" where
  "settled now s k \<longleftrightarrow> live now s k = entry s k"

section \<open>The representation invariant\<close>

definition key_ok :: "strEntry option \<Rightarrow> (string, string) gomap option \<Rightarrow> string list option
    \<Rightarrow> goset option \<Rightarrow> zset option \<Rightarrow> gotime option \<Rightarrow> bool" where
  "key_ok e h l st z x \<longleftrightarrow>
     (e \<noteq> None \<longrightarrow> h = None \<and> l = None \<and> st = None \<and> z = None) \<and>
     (h \<noteq> None \<longrightarrow> l = None \<and> st = None \<and> z = None) \<and>
     (l \<noteq> None \<longrightarrow> st = None \<and> z = None) \<and>
     (st \<noteq> None \<longrightarrow> z = None) \<and>
     (x \<noteq> None \<longrightarrow> h \<noteq> None \<or> l \<noteq> None \<or> st \<noteq> None \<or> z \<noteq> None) \<and>
     x \<noteq> Some zeroTime \<and>
     (\<forall>m. h = Some m \<longrightarrow> wf_map m \<and> m \<noteq> []) \<and>
     l \<noteq> Some [] \<and>
     (\<forall>m. st = Some m \<longrightarrow> wf_map m \<and> m \<noteq> []) \<and>
     (\<forall>m. z = Some m \<longrightarrow> wf_map (scores m))"

definition keyOk :: "MemoryStore \<Rightarrow> string \<Rightarrow> bool" where
  "keyOk s k = key_ok (map_of (strings s) k) (map_of (hashes s) k) (map_of (lists s) k)
     (map_of (sets s) k) (map_of (zsets s) k) (map_of (keyExpiry s) k)"

definition wf_maps :: "MemoryStore \<Rightarrow> bool" where
  "wf_maps s \<longleftrightarrow> wf_map (strings s) \<and> wf_map (hashes s) \<and> wf_map (lists s) \<and> wf_map (sets s)
     \<and> wf_map (zsets s) \<and> wf_map (keyExpiry s) \<and> wf_map (keyVersion s)"

definition wf_store :: "MemoryStore \<Rightarrow> bool" where
  "wf_store s \<longleftrightarrow> wf_maps s \<and> (\<forall>k. keyOk s k)"

text \<open>Two states hold the same at a key.\<close>

definition same_at :: "string \<Rightarrow> MemoryStore \<Rightarrow> MemoryStore \<Rightarrow> bool" where
  "same_at k s t \<longleftrightarrow>
     map_of (strings s) k = map_of (strings t) k \<and>
     map_of (hashes s) k = map_of (hashes t) k \<and>
     map_of (lists s) k = map_of (lists t) k \<and>
     map_of (sets s) k = map_of (sets t) k \<and>
     map_of (zsets s) k = map_of (zsets t) k \<and>
     map_of (keyExpiry s) k = map_of (keyExpiry t) k"

section \<open>Helper updates\<close>

lemma bumpVersion_sel [simp, store_simps]:
  "strings (bumpVersion k s) = strings s" "hashes (bumpVersion k s) = hashes s"
  "lists (bumpVersion k s) = lists s" "sets (bumpVersion k s) = sets s"
  "zsets (bumpVersion k s) = zsets s" "keyExpiry (bumpVersion k s) = keyExpiry s"
  by (simp_all add: bumpVersion_def)

lemma deleteKey_sel [simp, store_simps]:
  "strings (deleteKey k s) = mdel k (strings s)" "hashes (deleteKey k s) = mdel k (hashes s)"
  "lists (deleteKey k s) = mdel k (lists s)" "sets (deleteKey k s) = mdel k (sets s)"
  "zsets (deleteKey k s) = mdel k (zsets s)" "keyExpiry (deleteKey k s) = mdel k (keyExpiry s)"
  "keyVersion (deleteKey k s) = keyVersion s"
  by (simp_all add: deleteKey_def)

lemma Version_bumpVersion: "Version k (bumpVersion k' s) = (if k = k' then Version k s + 1 else Version k s)"
  by (simp add: Version_def bumpVersion_def)

lemma Version_cong: "keyVersion s = keyVersion t \<Longrightarrow> Version k s = Version k t"
  by (simp add: Version_def)

lemma Version_deleteKey [simp]: "Version k (deleteKey k' s) = Version k s"
  by (simp add: Version_def)

lemma wf_maps_bumpVersion [simp]: "wf_maps s \<Longrightarrow> wf_maps (bumpVersion k s)"
  by (simp add: wf_maps_def) (simp add: bumpVersion_def)

lemma wf_maps_deleteKey [simp]: "wf_maps s \<Longrightarrow> wf_maps (deleteKey k s)"
  by (simp add: wf_maps_def)

lemma same_at_refl [simp]: "same_at k s s"
  by (simp add: same_at_def)

lemma same_at_trans: "same_at k s t \<Longrightarrow> same_at k t u \<Longrightarrow> same_at k s u"
  by (simp add: same_at_def)

lemma same_at_sym: "same_at k s t \<Longrightarrow> same_at k t s"
  by (simp add: same_at_def)

lemma same_at_bumpVersion [simp]: "same_at k (bumpVersion k' s) t \<longleftrightarrow> same_at k s t"
  by (simp add: same_at_def)

lemma same_at_deleteKey [simp]: "k \<noteq> k' \<Longrightarrow> same_at k (deleteKey k' s) t \<longleftrightarrow> same_at k s t"
  by (simp add: same_at_def)

lemma same_at_keyOk: "same_at k s t \<Longrightarrow> keyOk s k = keyOk t k"
  by (simp add: same_at_def keyOk_def)

lemma same_at_entry: "same_at k s t \<Longrightarrow> entry s k = entry t k"
  by (simp add: same_at_def entry_def container_def)

lemma same_at_typeOf: "same_at k s t \<Longrightarrow> typeOf now k s = typeOf now k t"
  by (simp add: same_at_def typeOf_def keyExpiredNonStr_def)

lemma entry_bumpVersion [simp]: "entry (bumpVersion k s) = entry s"
  by (simp add: fun_eq_iff entry_def container_def)

lemma keyOk_bumpVersion [simp]: "keyOk (bumpVersion k s) = keyOk s"
  by (simp add: fun_eq_iff keyOk_def)

lemma typeOf_bumpVersion [simp]: "typeOf now k (bumpVersion k' s) = typeOf now k s"
  by (simp add: typeOf_def keyExpiredNonStr_def)

lemma wf_store_maps [simp]: "wf_store s \<Longrightarrow> wf_maps s"
  by (simp add: wf_store_def)

lemma wf_store_key: "wf_store s \<Longrightarrow> keyOk s k"
  by (simp add: wf_store_def)

text \<open>An update confined to the keys of \<open>K\<close> keeps the invariant if those keys stay in order.\<close>

lemma wf_store_update:
  assumes "wf_store s" and "wf_maps t"
    and "\<And>k. k \<notin> K \<Longrightarrow> same_at k t s" and "\<And>k. k \<in> K \<Longrightarrow> keyOk t k"
  shows "wf_store t"
  unfolding wf_store_def
proof (intro conjI allI)
  fix k
  show "keyOk t k"
  proof (cases "k \<in> K")
    case False
    with assms(3) have "same_at k t s" by simp
    then show ?thesis using same_at_keyOk wf_store_key [OF assms(1)] by blast
  qed (rule assms(4))
qed (rule assms(2))

lemma wf_store_bumpVersion [simp]: "wf_store s \<Longrightarrow> wf_store (bumpVersion k s)"
  by (simp add: wf_store_def)

lemma keyOk_deleted: "keyOk (deleteKey k s) k"
  by (simp add: keyOk_def key_ok_def)

lemma wf_store_deleteKey [simp]: "wf_store s \<Longrightarrow> wf_store (deleteKey k s)"
  by (rule wf_store_update [where s = s and K = "{k}"]) (simp_all add: keyOk_deleted)

lemma wf_store_New: "wf_store NewMemoryStore"
  by (simp add: wf_store_def wf_maps_def keyOk_def key_ok_def NewMemoryStore_def)

section \<open>Reading through the abstraction\<close>

lemma expired_dlOf: "expired now t \<longleftrightarrow> dead now (dlOf t)"
  by (simp add: expired_def dead_def dlOf_def)

lemma keyExpired_dead:
  "keyOk s k \<Longrightarrow> keyExpiredNonStr now k s = dead now (map_of (keyExpiry s) k)"
  by (auto simp: keyOk_def key_ok_def keyExpiredNonStr_def dead_def expired_def split: option.splits)

lemma typeOf_entry:
  "keyOk s k \<Longrightarrow> typeOf now k s =
     (case entry s k of None \<Rightarrow> NoKey | Some (ob, dl) \<Rightarrow> if dead now dl then NoKey else tagOf ob)"
  using keyExpired_dead [of s k now]
  by (auto simp: typeOf_def entry_def container_def keyOk_def key_ok_def expired_dlOf
      entry_of_def container_of_def split: option.splits)

lemma typeOf_live:
  "keyOk s k \<Longrightarrow> typeOf now k s = (case live now s k of None \<Rightarrow> NoKey | Some (ob, _) \<Rightarrow> tagOf ob)"
  by (auto simp: typeOf_entry live_def split: option.splits)

lemma Get_entry:
  "Get now k s = (case entry s k of
     Some (OStr v, dl) \<Rightarrow> if dead now dl then None else Some v | _ \<Rightarrow> None)"
  by (auto simp: Get_def entry_def container_def expired_dlOf entry_of_def container_of_def
      split: option.splits)

lemma tagOf_not_NoKey [simp]: "tagOf ob \<noteq> NoKey" "NoKey \<noteq> tagOf ob"
  by (cases ob; simp)+

section \<open>Strings and deletion on the abstract keyspace\<close>

lemma entry_deleteKey: "entry (deleteKey k s) = (entry s)(k := None)"
  by (auto simp: fun_eq_iff entry_def container_def)

lemma same_at_Set: "k \<noteq> key \<Longrightarrow> same_at k (Set key v s) s"
  by (simp add: Set_def same_at_def Let_def)

lemma entry_Set: "entry (Set key v s) = (entry s)(key \<mapsto> (OStr v, None))"
  by (auto simp: fun_eq_iff Set_def Let_def entry_def container_def dlOf_def)

lemma wf_store_Set: "wf_store s \<Longrightarrow> wf_store (Set key v s)"
  by (rule wf_store_update [where s = s and K = "{key}"])
    (simp_all add: same_at_Set,
      simp_all add: Set_def Let_def wf_store_def wf_maps_def keyOk_def key_ok_def, simp add: bumpVersion_def)

lemma same_at_SetWithTTL: "k \<noteq> key \<Longrightarrow> same_at k (SetWithTTL now key v ttl s) s"
  by (simp add: SetWithTTL_def same_at_def Let_def)

lemma entry_SetWithTTL:
  "entry (SetWithTTL now key v ttl s) = (entry s)(key \<mapsto> (OStr v, dlOf (now + ttl)))"
  by (auto simp: fun_eq_iff SetWithTTL_def Let_def entry_def container_def)

lemma wf_store_SetWithTTL: "wf_store s \<Longrightarrow> wf_store (SetWithTTL now key v ttl s)"
  by (rule wf_store_update [where s = s and K = "{key}"])
    (simp_all add: same_at_SetWithTTL,
      simp_all add: SetWithTTL_def Let_def wf_store_def wf_maps_def keyOk_def key_ok_def,
      simp add: bumpVersion_def)

lemma wf_store_Flush: "wf_store (Flush s)"
  by (simp add: wf_store_def wf_maps_def keyOk_def key_ok_def Flush_def)

lemma entry_Flush: "entry (Flush s) = Map.empty"
  by (simp add: fun_eq_iff Flush_def entry_def container_def)

lemma wf_map_keyVersion [simp]: "wf_map (keyVersion s) \<Longrightarrow> wf_map (keyVersion (bumpVersion k s))"
  by (simp add: bumpVersion_def)

lemma same_at_SetAdv: "k \<noteq> key \<Longrightarrow> same_at k (fst (SetAdv now key v ttl opts s)) s"
  by (simp add: SetAdv_def Let_def split: prod.split) (simp add: same_at_def)

lemma SetAdv_result:
  "snd (SetAdv now key v ttl opts s) =
     (let old = Get now key s
      in ((case old of None \<Rightarrow> [] | Some w \<Rightarrow> w), old \<noteq> None,
          \<not> (NX opts \<and> old \<noteq> None) \<and> \<not> (XX opts \<and> old = None)))"
  by (simp add: SetAdv_def Get_def Let_def split: option.splits)

lemma SetAdv_state:
  "fst (SetAdv now key v ttl opts s) =
     (if (NX opts \<and> Get now key s \<noteq> None) \<or> (XX opts \<and> Get now key s = None) then s
      else let t = (if KeepTTL opts then
                      (case map_of (strings s) key of None \<Rightarrow> zeroTime | Some e \<Rightarrow> expiresAt e)
                    else if 0 < ttl then now + ttl else zeroTime)
           in bumpVersion key ((deleteKey key s)\<lparr>strings :=
                mput key \<lparr>str_value = v, expiresAt = t\<rparr> (mdel key (strings s))\<rparr>))"
  by (simp add: SetAdv_def Get_def Let_def split: option.splits)

lemma entry_put_string:
  "entry (bumpVersion key ((deleteKey key s)\<lparr>strings := mput key e (mdel key (strings s))\<rparr>)) =
     (entry s)(key \<mapsto> (OStr (str_value e), dlOf (expiresAt e)))"
  by (auto simp: fun_eq_iff entry_def container_def)

lemma wf_store_put_string:
  assumes "wf_store s"
  shows "wf_store (bumpVersion key ((deleteKey key s)\<lparr>strings := mput key e (mdel key (strings s))\<rparr>))"
proof (rule wf_store_update [where s = s and K = "{key}"])
  let ?t = "bumpVersion key ((deleteKey key s)\<lparr>strings := mput key e (mdel key (strings s))\<rparr>)"
  show "wf_maps ?t" using assms by (simp add: wf_store_def wf_maps_def)
  show "same_at k ?t s" if "k \<notin> {key}" for k using that by (simp add: same_at_def)
  show "keyOk ?t k" if "k \<in> {key}" for k using that by (simp add: keyOk_def key_ok_def)
qed (rule assms)

lemma wf_store_SetAdv: "wf_store s \<Longrightarrow> wf_store (fst (SetAdv now key v ttl opts s))"
  by (simp add: SetAdv_state Let_def wf_store_put_string)

lemma wf_store_GetEx: "wf_store s \<Longrightarrow> wf_store (fst (GetEx now key ttl persist hasTTL s))"
proof (rule wf_store_update [where s = s and K = "{key}"])
  assume wf: "wf_store s"
  show "wf_maps (fst (GetEx now key ttl persist hasTTL s))"
    using wf_store_maps [OF wf] by (simp add: GetEx_def wf_maps_def split: option.split)
  show "k \<notin> {key} \<Longrightarrow> same_at k (fst (GetEx now key ttl persist hasTTL s)) s" for k
    by (simp add: GetEx_def same_at_def split: option.split)
  show "k \<in> {key} \<Longrightarrow> keyOk (fst (GetEx now key ttl persist hasTTL s)) k" for k
    using wf_store_key [OF wf, of k] by (auto simp: GetEx_def keyOk_def key_ok_def split: option.split)
qed

lemma same_at_Del: "k \<notin> set ks \<Longrightarrow> same_at k (fst (Del now ks s)) s"
proof (induction ks arbitrary: s)
  case (Cons a ks)
  have IH: "same_at k (fst (Del now ks t)) t" for t
    using Cons by simp
  show ?case
    using IH [of s] IH [of "bumpVersion a (deleteKey a s)"] Cons.prems
    by (auto simp: case_prod_beta Let_def intro: same_at_trans)
qed simp

lemma wf_store_Del: "wf_store s \<Longrightarrow> wf_store (fst (Del now ks s))"
  by (induction ks arbitrary: s) (auto simp: case_prod_beta Let_def)

lemma Del_count: "0 \<le> snd (Del now ks s) \<and> snd (Del now ks s) \<le> int (length ks)"
proof (induction ks arbitrary: s)
  case (Cons a ks)
  show ?case
    using Cons.IH [of s] Cons.IH [of "bumpVersion a (deleteKey a s)"]
    by (simp add: case_prod_beta Let_def)
qed simp

lemma live_deleteKey: "live now (deleteKey k s) = (live now s)(k := None)"
  by (auto simp: fun_eq_iff live_def entry_deleteKey)

lemma live_bumpVersion [simp]: "live now (bumpVersion k s) = live now s"
  by (simp add: fun_eq_iff live_def)

lemma live_None_typeOf: "keyOk s k \<Longrightarrow> typeOf now k s = NoKey \<longleftrightarrow> live now s k = None"
  by (auto simp: typeOf_live split: option.splits)

lemma live_Del:
  "wf_store s \<Longrightarrow> live now (fst (Del now ks s)) = (\<lambda>k. if k \<in> set ks then None else live now s k)"
proof (induction ks arbitrary: s)
  case (Cons a ks)
  have "typeOf now a s = NoKey \<longleftrightarrow> live now s a = None"
    using Cons.prems by (simp add: live_None_typeOf wf_store_key)
  then show ?case
    using Cons.IH [of s] Cons.IH [of "bumpVersion a (deleteKey a s)"] Cons.prems
    by (auto simp: fun_eq_iff case_prod_beta Let_def live_deleteKey)
qed simp

lemma Exists_live:
  "wf_store s \<Longrightarrow> Exists now ks s = int (length (filter (\<lambda>k. live now s k \<noteq> None) ks))"
  by (induction ks) (simp_all add: live_None_typeOf wf_store_key)

section \<open>Expiry on the abstract keyspace\<close>

lemma isContainer_iff: "isContainer t \<longleftrightarrow> t \<noteq> NoKey \<and> t \<noteq> TString"
  by (cases t) simp_all

lemma container_not_string: "container s k = Some ob \<Longrightarrow> tagOf ob \<noteq> TString"
  by (auto simp: container_def container_of_def split: option.splits)

lemma keyOk_string: "keyOk s k \<Longrightarrow> map_of (strings s) k = Some e \<Longrightarrow> container s k = None"
  by (simp add: keyOk_def key_ok_def container_def)

lemma same_at_Expire: "k \<noteq> key \<Longrightarrow> same_at k (fst (Expire now key ttl s)) s"
  by (simp add: Expire_def same_at_def split: option.splits)

lemma container_put_expiry [simp]: "container (s\<lparr>keyExpiry := m\<rparr>) = container s"
  "container (s\<lparr>strings := m'\<rparr>) = container s"
  by (simp_all add: fun_eq_iff container_def)

text \<open>The three shapes of a key in order, as the operations see them.\<close>

lemma key_cases [consumes 1, case_names missing string container]:
  assumes "keyOk s k"
  obtains "map_of (strings s) k = None" "container s k = None" "entry s k = None" "typeOf now k s = NoKey"
  | e where "map_of (strings s) k = Some e" "container s k = None"
      "entry s k = Some (OStr (str_value e), dlOf (expiresAt e))"
      "typeOf now k s = (if expired now (expiresAt e) then NoKey else TString)"
  | ob where "map_of (strings s) k = None" "container s k = Some ob"
      "entry s k = Some (ob, map_of (keyExpiry s) k)" "tagOf ob \<noteq> TString"
      "typeOf now k s = (if dead now (map_of (keyExpiry s) k) then NoKey else tagOf ob)"
proof (cases "map_of (strings s) k")
  case None
  show ?thesis
  proof (cases "container s k")
    case None
    then show ?thesis using \<open>map_of (strings s) k = None\<close> that(1) typeOf_entry [OF assms, of now]
      by (simp add: entry_def)
  next
    case (Some ob)
    then show ?thesis
      using \<open>map_of (strings s) k = None\<close> that(3) [of ob] typeOf_entry [OF assms, of now]
        container_not_string [OF Some]
      by (simp add: entry_def)
  qed
next
  case (Some e)
  then show ?thesis
    using that(2) [of e] keyOk_string [OF assms Some] typeOf_entry [OF assms, of now]
    by (simp add: entry_def expired_dlOf)
qed

lemma Expire_result: "keyOk s k \<Longrightarrow> snd (Expire now k ttl s) = (live now s k \<noteq> None)"
  by (cases rule: key_cases [where now = now])
    (auto simp: Expire_def isContainer_iff live_def expired_dlOf split: if_splits)

lemma Expire_entry:
  assumes "keyOk s k" and "now + ttl \<noteq> zeroTime"
  shows "entry (fst (Expire now k ttl s)) k =
      (case live now s k of None \<Rightarrow> entry s k | Some (ob, _) \<Rightarrow> Some (ob, Some (now + ttl)))"
  using assms(1)
proof (cases rule: key_cases [where now = now])
  case missing
  then show ?thesis by (simp add: Expire_def isContainer_iff live_def)
next
  case (string e)
  then show ?thesis using assms(2)
    by (simp add: Expire_def isContainer_iff live_def expired_dlOf entry_def dlOf_def)
next
  case (container ob)
  then show ?thesis
    by (simp add: Expire_def isContainer_iff live_def entry_def)
qed

lemma wf_store_Expire:
  assumes wf: "wf_store s" and "now + ttl \<noteq> zeroTime"
  shows "wf_store (fst (Expire now key ttl s))"
proof (rule wf_store_update [where s = s and K = "{key}"])
  show "wf_maps (fst (Expire now key ttl s))"
    using wf by (auto simp: wf_store_def wf_maps_def Expire_def split: option.splits)
  have ok: "keyOk s key" using wf by (rule wf_store_key)
  then have "keyOk (fst (Expire now key ttl s)) key"
  proof (cases rule: key_cases [where now = now])
    case (container ob)
    with ok assms(2) show ?thesis
      by (auto simp: Expire_def isContainer_iff keyOk_def key_ok_def container_def)
  qed (use ok assms(2) in \<open>auto simp: Expire_def isContainer_iff keyOk_def key_ok_def\<close>)
  then show "keyOk (fst (Expire now key ttl s)) k" if "k \<in> {key}" for k
    using that by simp
qed (simp_all add: wf same_at_Expire)

lemma same_at_Persist: "k \<noteq> key \<Longrightarrow> same_at k (fst (Persist now key s)) s"
  by (simp add: Persist_def same_at_def split: option.splits)

lemma Persist_result:
  "keyOk s k \<Longrightarrow> snd (Persist now k s) = (\<exists>ob t. live now s k = Some (ob, Some t))"
  by (cases rule: key_cases [where now = now])
    (auto simp: Persist_def isContainer_iff live_def expired_dlOf dlOf_def split: if_splits)

lemma Persist_entry:
  assumes "keyOk s k"
  shows "entry (fst (Persist now k s)) k =
      (case live now s k of None \<Rightarrow> entry s k | Some (ob, _) \<Rightarrow> Some (ob, None))"
  using assms
  by (cases rule: key_cases [where now = now])
    (auto simp: Persist_def isContainer_iff live_def expired_dlOf entry_def dlOf_def dead_def)

lemma wf_store_Persist:
  assumes wf: "wf_store s"
  shows "wf_store (fst (Persist now key s))"
proof (rule wf_store_update [where s = s and K = "{key}"])
  show "wf_maps (fst (Persist now key s))"
    using wf by (auto simp: wf_store_def wf_maps_def Persist_def split: option.splits)
  have ok: "keyOk s key" using wf by (rule wf_store_key)
  then have "keyOk (fst (Persist now key s)) key"
    by (auto simp: Persist_def isContainer_iff keyOk_def key_ok_def split: option.splits)
  then show "keyOk (fst (Persist now key s)) k" if "k \<in> {key}" for k
    using that by simp
qed (simp_all add: wf same_at_Persist)

section \<open>The background sweep\<close>

lemma sweepString_sel:
  "hashes (sweepString now ke s) = hashes s" "lists (sweepString now ke s) = lists s"
  "sets (sweepString now ke s) = sets s" "zsets (sweepString now ke s) = zsets s"
  "keyExpiry (sweepString now ke s) = keyExpiry s"
  by (simp_all add: sweepString_def split: prod.split)

lemma fold_sweepString_sel [simp]:
  "hashes (fold (sweepString now) es s) = hashes s" "lists (fold (sweepString now) es s) = lists s"
  "sets (fold (sweepString now) es s) = sets s" "zsets (fold (sweepString now) es s) = zsets s"
  "keyExpiry (fold (sweepString now) es s) = keyExpiry s"
  by (induction es arbitrary: s) (simp_all add: sweepString_sel)

lemma fold_sweepString_strings:
  "map_of (strings (fold (sweepString now) es s)) k =
     (if \<exists>e. (k, e) \<in> set es \<and> expired now (expiresAt e) then None else map_of (strings s) k)"
  by (induction es arbitrary: s) (auto simp: sweepString_def expired_def)

lemma fold_sweepKey_sel [simp]: "strings (fold (sweepKey now) xs s) = strings s"
  by (induction xs arbitrary: s) (simp_all add: sweepKey_def split: prod.split)

definition due :: "gotime \<Rightarrow> (string \<times> gotime) list \<Rightarrow> string \<Rightarrow> bool" where
  "due now xs k \<longleftrightarrow> (\<exists>x. (k, x) \<in> set xs \<and> x < now)"

lemma fold_sweepKey_maps:
  "map_of (hashes (fold (sweepKey now) xs s)) k = (if due now xs k then None else map_of (hashes s) k)"
  "map_of (lists (fold (sweepKey now) xs s)) k = (if due now xs k then None else map_of (lists s) k)"
  "map_of (sets (fold (sweepKey now) xs s)) k = (if due now xs k then None else map_of (sets s) k)"
  "map_of (zsets (fold (sweepKey now) xs s)) k = (if due now xs k then None else map_of (zsets s) k)"
  "map_of (keyExpiry (fold (sweepKey now) xs s)) k = (if due now xs k then None else map_of (keyExpiry s) k)"
  unfolding due_def by (induction xs arbitrary: s) (auto simp: sweepKey_def)

lemma wf_maps_fold:
  assumes "\<And>x s. wf_maps s \<Longrightarrow> wf_maps (f x s)" and "wf_maps s"
  shows "wf_maps (fold f xs s)"
  using assms(2) by (induction xs arbitrary: s) (simp_all add: assms(1))

lemma wf_maps_deleteExpired: "wf_maps s \<Longrightarrow> wf_maps (deleteExpired now s)"
  unfolding deleteExpired_def Let_def
  by (intro wf_maps_fold) (auto simp: wf_maps_def sweepString_def sweepKey_def split: prod.split)

lemma due_keyExpiry: "wf_maps s \<Longrightarrow> due now (keyExpiry s) k \<longleftrightarrow> dead now (map_of (keyExpiry s) k)"
  by (auto simp: due_def wf_maps_def wf_map_in_set dead_def split: option.splits)

lemma deleteExpired_strings:
  "wf_maps s \<Longrightarrow> map_of (strings (deleteExpired now s)) k =
     (case map_of (strings s) k of None \<Rightarrow> None
      | Some e \<Rightarrow> if expired now (expiresAt e) then None else Some e)"
  by (auto simp: deleteExpired_def Let_def fold_sweepString_strings wf_maps_def wf_map_in_set
      split: option.splits)

lemma deleteExpired_maps:
  assumes "wf_maps s"
  defines "gone \<equiv> \<lambda>k now. dead now (map_of (keyExpiry s) k)"
  shows "map_of (hashes (deleteExpired now s)) k = (if gone k now then None else map_of (hashes s) k)"
    and "map_of (lists (deleteExpired now s)) k = (if gone k now then None else map_of (lists s) k)"
    and "map_of (sets (deleteExpired now s)) k = (if gone k now then None else map_of (sets s) k)"
    and "map_of (zsets (deleteExpired now s)) k = (if gone k now then None else map_of (zsets s) k)"
    and "map_of (keyExpiry (deleteExpired now s)) k = (if gone k now then None else map_of (keyExpiry s) k)"
  using due_keyExpiry [OF assms(1)]
  by (simp_all add: deleteExpired_def Let_def fold_sweepKey_maps gone_def)

lemma container_deleteExpired:
  "wf_maps s \<Longrightarrow> container (deleteExpired now s) k =
     (if dead now (map_of (keyExpiry s) k) then None else container s k)"
  by (simp add: container_def deleteExpired_maps)

text \<open>The sweep turns the live view into the stored one.\<close>

lemma entry_deleteExpired:
  assumes "wf_store s"
  shows "entry (deleteExpired now s) = live now s"
proof
  fix k
  have maps: "wf_maps s" using assms by simp
  have "keyOk s k" using assms by (rule wf_store_key)
  then show "entry (deleteExpired now s) k = live now s k"
    by (cases rule: key_cases [where now = now])
      (auto simp: live_def entry_def deleteExpired_strings [OF maps] deleteExpired_maps(5) [OF maps]
        container_deleteExpired [OF maps] expired_dlOf)
qed

lemma wf_store_deleteExpired:
  assumes "wf_store s"
  shows "wf_store (deleteExpired now s)"
  unfolding wf_store_def
proof (intro conjI allI)
  have maps: "wf_maps s" using assms by simp
  then show "wf_maps (deleteExpired now s)" by (rule wf_maps_deleteExpired)
  fix k
  have "keyOk s k" using assms by (rule wf_store_key)
  then show "keyOk (deleteExpired now s) k"
    by (auto simp: keyOk_def key_ok_def deleteExpired_strings [OF maps] deleteExpired_maps [OF maps]
        split: option.splits)
qed

lemma live_later:
  assumes "now \<le> now'"
  shows "live now' s k = (case live now s k of None \<Rightarrow> None
    | Some (ob, dl) \<Rightarrow> if dead now' dl then None else Some (ob, dl))"
  using assms by (auto simp: live_def dead_def split: option.splits)

lemma live_deleteExpired:
  assumes "wf_store s" and "now \<le> now'"
  shows "live now' (deleteExpired now s) = live now' s"
  by (simp add: fun_eq_iff live_later [OF assms(2), of s] live_def [of now' "deleteExpired now s"]
      entry_deleteExpired [OF assms(1)])

lemma settled_deleteExpired: "wf_store s \<Longrightarrow> settled now (deleteExpired now s) k"
  by (simp add: settled_def entry_deleteExpired live_deleteExpired)

section \<open>The sweeper\<close>

lemma StartCleanup_append: "CtxDone \<notin> set events \<Longrightarrow> StartCleanup (events @ es) s = StartCleanup es (StartCleanup events s)"
  by (induction events s rule: StartCleanup.induct) simp_all

lemma StartCleanup_keeps:
  assumes "wf_store s" and "\<forall>now. Ticked now \<in> set events \<longrightarrow> now \<le> t"
  shows "wf_store (StartCleanup events s) \<and> live t (StartCleanup events s) = live t s"
  using assms
  by (induction events s rule: StartCleanup.induct) (auto simp: wf_store_deleteExpired live_deleteExpired)

text \<open>
  C20.  The sweeper deletes exactly the expired keys.  After its ticks up to a last one at time \<open>t\<close>, what the store
  holds is what was visible at \<open>t\<close>: no live key is lost, no expired key is left, and at \<open>t\<close> and at every
  later time every key reads as if the sweeper had never run.
\<close>

theorem sweeper_deletes_exactly_the_expired:
  assumes "wf_store s" and "CtxDone \<notin> set events" and "\<forall>now. Ticked now \<in> set events \<longrightarrow> now \<le> t"
  shows "wf_store (StartCleanup (events @ [Ticked t]) s) \<and> entry (StartCleanup (events @ [Ticked t]) s) = live t s \<and>
    (\<forall>now. t \<le> now \<longrightarrow> live now (StartCleanup (events @ [Ticked t]) s) = live now s)"
proof -
  have "wf_store (StartCleanup events s)" "live t (StartCleanup events s) = live t s"
    using StartCleanup_keeps [OF assms(1,3)] by blast+
  moreover have "live now (StartCleanup (events @ [Ticked t]) s) = live now s" if "t \<le> now" for now
    using StartCleanup_keeps [OF assms(1), of "events @ [Ticked t]" now] assms(3) that by fastforce
  ultimately show ?thesis
    by (simp add: StartCleanup_append [OF assms(2)] wf_store_deleteExpired entry_deleteExpired)
qed

definition sweptStore :: MemoryStore where
  "sweptStore = Set ''b'' ''2'' (SetWithTTL 1 ''a'' ''1'' 5 NewMemoryStore)"

theorem sweeper_deletes_exactly_the_expired_witness:
  "map (entry (StartCleanup [Ticked 3, Ticked 9] sweptStore)) [''a'', ''b''] = [None, Some (OStr ''2'', None)]"
proof -
  have wf: "wf_store sweptStore"
    by (simp add: sweptStore_def wf_store_New wf_store_Set wf_store_SetWithTTL)
  have "entry (StartCleanup ([Ticked 3] @ [Ticked 9]) sweptStore) = live 9 sweptStore"
    using sweeper_deletes_exactly_the_expired [OF wf, of "[Ticked 3]" 9] by simp
  moreover have "map (live 9 sweptStore) [''a'', ''b''] = [None, Some (OStr ''2'', None)]" by code_simp
  ultimately show ?thesis by simp
qed

section \<open>Rename\<close>

lemma Rename_missing: "wf_store s \<Longrightarrow> live now s src = None \<Longrightarrow> Rename now src dst s = Ret (s, False)"
  by (simp add: Rename_def live_None_typeOf wf_store_key)

text \<open>
  A rename of two different keys never panics, and moves value and deadline.
\<close>

definition moved :: "string \<Rightarrow> string \<Rightarrow> MemoryStore \<Rightarrow> MemoryStore \<Rightarrow> bool" where
  "moved src dst s t \<longleftrightarrow>
     map_of (strings t) = (map_of (strings s))(dst := map_of (strings s) src, src := None) \<and>
     map_of (hashes t) = (map_of (hashes s))(dst := map_of (hashes s) src, src := None) \<and>
     map_of (lists t) = (map_of (lists s))(dst := map_of (lists s) src, src := None) \<and>
     map_of (sets t) = (map_of (sets s))(dst := map_of (sets s) src, src := None) \<and>
     map_of (zsets t) = (map_of (zsets s))(dst := map_of (zsets s) src, src := None)"

lemma renameEntry_moved:
  assumes ok: "keyOk s src" and ne: "src \<noteq> dst" and ty: "typeOf now src s \<noteq> NoKey"
  obtains t where "renameEntry (typeOf now src s) src dst (deleteKey dst s) = Ret t"
    "moved src dst s t" "keyExpiry t = mdel dst (keyExpiry s)" "keyVersion t = keyVersion s"
    "wf_maps s \<Longrightarrow> wf_maps t"
proof -
  have "\<exists>t. renameEntry (typeOf now src s) src dst (deleteKey dst s) = Ret t \<and>
    moved src dst s t \<and> keyExpiry t = mdel dst (keyExpiry s) \<and> keyVersion t = keyVersion s \<and>
    (wf_maps s \<longrightarrow> wf_maps t)"
  proof (cases "typeOf now src s")
    case NoKey
    with ty show ?thesis by simp
  qed (use ok ne in \<open>simp_all add: typeOf_def renameEntry_def moved_def keyOk_def key_ok_def
        wf_maps_def Let_def fun_eq_iff split: if_splits option.splits\<close>)
  then show ?thesis using that by blast
qed

lemma Rename_moved:
  assumes wf: "wf_store s" and ne: "src \<noteq> dst" and lv: "live now s src \<noteq> None"
  obtains t where "Rename now src dst s = Ret (t, True)" "moved src dst s t" "wf_maps t"
    "map_of (keyExpiry t) = (map_of (keyExpiry s))(dst := map_of (keyExpiry s) src, src := None)"
    "\<And>k. Version k t = Version k s + (if k = src \<or> k = dst then 1 else 0)"
proof -
  have ty: "typeOf now src s \<noteq> NoKey" using wf lv by (simp add: live_None_typeOf wf_store_key)
  obtain t where t: "renameEntry (typeOf now src s) src dst (deleteKey dst s) = Ret t"
    "moved src dst s t" "keyExpiry t = mdel dst (keyExpiry s)" "keyVersion t = keyVersion s" "wf_maps t"
    using renameEntry_moved [OF wf_store_key [OF wf] ne ty] wf by (metis wf_store_maps)
  let ?u = "case map_of (keyExpiry t) src of
      Some ex \<Rightarrow> t\<lparr>keyExpiry := mdel src (mput dst ex (keyExpiry t))\<rparr>
    | None \<Rightarrow> t\<lparr>keyExpiry := mdel dst (keyExpiry t)\<rparr>"
  show ?thesis
  proof (rule that [of "bumpVersion src (bumpVersion dst ?u)"])
    show "Rename now src dst s = Ret (bumpVersion src (bumpVersion dst ?u), True)"
      using ty t(1) by (simp add: Rename_def Let_def)
    show "moved src dst s (bumpVersion src (bumpVersion dst ?u))"
      using t(2) by (simp add: moved_def split: option.split)
    show "wf_maps (bumpVersion src (bumpVersion dst ?u))"
      using t(5) by (simp add: wf_maps_def split: option.split)
    show "map_of (keyExpiry (bumpVersion src (bumpVersion dst ?u))) =
        (map_of (keyExpiry s))(dst := map_of (keyExpiry s) src, src := None)"
      using t(3) ne by (auto simp: fun_eq_iff split: option.split)
    show "Version k (bumpVersion src (bumpVersion dst ?u)) = Version k s + (if k = src \<or> k = dst then 1 else 0)" for k
      using t(4) ne by (auto simp: Version_bumpVersion split: option.split intro: Version_cong)
  qed
qed

lemma moved_entry:
  assumes "moved src dst s t"
    and "map_of (keyExpiry t) = (map_of (keyExpiry s))(dst := map_of (keyExpiry s) src, src := None)"
  shows "entry t = (entry s)(dst := entry s src, src := None)"
    and "keyOk s src \<Longrightarrow> keyOk t dst" and "keyOk t src"
    and "k \<noteq> src \<Longrightarrow> k \<noteq> dst \<Longrightarrow> same_at k t s"
  using assms
  by (auto simp: fun_eq_iff moved_def entry_def container_def keyOk_def key_ok_def same_at_def)

lemma Rename_entry:
  assumes wf: "wf_store s" and ne: "src \<noteq> dst" and lv: "live now s src = Some (ob, dl)"
  obtains t where "Rename now src dst s = Ret (t, True)" "wf_store t"
    "entry t = (entry s)(dst \<mapsto> (ob, dl), src := None)"
    "\<And>k. Version k t = Version k s + (if k = src \<or> k = dst then 1 else 0)"
proof -
  have some: "live now s src \<noteq> None" using lv by simp
  obtain t where t: "Rename now src dst s = Ret (t, True)" "moved src dst s t" "wf_maps t"
    "map_of (keyExpiry t) = (map_of (keyExpiry s))(dst := map_of (keyExpiry s) src, src := None)"
    "\<And>k. Version k t = Version k s + (if k = src \<or> k = dst then 1 else 0)"
    using Rename_moved [OF wf ne some] by blast
  have "entry s src = Some (ob, dl)" using lv by (auto simp: live_def split: option.splits if_splits)
  then have ent: "entry t = (entry s)(dst \<mapsto> (ob, dl), src := None)"
    using moved_entry(1) [OF t(2,4)] by simp
  have "wf_store t"
    using wf t(3) moved_entry(2-4) [OF t(2,4)] wf_store_key [OF wf]
    by (auto intro: wf_store_update [where s = s and K = "{src, dst}"])
  then show ?thesis using that t(1,5) ent by blast
qed

section \<open>Writing one container\<close>

text \<open>
  The two ways in which the hash, list, set and sorted-set operations write a key: they store a new
  value in the map of its type, or drop the key from that map and from the expiry map.
\<close>

fun putObj :: "string \<Rightarrow> obj \<Rightarrow> MemoryStore \<Rightarrow> MemoryStore" where
  "putObj k (OStr _) s = s"
| "putObj k (OHash h) s = s\<lparr>hashes := mput k h (hashes s)\<rparr>"
| "putObj k (OList l) s = s\<lparr>lists := mput k l (lists s)\<rparr>"
| "putObj k (OSet st) s = s\<lparr>sets := mput k st (sets s)\<rparr>"
| "putObj k (OZSet z) s = s\<lparr>zsets := mput k z (zsets s)\<rparr>"

fun delObj :: "tag \<Rightarrow> string \<Rightarrow> MemoryStore \<Rightarrow> MemoryStore" where
  "delObj THash k s = s\<lparr>hashes := mdel k (hashes s), keyExpiry := mdel k (keyExpiry s)\<rparr>"
| "delObj TList k s = s\<lparr>lists := mdel k (lists s), keyExpiry := mdel k (keyExpiry s)\<rparr>"
| "delObj TSet k s = s\<lparr>sets := mdel k (sets s), keyExpiry := mdel k (keyExpiry s)\<rparr>"
| "delObj TZSet k s = s\<lparr>zsets := mdel k (zsets s), keyExpiry := mdel k (keyExpiry s)\<rparr>"
| "delObj _ k s = s"

fun obj_ok :: "obj \<Rightarrow> bool" where
  "obj_ok (OStr _) = False"
| "obj_ok (OHash h) = (wf_map h \<and> h \<noteq> [])"
| "obj_ok (OList l) = (l \<noteq> [])"
| "obj_ok (OSet st) = (wf_map st \<and> st \<noteq> [])"
| "obj_ok (OZSet z) = wf_map (scores z)"

definition fits :: "MemoryStore \<Rightarrow> string \<Rightarrow> tag \<Rightarrow> bool" where
  "fits s k t \<longleftrightarrow> (case entry s k of None \<Rightarrow> True | Some (ob, _) \<Rightarrow> tagOf ob = t)"

definition deadline :: "MemoryStore \<Rightarrow> string \<Rightarrow> gotime option" where
  "deadline s k = (case entry s k of None \<Rightarrow> None | Some (_, dl) \<Rightarrow> dl)"

lemma same_at_putObj [simp]: "k \<noteq> key \<Longrightarrow> same_at k (putObj key ob s) t \<longleftrightarrow> same_at k s t"
  by (cases ob) (simp_all add: same_at_def)

lemma same_at_delObj [simp]: "k \<noteq> key \<Longrightarrow> same_at k (delObj ty key s) t \<longleftrightarrow> same_at k s t"
  by (cases ty) (simp_all add: same_at_def)

lemma Version_putObj [simp]: "Version k (putObj key ob s) = Version k s"
  by (cases ob) (simp_all add: Version_def)

lemma Version_delObj [simp]: "Version k (delObj ty key s) = Version k s"
  by (cases ty) (simp_all add: Version_def)

lemma fits_maps:
  assumes "keyOk s k" and "fits s k t"
  shows "t \<noteq> TString \<Longrightarrow> map_of (strings s) k = None"
    and "t \<noteq> THash \<Longrightarrow> map_of (hashes s) k = None" and "t \<noteq> TList \<Longrightarrow> map_of (lists s) k = None"
    and "t \<noteq> TSet \<Longrightarrow> map_of (sets s) k = None" and "t \<noteq> TZSet \<Longrightarrow> map_of (zsets s) k = None"
  using assms
  by (auto simp: fits_def keyOk_def key_ok_def entry_def container_def entry_of_def container_of_def
      split: option.splits)

lemma wf_store_putObj:
  assumes wf: "wf_store s" and fit: "fits s key (tagOf ob)" and ok: "obj_ok ob"
  shows "wf_store (putObj key ob s)"
proof (rule wf_store_update [where s = s and K = "{key}"])
  note m = fits_maps [OF wf_store_key [OF wf, of key] fit]
  show "wf_maps (putObj key ob s)"
    using wf by (cases ob) (simp_all add: wf_store_def wf_maps_def)
  show "keyOk (putObj key ob s) k" if "k \<in> {key}" for k
    using that m ok wf_store_key [OF wf, of key]
    by (cases ob) (simp_all add: keyOk_def key_ok_def)
qed (simp_all add: wf)

lemma deadline_container:
  "keyOk s k \<Longrightarrow> map_of (strings s) k = None \<Longrightarrow> deadline s k = map_of (keyExpiry s) k"
  by (cases "map_of (keyExpiry s) k")
    (auto simp: deadline_def entry_def entry_of_def keyOk_def key_ok_def container_def
      container_of_def split: option.splits)

lemma entry_putObj:
  assumes wf: "wf_store s" and fit: "fits s key (tagOf ob)" and ok: "obj_ok ob"
  shows "entry (putObj key ob s) = (entry s)(key \<mapsto> (ob, deadline s key))"
proof -
  note m = fits_maps [OF wf_store_key [OF wf, of key] fit]
  have ns: "tagOf ob \<noteq> TString" using ok by (cases ob) simp_all
  note dl = deadline_container [OF wf_store_key [OF wf, of key] m(1) [OF ns]]
  show ?thesis
    using m dl ns by (cases ob) (auto simp: fun_eq_iff entry_def container_def)
qed

lemma wf_store_delObj:
  assumes wf: "wf_store s" and fit: "fits s key t" and ns: "isContainer t"
  shows "wf_store (delObj t key s)"
proof (rule wf_store_update [where s = s and K = "{key}"])
  note m = fits_maps [OF wf_store_key [OF wf, of key] fit]
  show "wf_maps (delObj t key s)"
    using wf by (cases t) (simp_all add: wf_store_def wf_maps_def)
  show "keyOk (delObj t key s) k" if "k \<in> {key}" for k
    using that m ns by (cases t) (simp_all add: keyOk_def key_ok_def)
qed (simp_all add: wf)

lemma entry_delObj:
  assumes wf: "wf_store s" and fit: "fits s key t" and ns: "isContainer t"
  shows "entry (delObj t key s) = (entry s)(key := None)"
proof -
  note m = fits_maps [OF wf_store_key [OF wf, of key] fit]
  show ?thesis
    using m ns by (cases t) (auto simp: fun_eq_iff entry_def container_def)
qed

text \<open>What a type check on a settled key gives its caller.\<close>

lemma settled_entry: "settled now s k \<Longrightarrow> entry s k = live now s k"
  by (simp add: settled_def)

lemma settled_fits:
  assumes "wf_store s" and "settled now s k"
  shows "fits s k t \<longleftrightarrow> typeOf now k s = NoKey \<or> typeOf now k s = t"
  using assms
  by (auto simp: fits_def settled_entry typeOf_live wf_store_key split: option.splits)

lemma typeOf_fits: "wf_store s \<Longrightarrow> typeOf now k s = t \<Longrightarrow> t \<noteq> NoKey \<Longrightarrow> fits s k t"
  by (auto simp: fits_def typeOf_entry wf_store_key split: option.splits if_splits)

section \<open>Versions record changes\<close>

text \<open>
  A step from \<open>s\<close> to \<open>t\<close> is versioned when every key it changes has its counter moved forward,
  by one or two: then a counter that reads the same after fewer than \<open>2 ^ 63\<close> such steps belongs to a
  key that did not change.
\<close>

definition versioned :: "MemoryStore \<Rightarrow> MemoryStore \<Rightarrow> bool" where
  "versioned t s \<longleftrightarrow> (\<forall>k. \<exists>n. n \<le> 2 \<and> Version k t = Version k s + of_nat n \<and> (n = 0 \<longrightarrow> same_at k t s))"

lemma versioned_refl [simp]: "versioned s s"
  by (auto simp: versioned_def intro: exI [of _ 0])

lemma versioned_write:
  assumes "\<And>k. k \<noteq> key \<Longrightarrow> same_at k t s" and "\<And>k. Version k t = Version k s"
  shows "versioned (bumpVersion key t) s"
  unfolding versioned_def
proof
  fix k
  show "\<exists>n. n \<le> 2 \<and> Version k (bumpVersion key t) = Version k s + of_nat n \<and> (n = 0 \<longrightarrow> same_at k (bumpVersion key t) s)"
    using assms by (intro exI [of _ "if k = key then 1 else 0"]) (simp add: Version_bumpVersion)
qed

lemma versioned_write2:
  assumes "\<And>k. k \<noteq> key \<Longrightarrow> k \<noteq> key' \<Longrightarrow> same_at k t s" and "\<And>k. Version k t = Version k s"
  shows "versioned (bumpVersion key (bumpVersion key' t)) s"
  unfolding versioned_def
proof
  fix k
  let ?u = "bumpVersion key (bumpVersion key' t)"
  show "\<exists>n. n \<le> 2 \<and> Version k ?u = Version k s + of_nat n \<and> (n = 0 \<longrightarrow> same_at k ?u s)"
    using assms
    by (intro exI [of _ "(if k = key then 1 else 0) + (if k = key' then 1 else 0)"])
      (simp add: Version_bumpVersion)
qed

lemma versioned_Set: "versioned (Set key v s) s"
  unfolding Set_def Let_def by (rule versioned_write) (simp_all add: same_at_def Version_def)

lemma versioned_SetWithTTL: "versioned (SetWithTTL now key v ttl s) s"
  unfolding SetWithTTL_def Let_def by (rule versioned_write) (simp_all add: same_at_def Version_def)

lemma versioned_SetAdv: "versioned (fst (SetAdv now key v ttl opts s)) s"
  by (simp add: SetAdv_state Let_def versioned_write same_at_def Version_def)

text \<open>One deletion per key; a key given twice is deleted once.\<close>

lemma Del_versions:
  "\<exists>n. n \<le> 1 \<and> Version k (fst (Del now ks s)) = Version k s + of_nat n \<and>
     (n = 0 \<longrightarrow> same_at k (fst (Del now ks s)) s) \<and> (n = 1 \<longrightarrow> typeOf now k s \<noteq> NoKey)"
proof (induction ks arbitrary: s)
  case Nil
  show ?case by (intro exI [of _ 0]) simp
next
  case (Cons a ks)
  let ?t = "bumpVersion a (deleteKey a s)"
  show ?case
  proof (cases "typeOf now a s = NoKey")
    case True
    then show ?thesis using Cons.IH [of s] by simp
  next
    case False
    obtain n where n: "n \<le> 1" "Version k (fst (Del now ks ?t)) = Version k ?t + of_nat n"
      "n = 0 \<longrightarrow> same_at k (fst (Del now ks ?t)) ?t" "n = 1 \<longrightarrow> typeOf now k ?t \<noteq> NoKey"
      using Cons.IH [of ?t] by blast
    have eq: "fst (Del now (a # ks) s) = fst (Del now ks ?t)"
      using False by (simp add: Let_def case_prod_beta)
    show ?thesis
    proof (cases "k = a")
      case True
      have "typeOf now a ?t = NoKey" by (simp add: typeOf_def)
      with n True have "n = 0" by (simp add: le_Suc_eq)
      with n True False show ?thesis unfolding eq
        by (intro exI [of _ 1]) (simp add: Version_bumpVersion)
    next
      case neq: False
      then have same: "same_at k ?t s" "typeOf now k ?t = typeOf now k s" "Version k ?t = Version k s"
        by (simp_all add: Version_bumpVersion same_at_typeOf [of k "deleteKey a s" s])
      show ?thesis unfolding eq
        using n same_at_trans [OF _ same(1)] unfolding same(2,3) by (intro exI [of _ n]) blast
    qed
  qed
qed

lemma versioned_Del: "versioned (fst (Del now ks s)) s"
  unfolding versioned_def using Del_versions [of _ now ks s] by (meson le_trans one_le_numeral)

end
