(* ===== verification/StoreHash.thy ===== *)
theory StoreHash
  imports Keyspace
begin

text \<open>
  The hash operations of \<^verbatim>\<open>internal/storage/memory.go\<close> (\<^verbatim>\<open>HSet\<close> to \<^verbatim>\<open>HVals\<close>), with their
  refinement to updates of one finite map and the conditions under which they keep the store's
  invariant.
\<close>

section \<open>Operations\<close>

text \<open>The common guard of the readers: \<^verbatim>\<open>h, ok := s.hashes[key]; if !ok || s.keyExpiredNonStr(key)\<close>.\<close>

definition hashOf :: "gotime \<Rightarrow> string \<Rightarrow> MemoryStore \<Rightarrow> (string, string) gomap option" where
  "hashOf now key s =
     (case map_of (hashes s) key of
        None \<Rightarrow> None
      | Some h \<Rightarrow> if keyExpiredNonStr now key s then None else Some h)"

definition setField :: "string \<times> string \<Rightarrow> (string, string) gomap \<times> int \<Rightarrow> (string, string) gomap \<times> int" where
  "setField = (\<lambda>(f, v) (h, added). (mput f v h, if map_of h f = None then added + 1 else added))"

definition HSet :: "string \<Rightarrow> (string, string) gomap \<Rightarrow> MemoryStore \<Rightarrow> MemoryStore \<times> int" where
  "HSet key flds s =
     (let s = s\<lparr>strings := mdel key (strings s)\<rparr>;
          h = (case map_of (hashes s) key of None \<Rightarrow> [] | Some h \<Rightarrow> h);
          (h, added) = fold setField flds (h, 0);
          s = s\<lparr>hashes := mput key h (hashes s)\<rparr>
      in (bumpVersion key s, added))"

definition HGet :: "gotime \<Rightarrow> string \<Rightarrow> string \<Rightarrow> MemoryStore \<Rightarrow> string option" where
  "HGet now key field s = (case hashOf now key s of None \<Rightarrow> None | Some h \<Rightarrow> map_of h field)"

definition HDel :: "gotime \<Rightarrow> string \<Rightarrow> string list \<Rightarrow> MemoryStore \<Rightarrow> MemoryStore \<times> int" where
  "HDel now key flds s =
     (case hashOf now key s of
        None \<Rightarrow> (s, 0)
      | Some h \<Rightarrow>
          let (h, n) = removeKeys flds h
          in if h = []
             then (s\<lparr>hashes := mdel key (hashes s), keyExpiry := mdel key (keyExpiry s),
                     keyVersion := mdel key (keyVersion s)\<rparr>, n)
             else (bumpVersion key (s\<lparr>hashes := mput key h (hashes s)\<rparr>), n))"

definition HGetAll :: "gotime \<Rightarrow> string \<Rightarrow> MemoryStore \<Rightarrow> (string, string) gomap" where
  "HGetAll now key s = (case hashOf now key s of None \<Rightarrow> [] | Some h \<Rightarrow> h)"

definition HLen :: "gotime \<Rightarrow> string \<Rightarrow> MemoryStore \<Rightarrow> int" where
  "HLen now key s = (case hashOf now key s of None \<Rightarrow> 0 | Some h \<Rightarrow> int (length h))"

definition HExists :: "gotime \<Rightarrow> string \<Rightarrow> string \<Rightarrow> MemoryStore \<Rightarrow> bool" where
  "HExists now key field s = (case hashOf now key s of None \<Rightarrow> False | Some h \<Rightarrow> map_of h field \<noteq> None)"

definition HKeys :: "gotime \<Rightarrow> string \<Rightarrow> MemoryStore \<Rightarrow> string list" where
  "HKeys now key s = (case hashOf now key s of None \<Rightarrow> [] | Some h \<Rightarrow> map fst h)"

definition HVals :: "gotime \<Rightarrow> string \<Rightarrow> MemoryStore \<Rightarrow> string list" where
  "HVals now key s = (case hashOf now key s of None \<Rightarrow> [] | Some h \<Rightarrow> map snd h)"

section \<open>The field loop\<close>

lemma fold_setField_map: "map_of (fst (fold setField fs (h, n))) = map_of h ++ map_of (rev fs)"
proof (induction fs arbitrary: h n)
  case (Cons p fs)
  obtain f v where p: "p = (f, v)" by (cases p)
  obtain n' where "setField p (h, n) = (mput f v h, n')" by (simp add: setField_def p)
  then show ?case using Cons.IH [of "mput f v h" n'] by (simp add: p fun_eq_iff map_add_def split: option.split)
qed simp

lemma fold_setField_wf: "wf_map h \<Longrightarrow> wf_map (fst (fold setField fs (h, n)))"
  by (induction fs arbitrary: h n) (simp_all add: setField_def case_prod_beta)

lemma fold_setField_length:
  "int (length (fst (fold setField fs (h, n)))) - snd (fold setField fs (h, n)) = int (length h) - n"
proof (induction fs arbitrary: h n)
  case (Cons p fs)
  obtain f v where p: "p = (f, v)" by (cases p)
  obtain h' n' where st: "setField p (h, n) = (h', n')" by (cases "setField p (h, n)")
  have "int (length h') - n' = int (length h) - n"
    using st length_mput_None [of h f v] length_mput_Some [of h f _ v]
    by (cases "map_of h f") (auto simp: setField_def p)
  then show ?case using Cons.IH [of h' n'] by (simp add: st)
qed simp

lemma fold_setField_ne: "fs \<noteq> [] \<or> h \<noteq> [] \<Longrightarrow> fst (fold setField fs (h, n)) \<noteq> []"
  by (induction fs arbitrary: h n) (auto simp: setField_def case_prod_beta)

lemma map_of_rev_wf: "wf_map m \<Longrightarrow> map_of (rev m) = map_of m"
  by (rule map_of_inject_set [THEN iffD2]) (simp_all add: wf_map_def rev_map [symmetric])

section \<open>Reading\<close>

lemma hashOf_live:
  assumes "keyOk s k"
  shows "hashOf now k s = (case live now s k of Some (OHash h, _) \<Rightarrow> Some h | _ \<Rightarrow> None)"
  using assms keyExpired_dead [OF assms, of now]
  by (auto simp: hashOf_def live_def entry_def container_def entry_of_def container_of_def
      keyOk_def key_ok_def split: option.splits)

section \<open>Writing\<close>

text \<open>\<^verbatim>\<open>HSet\<close> as a write of one container, after the string of that name is dropped.\<close>

lemma HSet_putObj:
  "fst (HSet key flds s) = bumpVersion key
     (putObj key (OHash (fst (fold setField flds (case map_of (hashes s) key of None \<Rightarrow> [] | Some h \<Rightarrow> h, 0))))
       (s\<lparr>strings := mdel key (strings s)\<rparr>))"
  by (simp add: HSet_def Let_def case_prod_beta)

lemma same_at_HSet: "k \<noteq> key \<Longrightarrow> same_at k (fst (HSet key flds s)) s"
  by (simp add: HSet_putObj same_at_def)

lemma HDel_eq:
  "hashOf now key s = Some h \<Longrightarrow> HDel now key flds s =
     (let h' = fst (removeKeys flds h)
      in (if h' = [] then (delObj THash key s)\<lparr>keyVersion := mdel key (keyVersion s)\<rparr>
          else bumpVersion key (putObj key (OHash h') s)), snd (removeKeys flds h))"
  by (simp add: HDel_def Let_def case_prod_beta)

text \<open>The fields a key holds before the write: those of its hash, none for a string or a missing key.\<close>

definition fieldsAt :: "MemoryStore \<Rightarrow> string \<Rightarrow> string \<rightharpoonup> string" where
  "fieldsAt s key = (case map_of (hashes s) key of None \<Rightarrow> Map.empty | Some h \<Rightarrow> map_of h)"

lemma fieldsAt_entry:
  "wf_store s \<Longrightarrow> fieldsAt s k = (case entry s k of Some (OHash h, _) \<Rightarrow> map_of h | _ \<Rightarrow> Map.empty)"
  using wf_store_key [of s k]
  by (auto simp: fieldsAt_def entry_def container_def entry_of_def container_of_def
      keyOk_def key_ok_def split: option.splits)

lemma wf_hash: "wf_store s \<Longrightarrow> map_of (hashes s) k = Some h \<Longrightarrow> wf_map h \<and> h \<noteq> []"
  using wf_store_key [of s k] by (simp add: keyOk_def key_ok_def)

lemma HSet_count:
  assumes "wf_store s" and "wf_map flds"
  shows "snd (HSet key flds s) = int (card (dom (map_of flds) - dom (fieldsAt s key)))"
proof -
  define h where "h = (case map_of (hashes s) key of None \<Rightarrow> [] | Some h \<Rightarrow> h)"
  define h' where "h' = fst (fold setField flds (h, 0))"
  have wf: "wf_map h" "wf_map h'" "map_of h = fieldsAt s key"
    using wf_hash [OF assms(1), of key]
    by (auto simp: h_def h'_def fieldsAt_def fold_setField_wf split: option.splits)
  have dom: "dom (map_of h') = dom (map_of h) \<union> dom (map_of flds)"
    by (auto simp: h'_def fold_setField_map map_of_rev_wf [OF assms(2)])
  have "snd (HSet key flds s) = int (length h') - int (length h)"
    using fold_setField_length [of flds h 0]
    by (simp add: HSet_def Let_def case_prod_beta h_def h'_def)
  also have "\<dots> = int (card (dom (map_of h) \<union> dom (map_of flds))) - int (card (dom (map_of h)))"
    by (simp only: wf_map_card [OF wf(1)] wf_map_card [OF wf(2)] dom)
  also have "\<dots> = int (card (dom (map_of flds) - dom (map_of h)))"
    using card_Un_disjoint [of "dom (map_of h)" "dom (map_of flds) - dom (map_of h)"]
    by (simp add: finite_dom_map_of)
  finally show ?thesis using wf(3) by simp
qed

lemma wf_store_delString: "wf_store s \<Longrightarrow> wf_store (s\<lparr>strings := mdel key (strings s)\<rparr>)"
proof (rule wf_store_update [where s = s and K = "{key}"])
  let ?t = "s\<lparr>strings := mdel key (strings s)\<rparr>"
  assume wf: "wf_store s"
  show "wf_maps ?t" using wf by (simp add: wf_store_def wf_maps_def)
  show "same_at k ?t s" if "k \<notin> {key}" for k using that by (simp add: same_at_def)
  show "keyOk ?t k" if "k \<in> {key}" for k
    using that wf_store_key [OF wf, of key] by (simp add: keyOk_def key_ok_def)
qed

lemma entry_delString:
  "wf_store s \<Longrightarrow> entry (s\<lparr>strings := mdel key (strings s)\<rparr>) =
     (if fits s key TString then (entry s)(key := None) else entry s)"
  using wf_store_key [of s key]
  by (auto simp: fun_eq_iff entry_def container_def entry_of_def container_of_def fits_def
      keyOk_def key_ok_def split: option.splits)

lemma HSet_entry:
  assumes wf: "wf_store s" and fit: "fits s key THash \<or> fits s key TString"
    and fl: "wf_map flds" "flds \<noteq> []"
  obtains h where "wf_store (fst (HSet key flds s))" "map_of h = fieldsAt s key ++ map_of flds"
    "entry (fst (HSet key flds s)) =
       (entry s)(key \<mapsto> (OHash h, if fits s key THash then deadline s key else None))"
proof -
  let ?t = "s\<lparr>strings := mdel key (strings s)\<rparr>"
  define h0 where "h0 = (case map_of (hashes s) key of None \<Rightarrow> [] | Some h \<Rightarrow> h)"
  define h where "h = fst (fold setField flds (h0, 0))"
  have t: "wf_store ?t" using wf by (rule wf_store_delString)
  note ent = entry_delString [OF wf, of key]
  have fit': "fits ?t key (tagOf (OHash h))"
    using fit ent by (auto simp: fits_def)
  have "wf_map h0" using wf_hash [OF wf, of key] by (auto simp: h0_def split: option.splits)
  then have ok: "obj_ok (OHash h)"
    using fl by (simp add: h_def fold_setField_wf fold_setField_ne)
  have eq: "fst (HSet key flds s) = bumpVersion key (putObj key (OHash h) ?t)"
    by (simp only: HSet_putObj h_def h0_def)
  have dl: "deadline ?t key = (if fits s key THash then deadline s key else None)"
    using fit ent by (auto simp: deadline_def fits_def split: option.splits)
  have "map_of h = fieldsAt s key ++ map_of flds"
    by (simp add: h_def fold_setField_map map_of_rev_wf [OF fl(1)] h0_def fieldsAt_def split: option.split)
  moreover have "entry (fst (HSet key flds s)) =
       (entry s)(key \<mapsto> (OHash h, if fits s key THash then deadline s key else None))"
    unfolding eq entry_bumpVersion entry_putObj [OF t fit' ok] dl ent by simp
  moreover have "wf_store (fst (HSet key flds s))"
    unfolding eq using wf_store_putObj [OF t fit' ok] by simp
  ultimately show ?thesis using that by blast
qed

lemma hashOf_fits: "wf_store s \<Longrightarrow> hashOf now key s = Some h \<Longrightarrow> fits s key THash"
  by (auto simp: hashOf_live wf_store_key fits_def live_def split: option.splits if_splits obj.splits)

lemma hashOf_stored: "hashOf now key s = Some h \<Longrightarrow> map_of (hashes s) key = Some h"
  by (auto simp: hashOf_def split: option.splits if_splits)

lemma entry_keyVersion [simp]: "entry (s\<lparr>keyVersion := m\<rparr>) = entry s"
  by (simp add: fun_eq_iff entry_def container_def)

lemma wf_store_keyVersion: "wf_store s \<Longrightarrow> wf_map m \<Longrightarrow> wf_store (s\<lparr>keyVersion := m\<rparr>)"
  by (simp add: wf_store_def wf_maps_def keyOk_def)

lemma HDel_entry:
  fixes flds :: "string list"
  assumes wf: "wf_store s" and h: "hashOf now key s = Some h"
  defines "h' \<equiv> fst (removeKeys flds h)"
  shows "wf_store (fst (HDel now key flds s))"
    and "entry (fst (HDel now key flds s)) =
      (entry s)(key := if h' = [] then None else Some (OHash h', deadline s key))"
    and "snd (HDel now key flds s) = int (card (set flds \<inter> dom (map_of h)))"
proof -
  have fit: "fits s key THash" using wf h by (rule hashOf_fits)
  have wfh: "wf_map h" using wf_hash [OF wf] hashOf_stored [OF h] by simp
  then have ok: "h' \<noteq> [] \<Longrightarrow> obj_ok (OHash h')" by (simp add: h'_def)
  have kv: "wf_map (keyVersion s)" using wf by (simp add: wf_store_def wf_maps_def)
  show "wf_store (fst (HDel now key flds s))"
    using wf_store_delObj [OF wf fit] wf_store_putObj [OF wf, of key "OHash h'"] fit ok kv
    by (simp add: HDel_eq [OF h] Let_def h'_def wf_store_keyVersion)
  show "entry (fst (HDel now key flds s)) =
      (entry s)(key := if h' = [] then None else Some (OHash h', deadline s key))"
    using entry_delObj [OF wf fit] entry_putObj [OF wf, of key "OHash h'"] fit ok
    by (simp add: HDel_eq [OF h] Let_def h'_def)
  have "dom (map_of h') = dom (map_of h) - set flds"
    by (auto simp: h'_def map_of_removeKeys split: if_splits)
  moreover have "snd (HDel now key flds s) = int (length h) - int (length h')"
    using h removeKeys_count [OF wfh, of flds] by (simp add: HDel_def h'_def Let_def case_prod_beta)
  moreover have "wf_map h'" using wfh by (simp add: h'_def)
  moreover have "card (dom (map_of h)) = card (dom (map_of h) - set flds) + card (set flds \<inter> dom (map_of h))"
    using card_Int_Diff [of "dom (map_of h)" "set flds"] by (simp add: finite_dom_map_of Int_commute)
  ultimately show "snd (HDel now key flds s) = int (card (set flds \<inter> dom (map_of h)))"
    using wf_map_card [OF wfh] wf_map_card [of h'] by simp
qed

lemma HDel_missing: "hashOf now key s = None \<Longrightarrow> HDel now key flds s = (s, 0)"
  by (simp add: HDel_def)

lemma wf_store_HDel: "wf_store s \<Longrightarrow> wf_store (fst (HDel now key flds s))"
  by (cases "hashOf now key s") (simp_all add: HDel_missing HDel_entry(1))

lemma same_at_HDel: "k \<noteq> key \<Longrightarrow> same_at k (fst (HDel now key flds s)) s"
  by (simp add: HDel_def Let_def case_prod_beta same_at_def split: option.split)

end
