(* ===== verification/FloatText.thy ===== *)
theory FloatText
  imports Float64
begin

text \<open>
  The text form of \<^verbatim>\<open>float64\<close>: \<^verbatim>\<open>strconv.ParseFloat(s, 64)\<close> and
  \<^verbatim>\<open>strconv.FormatFloat(f, fmt, -1, 64)\<close> for the formats \<^verbatim>\<open>'f'\<close> and \<^verbatim>\<open>'g'\<close>.

  Both follow the documented behaviour of the library: parsing rounds the exact value to nearest,
  printing gives the shortest digit string that parses back to the same number, the one closest to
  it when there are several.
\<close>

section \<open>Printing\<close>

definition pow10 :: "int \<Rightarrow> rat" where
  "pow10 e = (if 0 \<le> e then 10 ^ nat e else 1 / 10 ^ nat (- e))"

definition ndigits :: "int \<Rightarrow> int" where
  "ndigits n = int (length (fmt_nat (nat n)))"

text \<open>The decimal point position: \<open>10 ^ (dp - 1) \<le> r < 10 ^ dp\<close> for a positive \<open>r\<close>.\<close>

definition decimalPoint :: "rat \<Rightarrow> int" where
  "decimalPoint r =
     (let (p, q) = quotient_of r; d = ndigits p - ndigits q
      in if r < pow10 d then d else d + 1)"

text \<open>The best digit string of \<open>nd\<close> digits, as an integer, if one of its length reads back as \<open>r\<close>.\<close>

definition tryDigits :: "rat \<Rightarrow> int \<Rightarrow> int \<Rightarrow> int option" where
  "tryDigits r dp nd =
     (let u = pow10 (dp - nd); lo = \<lfloor>r / u\<rfloor>; hi = lo + 1;
          okdown = (fround (of_int lo * u) = Fin r);
          okup = (fround (of_int hi * u) = Fin r);
          below = r - of_int lo * u; above = of_int hi * u - r
      in if okdown \<and> okup then
           (if below < above then Some lo else if above < below then Some hi
            else if even lo then Some lo else Some hi)
         else if okdown then Some lo
         else if okup then Some hi
         else None)"

text \<open>Seventeen digits are enough for every binary64 number.\<close>

fun shortestFrom :: "nat \<Rightarrow> rat \<Rightarrow> int \<Rightarrow> int \<Rightarrow> int \<times> int" where
  "shortestFrom 0 r dp nd = (\<lfloor>r / pow10 (dp - nd)\<rfloor>, nd)"
| "shortestFrom (Suc f) r dp nd =
     (case tryDigits r dp nd of Some d \<Rightarrow> (d, nd) | None \<Rightarrow> shortestFrom f r dp (nd + 1))"

text \<open>The digits without trailing zeros, and the position of the decimal point.\<close>

definition shortestDigits :: "rat \<Rightarrow> string \<times> int" where
  "shortestDigits r =
     (if r = 0 then ([], 0)
      else
        let dp = decimalPoint r; (d, nd) = shortestFrom 17 r dp 1;
            ds = fmt_nat (nat d)
        in (trimRight ''0'' ds, dp + int (length ds) - nd))"

definition digitAt :: "string \<Rightarrow> int \<Rightarrow> char" where
  "digitAt ds j = (if 0 \<le> j \<and> j < int (length ds) then ds ! nat j else CHR ''0'')"

definition fmtF :: "bool \<Rightarrow> string \<Rightarrow> int \<Rightarrow> string" where
  "fmtF neg ds dp =
     (let prec = max (int (length ds) - dp) 0
      in (if neg then ''-'' else []) @
         (if 0 < dp then map (\<lambda>j. digitAt ds (int j)) [0..<nat dp] else ''0'') @
         (if 0 < prec then ''.'' @ map (\<lambda>i. digitAt ds (dp + int i)) [0..<nat prec] else []))"

definition fmtE :: "bool \<Rightarrow> string \<Rightarrow> int \<Rightarrow> string" where
  "fmtE neg ds dp =
     (let ex = dp - 1; n = fmt_nat (nat \<bar>ex\<bar>)
      in (if neg then ''-'' else []) @ [digitAt ds 0] @
         (if 1 < length ds then ''.'' @ tl ds else []) @ ''e'' @
         (if ex < 0 then ''-'' else ''+'') @ (if length n < 2 then ''0'' @ n else n))"

definition FormatFloat :: "bool \<Rightarrow> float64 \<Rightarrow> string" where
  "FormatFloat g f =
     (case f of
        NaN \<Rightarrow> ''NaN''
      | PInf \<Rightarrow> ''+Inf''
      | NInf \<Rightarrow> ''-Inf''
      | _ \<Rightarrow>
          let neg = fneg_sign f; (ds, dp) = shortestDigits \<bar>fval f\<bar>; ex = dp - 1
          in if g \<and> (ex < -4 \<or> 6 \<le> ex) then fmtE neg ds dp else fmtF neg ds dp)"

definition FormatFloatF :: "float64 \<Rightarrow> string" where
  "FormatFloatF = FormatFloat False"

definition FormatFloatG :: "float64 \<Rightarrow> string" where
  "FormatFloatG = FormatFloat True"

section \<open>Parsing\<close>

definition lower_ascii :: "char \<Rightarrow> char" where
  "lower_ascii c = (if 65 \<le> (of_char c :: nat) \<and> (of_char c :: nat) \<le> 90 then char_of ((of_char c :: nat) + 32) else c)"

definition mantDigit :: "bool \<Rightarrow> char \<Rightarrow> nat option" where
  "mantDigit hex c =
     (let n = (of_char (lower_ascii c) :: nat)
      in if 48 \<le> n \<and> n \<le> 57 then Some (n - 48)
         else if hex \<and> 97 \<le> n \<and> n \<le> 102 then Some (n - 87)
         else None)"

text \<open>\<open>saw\<close> is the last character class seen: a digit, an underscore, something else.\<close>

datatype saw = SawDigit | SawUnderscore | SawOther | SawStart

fun underscoreLoop :: "bool \<Rightarrow> saw \<Rightarrow> string \<Rightarrow> bool" where
  "underscoreLoop hex saw [] = (saw \<noteq> SawUnderscore)"
| "underscoreLoop hex saw (c # s) =
     (if mantDigit hex c \<noteq> None then underscoreLoop hex SawDigit s
      else if c = CHR ''_'' then (if saw \<noteq> SawDigit then False else underscoreLoop hex SawUnderscore s)
      else if saw = SawUnderscore then False
      else underscoreLoop hex SawOther s)"

definition dropSign :: "string \<Rightarrow> string" where
  "dropSign s = (case s of c # r \<Rightarrow> if c = CHR ''+'' \<or> c = CHR ''-'' then r else s | [] \<Rightarrow> [])"

definition underscoreOK :: "string \<Rightarrow> bool" where
  "underscoreOK s =
     (case dropSign s of
        z # b # r \<Rightarrow>
          if z = CHR ''0'' \<and> lower_ascii b \<in> set ''box''
          then underscoreLoop (lower_ascii b = CHR ''x'') SawDigit r
          else underscoreLoop False SawStart (z # b # r)
      | r \<Rightarrow> underscoreLoop False SawStart r)"

fun scanMant :: "bool \<Rightarrow> bool \<Rightarrow> nat list \<Rightarrow> int \<Rightarrow> string \<Rightarrow> nat list \<times> int \<times> string" where
  "scanMant hex dot ds nf [] = (ds, nf, [])"
| "scanMant hex dot ds nf (c # s) =
     (if c = CHR ''_'' then scanMant hex dot ds nf s
      else if c = CHR ''.'' then (if dot then (ds, nf, c # s) else scanMant hex True ds nf s)
      else
        case mantDigit hex c of
          Some d \<Rightarrow> scanMant hex dot (ds @ [d]) (if dot then nf + 1 else nf) s
        | None \<Rightarrow> (ds, nf, c # s))"

fun scanExp :: "int \<Rightarrow> string \<Rightarrow> int \<times> string" where
  "scanExp e [] = (e, [])"
| "scanExp e (c # s) =
     (if c = CHR ''_'' then scanExp e s
      else
        case mantDigit False c of
          Some d \<Rightarrow> scanExp (if e < 10000 then e * 10 + int d else e) s
        | None \<Rightarrow> (e, c # s))"

text \<open>The exponent after its letter: an optional sign, then at least one digit.\<close>

definition readExp :: "string \<Rightarrow> (int \<times> string) option" where
  "readExp s =
     (let neg = (case s of c # _ \<Rightarrow> c = CHR ''-'' | [] \<Rightarrow> False); s = dropSign s
      in case s of
           [] \<Rightarrow> None
         | c # _ \<Rightarrow>
             if mantDigit False c = None then None
             else (let (e, r) = scanExp 0 s in Some (if neg then - e else e, r)))"

definition digitsValue :: "int \<Rightarrow> nat list \<Rightarrow> int" where
  "digitsValue base ds = foldl (\<lambda>n d. n * base + int d) 0 ds"

text \<open>The magnitude a well-formed number stands for.\<close>

definition readFloat :: "string \<Rightarrow> rat option" where
  "readFloat s =
     (let (hex, body) =
            (case s of
               z # x # c # r \<Rightarrow>
                 if z = CHR ''0'' \<and> lower_ascii x = CHR ''x'' then (True, c # r) else (False, s)
             | _ \<Rightarrow> (False, s));
          base = (if hex then 16 else 10);
          (ds, nf, r) = scanMant hex False [] 0 body;
          m = of_int (digitsValue base ds)
      in if ds = [] then None
         else
           case r of
             [] \<Rightarrow> if hex then None else Some (m * pow10 (- nf))
           | c # r' \<Rightarrow>
               if lower_ascii c \<noteq> (if hex then CHR ''p'' else CHR ''e'') then None
               else
                 case readExp r' of
                   Some (e, []) \<Rightarrow>
                     Some (if hex then m * pow2 (e - 4 * nf) else m * pow10 (e - nf))
                 | _ \<Rightarrow> None)"

definition fnegate :: "float64 \<Rightarrow> float64" where
  "fnegate f = (case f of Fin r \<Rightarrow> if r = 0 then NegZero else Fin (- r) | PInf \<Rightarrow> NInf | f \<Rightarrow> f)"

text \<open>\<open>None\<close> is a syntax error or a magnitude out of range.\<close>

definition ParseFloat :: "string \<Rightarrow> float64 option" where
  "ParseFloat s =
     (let neg = (case s of c # _ \<Rightarrow> c = CHR ''-'' | [] \<Rightarrow> False);
          body = dropSign s; low = map lower_ascii body
      in if low = ''inf'' \<or> low = ''infinity'' then Some (if neg then NInf else PInf)
         else if map lower_ascii s = ''nan'' then Some NaN
         else
           case readFloat body of
             None \<Rightarrow> None
           | Some r \<Rightarrow>
               if \<not> underscoreOK s then None
               else case fround r of
                      PInf \<Rightarrow> None
                    | f \<Rightarrow> Some (if neg then fnegate f else f))"

end
