(* ===== verification/CmdBase.thy ===== *)
theory CmdBase
  imports Protocol StoreHash FloatText
begin

text \<open>
  What the command handlers of \<^verbatim>\<open>internal/commands\<close> share.

  A handler is \<^verbatim>\<open>func(args []string, store storage.Store) protocol.Response\<close>; the model passes the
  store explicitly, makes a run-time panic a value and takes what the Go runtime supplies from an
  \<open>Env\<close>: the clock, the random draws and the figures that \<^verbatim>\<open>INFO\<close> prints.  All clock readings of
  one command are the same instant, and no other client's command runs between the store calls of a
  handler.

  Two contracts are stated once for every handler: \<open>readonly\<close> (the store does not change) and
  \<open>guarded\<close> (a handler that answers with an error has not changed the store).
\<close>

named_theorems readonly_intros "handlers that do not change the store"
named_theorems guarded_intros "handlers whose error replies leave the store unchanged"
named_theorems panic_intros "handlers that never panic"

section \<open>The environment of a handler\<close>

record Env =
  clock :: gotime
  draws :: "nat \<Rightarrow> nat"
  goos :: string
  goversion :: string
  startTime :: gotime
  msAlloc :: nat

type_synonym handler = "Env \<Rightarrow> string list \<Rightarrow> MemoryStore \<Rightarrow> (MemoryStore \<times> Response) go"

section \<open>Replies\<close>

definition quoted :: "string \<Rightarrow> string" where
  "quoted s = CHR 0x27 # s @ [CHR 0x27]"

text \<open>The two spellings of the arity error: with and without the word command.\<close>

definition wrongArgs :: "string \<Rightarrow> Response" where
  "wrongArgs name = Error (''ERR wrong number of arguments for '' @ quoted name @ '' command'')"

definition wrongArgsFor :: "string \<Rightarrow> Response" where
  "wrongArgsFor name = Error (''ERR wrong number of arguments for '' @ quoted name)"

definition wrongType :: Response where
  "wrongType = Error ''WRONGTYPE Operation against a key holding the wrong kind of value''"

definition syntaxError :: Response where
  "syntaxError = Error ''ERR syntax error''"

definition notInteger :: Response where
  "notInteger = Error ''ERR value is not an integer or out of range''"

definition okReply :: Response where
  "okReply = SimpleString ''OK''"

definition bulkArray :: "string list \<Rightarrow> Response" where
  "bulkArray vals = Array (map BulkString vals)"

definition bulkOrNull :: "string option \<Rightarrow> Response" where
  "bulkOrNull v = (case v of None \<Rightarrow> NullBulkString | Some x \<Rightarrow> BulkString x)"

definition boolInt :: "bool \<Rightarrow> Response" where
  "boolInt b = (if b then Integer 1 else Integer 0)"

text \<open>
  \<^verbatim>\<open>x, err := op(); if errors.Is(err, ErrWrongType) { return Error(...) }; return f(x)\<close>: any other
  error is ignored and \<open>x\<close> is then the zero value \<open>z\<close>.
\<close>

definition orWrongType :: "'a \<Rightarrow> ('a \<Rightarrow> Response) \<Rightarrow> error + 'a \<Rightarrow> Response" where
  "orWrongType z f r =
     (case r of Inl ErrWrongType \<Rightarrow> wrongType | Inl (Errorf _) \<Rightarrow> f z | Inr x \<Rightarrow> f x)"

definition replyOf :: "'a \<Rightarrow> ('a \<Rightarrow> Response) \<Rightarrow> MemoryStore \<times> (error + 'a) \<Rightarrow> (MemoryStore \<times> Response) go" where
  "replyOf z f p = Ret (fst p, orWrongType z f (snd p))"

definition errorText :: "error \<Rightarrow> string" where
  "errorText e =
     (case e of ErrWrongType \<Rightarrow> respStr wrongType | Errorf m \<Rightarrow> m)"

section \<open>internal/commands/util.go, meta.go, ping.go\<close>

definition parseInt64 :: "string \<Rightarrow> int option" where
  "parseInt64 s = ParseInt s"

definition formatInt64 :: "int \<Rightarrow> string" where
  "formatInt64 n = FormatInt n"

definition handleCommand :: handler where
  "handleCommand env args s = Ret (s, Array [])"

definition handlePing :: handler where
  "handlePing env args s =
     (if length args = 1 then Ret (s, SimpleString ''PONG'')
      else if length args = 2 then Ret (s, BulkString (args ! 1))
      else Ret (s, wrongArgsFor ''PING''))"

section \<open>Contracts of a handler\<close>

fun isError :: "Response \<Rightarrow> bool" where
  "isError (Error _) = True"
| "isError _ = False"

definition keeps :: "MemoryStore \<Rightarrow> (MemoryStore \<times> Response) go \<Rightarrow> bool" where
  "keeps s r \<longleftrightarrow> (\<forall>s' x. r = Ret (s', x) \<longrightarrow> s' = s)"

definition errKeeps :: "MemoryStore \<Rightarrow> (MemoryStore \<times> Response) go \<Rightarrow> bool" where
  "errKeeps s r \<longleftrightarrow> (\<forall>s' m. r = Ret (s', Error m) \<longrightarrow> s' = s)"

definition readonly :: "handler \<Rightarrow> bool" where
  "readonly h \<longleftrightarrow> (\<forall>env args s. keeps s (h env args s))"

definition guarded :: "handler \<Rightarrow> bool" where
  "guarded h \<longleftrightarrow> (\<forall>env args s. errKeeps s (h env args s))"

fun returns :: "'a go \<Rightarrow> bool" where
  "returns (Ret _) = True"
| "returns Panic = False"

definition panicFree :: "handler \<Rightarrow> bool" where
  "panicFree h \<longleftrightarrow> (\<forall>env args s. returns (h env args s))"

lemma keeps_Ret [simp]: "keeps s (Ret p) \<longleftrightarrow> fst p = s"
  by (cases p) (auto simp: keeps_def)

lemma keeps_Panic [simp]: "keeps s Panic"
  by (simp add: keeps_def)

lemma errKeeps_Ret [simp]: "errKeeps s (Ret p) \<longleftrightarrow> (isError (snd p) \<longrightarrow> fst p = s)"
  by (cases p; cases "snd p") (auto simp: errKeeps_def)

lemma errKeeps_Panic [simp]: "errKeeps s Panic"
  by (simp add: errKeeps_def)

lemma readonlyI: "(\<And>env args s. keeps s (h env args s)) \<Longrightarrow> readonly h"
  by (simp add: readonly_def)

lemma guardedI: "(\<And>env args s. errKeeps s (h env args s)) \<Longrightarrow> guarded h"
  by (simp add: guarded_def)

lemma panicFreeI: "(\<And>env args s. returns (h env args s)) \<Longrightarrow> panicFree h"
  by (simp add: panicFree_def)

lemma readonly_guarded: "readonly h \<Longrightarrow> guarded h"
  unfolding readonly_def guarded_def keeps_def errKeeps_def by blast

lemma isError_replies [simp]:
  "isError (wrongArgs n)" "isError (wrongArgsFor n)" "isError wrongType" "isError syntaxError"
  "isError notInteger" "\<not> isError okReply" "\<not> isError (bulkArray vs)" "\<not> isError (bulkOrNull v)"
  "\<not> isError (boolInt b)"
  by (simp_all add: wrongArgs_def wrongArgsFor_def wrongType_def syntaxError_def notInteger_def okReply_def
      bulkArray_def bulkOrNull_def boolInt_def split: option.split)

lemma keeps_replyOf [simp]: "keeps s (replyOf z f p) \<longleftrightarrow> fst p = s"
  by (simp add: replyOf_def)

text \<open>An operation that fails with an error has not changed the store.\<close>

definition failKeeps :: "MemoryStore \<Rightarrow> MemoryStore \<times> (error + 'a) \<Rightarrow> bool" where
  "failKeeps s p \<longleftrightarrow> (\<forall>e. snd p = Inl e \<longrightarrow> fst p = s)"

lemma errKeeps_replyOf:
  "failKeeps s p \<Longrightarrow> (\<And>x. \<not> isError (f x)) \<Longrightarrow> errKeeps s (replyOf z f p)"
  by (cases p) (auto simp: replyOf_def orWrongType_def failKeeps_def split: sum.splits error.splits)

lemma replyOf_returns [simp]: "returns (replyOf z f p)"
  by (simp add: replyOf_def)

lemma returns_replyOf [simp]:
  "returns (case r of Ret p \<Rightarrow> replyOf z f p | Panic \<Rightarrow> Panic) \<longleftrightarrow> returns r"
  by (cases r) simp_all

lemma readonly_ping [readonly_intros]: "readonly handlePing" "readonly handleCommand"
  by (auto intro!: readonlyI simp: handlePing_def handleCommand_def)

lemma panic_ping [panic_intros]: "panicFree handlePing" "panicFree handleCommand"
  by (auto intro!: panicFreeI simp: handlePing_def handleCommand_def)

text \<open>A concrete environment, used where properties are instantiated.\<close>

definition demoEnv :: Env where
  "demoEnv =
     \<lparr>clock = 63900000000 * Second, draws = (\<lambda>_. 0), goos = ''linux'', goversion = ''go1.24.4'',
      startTime = 0, msAlloc = 0\<rparr>"

end
