(* ===== verification/CmdHash.thy ===== *)
theory CmdHash
  imports CmdBase
begin

text \<open>
  The hash commands, \<^verbatim>\<open>internal/commands/hash.go\<close>.
\<close>

text \<open>The loop \<^verbatim>\<open>for i := 2; i+1 < len(args); i += 2\<close> over \<^verbatim>\<open>args[2:]\<close>.\<close>

fun pairFields :: "string list \<Rightarrow> (string, string) gomap \<Rightarrow> (string, string) gomap" where
  "pairFields (f # v # rest) m = pairFields rest (mput f v m)"
| "pairFields _ m = m"

definition handleHSet :: handler where
  "handleHSet env args s =
     (if length args < 4 \<or> (length args - 2) mod 2 \<noteq> 0 then Ret (s, wrongArgs ''HSET'')
      else let (s, n) = HSet (args ! 1) (pairFields (drop 2 args) []) s
           in Ret (s, Integer n))"

definition handleHGet :: handler where
  "handleHGet env args s =
     (if length args \<noteq> 3 then Ret (s, wrongArgs ''HGET'')
      else Ret (s, bulkOrNull (HGet (clock env) (args ! 1) (args ! 2) s)))"

definition handleHDel :: handler where
  "handleHDel env args s =
     (if length args < 3 then Ret (s, wrongArgs ''HDEL'')
      else let (s, n) = HDel (clock env) (args ! 1) (drop 2 args) s in Ret (s, Integer n))"

definition handleHGetAll :: handler where
  "handleHGetAll env args s =
     (if length args \<noteq> 2 then Ret (s, wrongArgs ''HGETALL'')
      else Ret (s, bulkArray (concat (map (\<lambda>(f, v). [f, v]) (HGetAll (clock env) (args ! 1) s)))))"

definition handleHMGet :: handler where
  "handleHMGet env args s =
     (if length args < 3 then Ret (s, wrongArgs ''HMGET'')
      else Ret (s, Array (map (\<lambda>field. bulkOrNull (HGet (clock env) (args ! 1) field s)) (drop 2 args))))"

definition handleHLen :: handler where
  "handleHLen env args s =
     (if length args \<noteq> 2 then Ret (s, wrongArgs ''HLEN'')
      else Ret (s, Integer (HLen (clock env) (args ! 1) s)))"

definition handleHExists :: handler where
  "handleHExists env args s =
     (if length args \<noteq> 3 then Ret (s, wrongArgs ''HEXISTS'')
      else Ret (s, boolInt (HExists (clock env) (args ! 1) (args ! 2) s)))"

definition handleHKeys :: handler where
  "handleHKeys env args s =
     (if length args \<noteq> 2 then Ret (s, wrongArgs ''HKEYS'')
      else Ret (s, bulkArray (HKeys (clock env) (args ! 1) s)))"

definition handleHVals :: handler where
  "handleHVals env args s =
     (if length args \<noteq> 2 then Ret (s, wrongArgs ''HVALS'')
      else Ret (s, bulkArray (HVals (clock env) (args ! 1) s)))"

definition handleHIncrByFloat :: handler where
  "handleHIncrByFloat env args s =
     (if length args \<noteq> 4 then Ret (s, wrongArgs ''HINCRBYFLOAT'')
      else
        case ParseFloat (args ! 3) of
          None \<Rightarrow> Ret (s, Error ''ERR value is not a valid float'')
        | Some delta \<Rightarrow>
            (case (case HGet (clock env) (args ! 1) (args ! 2) s of
                     None \<Rightarrow> Some (Fin 0)
                   | Some raw \<Rightarrow> ParseFloat raw) of
               None \<Rightarrow> Ret (s, Error ''ERR hash value is not a valid float'')
             | Some current \<Rightarrow>
                 let resultStr = FormatFloatF (fadd current delta)
                 in Ret (fst (HSet (args ! 1) [(args ! 2, resultStr)] s), BulkString resultStr)))"

definition handleHIncrBy :: handler where
  "handleHIncrBy env args s =
     (if length args \<noteq> 4 then Ret (s, wrongArgs ''HINCRBY'')
      else
        case (case HGet (clock env) (args ! 1) (args ! 2) s of
                None \<Rightarrow> Some 0
              | Some raw \<Rightarrow> parseInt64 raw) of
          None \<Rightarrow> Ret (s, Error ''ERR hash value is not an integer'')
        | Some current \<Rightarrow>
            (case parseInt64 (args ! 3) of
               None \<Rightarrow> Ret (s, notInteger)
             | Some delta \<Rightarrow>
                 let next = wrap64 (current + delta)
                 in Ret (fst (HSet (args ! 1) [(args ! 2, formatInt64 next)] s), Integer next)))"

section \<open>Contracts\<close>

lemmas hash_read_defs = handleHGet_def handleHGetAll_def handleHMGet_def handleHLen_def handleHExists_def
  handleHKeys_def handleHVals_def

lemmas hash_write_defs = handleHSet_def handleHDel_def handleHIncrByFloat_def handleHIncrBy_def

lemma readonly_hash [readonly_intros]:
  "readonly handleHGet" "readonly handleHGetAll" "readonly handleHMGet" "readonly handleHLen"
  "readonly handleHExists" "readonly handleHKeys" "readonly handleHVals"
  by (auto intro!: readonlyI simp: hash_read_defs)

lemma guarded_hash [guarded_intros]:
  "guarded handleHSet" "guarded handleHDel" "guarded handleHIncrByFloat" "guarded handleHIncrBy"
  by (auto intro!: guardedI simp: hash_write_defs Let_def split: prod.split option.split)

lemma panic_hash [panic_intros]:
  "panicFree handleHGet" "panicFree handleHGetAll" "panicFree handleHMGet" "panicFree handleHLen" "panicFree handleHExists"
  "panicFree handleHKeys" "panicFree handleHVals" "panicFree handleHSet" "panicFree handleHDel" "panicFree handleHIncrByFloat"
  "panicFree handleHIncrBy"
  by (auto intro!: panicFreeI simp: hash_read_defs hash_write_defs Let_def split: prod.split option.split)

end
