(* ===== verification/GoSort.thy ===== *)
theory GoSort
  imports GoPrelude "HOL-Library.Multiset" "HOL-Library.List_Lexorder" "HOL-Library.Char_ord"
begin

text \<open>
  \<^verbatim>\<open>sort.Slice\<close> and \<^verbatim>\<open>sort.Strings\<close>.

  \<open>sortSlice\<close> is the insertion sort the library runs on slices of up to twelve elements.  On longer
  slices the library picks another algorithm, but when the comparison is a strict total order on the
  elements there is only one sorted arrangement: the interface \<open>comparator\<close> states that contract of
  the caller and proves that the result is sorted, is a permutation, and is the only such list, so the
  choice of algorithm is not observable.

  Strings are compared bytewise, which is the lexicographic order on lists of characters.
\<close>

text \<open>
  The prefix that is already sorted is kept with its last element first: the inner loop
  \<^verbatim>\<open>for j := i; j > a && less(j, j-1); j--\<close> moves the new element back past the larger ones.
\<close>

fun insertBack :: "('a \<Rightarrow> 'a \<Rightarrow> bool) \<Rightarrow> 'a \<Rightarrow> 'a list \<Rightarrow> 'a list" where
  "insertBack lss x [] = [x]"
| "insertBack lss x (y # ys) = (if lss x y then y # insertBack lss x ys else x # y # ys)"

definition sortSlice :: "('a \<Rightarrow> 'a \<Rightarrow> bool) \<Rightarrow> 'a list \<Rightarrow> 'a list" where
  "sortSlice lss xs = rev (fold (insertBack lss) xs [])"

definition sortStrings :: "string list \<Rightarrow> string list" where
  "sortStrings xs = sortSlice (<) xs"

lemma mset_insertBack: "mset (insertBack lss x ys) = add_mset x (mset ys)"
  by (induction ys) auto

lemma mset_fold_insertBack: "mset (fold (insertBack lss) xs acc) = mset acc + mset xs"
  by (induction xs arbitrary: acc) (simp_all add: mset_insertBack)

lemma mset_sortSlice [simp]: "mset (sortSlice lss xs) = mset xs"
  by (simp add: sortSlice_def mset_fold_insertBack)

lemma set_sortSlice [simp]: "set (sortSlice lss xs) = set xs"
  by (rule mset_eq_setD) simp

lemma length_sortSlice [simp]: "length (sortSlice lss xs) = length xs"
  by (rule mset_eq_length) simp

lemma distinct_map_sortSlice [simp]: "distinct (map f (sortSlice lss xs)) = distinct (map f xs)"
  by (rule mset_eq_imp_distinct_iff) (simp add: mset_map)

locale comparator =
  fixes lss :: "'a \<Rightarrow> 'a \<Rightarrow> bool" and valid :: "'a \<Rightarrow> bool" and ident :: "'a \<Rightarrow> 'k"
  assumes irrefl: "valid a \<Longrightarrow> \<not> lss a a"
    and trans: "valid a \<Longrightarrow> valid b \<Longrightarrow> valid c \<Longrightarrow> lss a b \<Longrightarrow> lss b c \<Longrightarrow> lss a c"
    and total: "valid a \<Longrightarrow> valid b \<Longrightarrow> ident a \<noteq> ident b \<Longrightarrow> lss a b \<or> lss b a"
begin

lemma asym: "valid a \<Longrightarrow> valid b \<Longrightarrow> lss a b \<Longrightarrow> \<not> lss b a"
  using irrefl trans by blast

lemma insertBack_sorted:
  assumes "sorted_wrt (\<lambda>a b. lss b a) ys" and "\<forall>y \<in> insert x (set ys). valid y"
    and "\<forall>y \<in> set ys. ident y \<noteq> ident x"
  shows "sorted_wrt (\<lambda>a b. lss b a) (insertBack lss x ys)"
  using assms
proof (induction ys)
  case (Cons y ys)
  have set: "set (insertBack lss x ys) = insert x (set ys)"
    using mset_eq_setD [of "insertBack lss x ys" "x # ys"] by (simp add: mset_insertBack)
  show ?case
  proof (cases "lss x y")
    case True
    then show ?thesis using Cons set by simp
  next
    case False
    then have yx: "lss y x" using total [of x y] Cons.prems(2,3) by auto
    have "lss z x" if "z \<in> set ys" for z
      using that trans [of z y x] yx Cons.prems(1,2) by simp
    with False yx Cons.prems(1) show ?thesis by simp
  qed
qed simp

lemma sortSlice_sorted:
  assumes "\<forall>x \<in> set xs. valid x" and "distinct (map ident xs)"
  shows "sorted_wrt lss (sortSlice lss xs)"
proof -
  have "sorted_wrt (\<lambda>a b. lss b a) (fold (insertBack lss) xs acc)"
    if "sorted_wrt (\<lambda>a b. lss b a) acc" "\<forall>x \<in> set xs \<union> set acc. valid x" "distinct (map ident (xs @ acc))" for acc
    using that
  proof (induction xs arbitrary: acc)
    case (Cons x xs)
    have set: "mset (insertBack lss x acc) = mset (x # acc)" by (simp add: mset_insertBack)
    have "set (insertBack lss x acc) = insert x (set acc)"
      using mset_eq_setD [OF set] by simp
    moreover have perm: "mset (map ident (xs @ insertBack lss x acc)) = mset (map ident ((x # xs) @ acc))"
      by (simp add: mset_insertBack)
    have "distinct (map ident (xs @ insertBack lss x acc))"
      using Cons.prems(3) unfolding mset_eq_imp_distinct_iff [OF perm] .
    moreover have "sorted_wrt (\<lambda>a b. lss b a) (insertBack lss x acc)"
      using Cons.prems by (intro insertBack_sorted) (auto simp: image_iff)
    ultimately show ?case using Cons.IH [of "insertBack lss x acc"] Cons.prems(2) by simp
  qed simp
  from this [of "[]"] show ?thesis using assms by (simp add: sortSlice_def sorted_wrt_rev)
qed

lemma sorted_unique:
  assumes "sorted_wrt lss xs" "sorted_wrt lss ys" and "mset xs = mset ys" and "\<forall>x \<in> set xs. valid x"
  shows "xs = ys"
  using assms
proof (induction xs arbitrary: ys)
  case (Cons x xs)
  obtain y ys' where ys: "ys = y # ys'" using Cons.prems(3) by (cases ys) auto
  have set: "insert x (set xs) = insert y (set ys')" using mset_eq_setD [OF Cons.prems(3)] ys by simp
  have "x = y"
  proof (rule ccontr)
    assume "x \<noteq> y"
    then have "x \<in> set ys'" "y \<in> set xs" using set by auto
    then have "lss y x" "lss x y" using Cons.prems(1,2) ys by auto
    then show False using asym [of x y] Cons.prems(4) \<open>y \<in> set xs\<close> by simp
  qed
  then show ?case using Cons ys by simp
qed simp

lemma sortSlice_unique:
  assumes "\<forall>x \<in> set xs. valid x" and "distinct (map ident xs)"
    and "sorted_wrt lss ys" and "mset ys = mset xs"
  shows "ys = sortSlice lss xs"
proof (rule sorted_unique [OF assms(3) sortSlice_sorted [OF assms(1,2)]])
  show "\<forall>x \<in> set ys. valid x" using assms(1) mset_eq_setD [OF assms(4)] by simp
qed (simp add: assms(4))

end

interpretation str: comparator "(<) :: string \<Rightarrow> string \<Rightarrow> bool" "\<lambda>_. True" "\<lambda>x. x"
  by unfold_locales auto

lemma sortStrings_sorted: "distinct xs \<Longrightarrow> sorted_wrt (<) (sortStrings xs)"
  unfolding sortStrings_def by (rule str.sortSlice_sorted) simp_all

lemma mset_sortStrings [simp]: "mset (sortStrings xs) = mset xs"
  by (simp add: sortStrings_def)

lemma set_sortStrings [simp]: "set (sortStrings xs) = set xs"
  by (simp add: sortStrings_def)

lemma distinct_sortStrings [simp]: "distinct (sortStrings xs) = distinct xs"
  using distinct_map_sortSlice [of id] by (simp add: sortStrings_def)

lemma length_sortStrings [simp]: "length (sortStrings xs) = length xs"
  by (simp add: sortStrings_def)

end
