(* ===== verification/Ranges.thy ===== *)
theory Ranges
  imports Main
begin

text \<open>
  Index ranges with bounds that may count from the end, as the list and sorted-set reads use them:
  the reference reading \<open>rangeOf\<close> and its equality with a clamped slice.
\<close>

text \<open>\<^verbatim>\<open>l[lo:hi+1]\<close> copied.\<close>

definition subslice :: "int \<Rightarrow> int \<Rightarrow> 'a list \<Rightarrow> 'a list" where
  "subslice lo hi l = take (nat (hi - lo + 1)) (drop (nat lo) l)"

text \<open>
  The reference reading of a Redis range: the elements whose index lies between the two bounds, a
  negative bound counting from the end.
\<close>

definition fromEnd :: "int \<Rightarrow> int \<Rightarrow> int" where
  "fromEnd len i = (if i < 0 then len + i else i)"

definition rangeOf :: "int \<Rightarrow> int \<Rightarrow> 'a list \<Rightarrow> 'a list" where
  "rangeOf start stop l =
     map fst (filter (\<lambda>(x, i). fromEnd (int (length l)) start \<le> int i \<and>
                               int i \<le> fromEnd (int (length l)) stop)
                     (zip l [0..<length l]))"

lemma filter_zip_upt:
  "map fst (filter (\<lambda>(x, i). a \<le> i \<and> i \<le> b) (zip l [k..<k + length l])) =
     take (Suc b - max a k) (drop (a - k) l)"
proof (induction l arbitrary: k)
  case (Cons x l)
  have upt: "[k..<k + length (x # l)] = k # [Suc k..<Suc k + length l]"
    by (simp add: upt_conv_Cons del: upt_Suc)
  show ?case
  proof (cases "a \<le> k")
    case True
    then show ?thesis unfolding upt using Cons.IH [of "Suc k"]
      by (simp add: max_def take_Cons' le_Suc_eq del: upt_Suc)
  next
    case False
    then have "a - k = Suc (a - Suc k)" "max a k = a" "max a (Suc k) = a" by simp_all
    with False show ?thesis unfolding upt using Cons.IH [of "Suc k"] by (simp del: upt_Suc)
  qed
qed simp

lemma rangeOf_take_drop:
  fixes l :: "'a list" and start stop :: int
  defines "len \<equiv> int (length l)"
  defines "lo \<equiv> max 0 (fromEnd len start)" and "hi \<equiv> min (len - 1) (fromEnd len stop)"
  shows "rangeOf start stop l = (if hi < lo then [] else subslice lo hi l)"
proof -
  have eq: "fromEnd len start \<le> int i \<and> int i \<le> fromEnd len stop \<longleftrightarrow>
      (0 \<le> hi \<and> nat lo \<le> i \<and> i \<le> nat hi)" if "i < length l" for i
    using that by (auto simp: lo_def hi_def len_def)
  have "(case p of (x, i) \<Rightarrow> fromEnd len start \<le> int i \<and> int i \<le> fromEnd len stop) =
      (case p of (x, i) \<Rightarrow> 0 \<le> hi \<and> nat lo \<le> i \<and> i \<le> nat hi)"
    if "p \<in> set (zip l [0..<length l])" for p
    using that eq [of "snd p"] set_zip_rightD [of "fst p" "snd p" l "[0..<length l]"]
    by (simp add: case_prod_beta)
  then have "rangeOf start stop l =
      map fst (filter (\<lambda>(x, i). 0 \<le> hi \<and> nat lo \<le> i \<and> i \<le> nat hi) (zip l [0..<length l]))"
    unfolding rangeOf_def len_def by (intro arg_cong [where f = "map fst"] filter_cong refl) simp
  also have "\<dots> = (if 0 \<le> hi then take (Suc (nat hi) - nat lo) (drop (nat lo) l) else [])"
    using filter_zip_upt [of "nat lo" "nat hi" l 0] by simp
  also have "\<dots> = (if hi < lo then [] else subslice lo hi l)"
  proof -
    have "0 \<le> lo" by (simp add: lo_def)
    then have "\<not> hi < lo \<Longrightarrow> nat (hi - lo + 1) = Suc (nat hi) - nat lo" by linarith
    with \<open>0 \<le> lo\<close> show ?thesis by (auto simp: subslice_def)
  qed
  finally show ?thesis .
qed

lemma subslice_ne: "0 \<le> lo \<Longrightarrow> lo \<le> hi \<Longrightarrow> hi < int (length l) \<Longrightarrow> subslice lo hi l \<noteq> []"
  by (simp add: subslice_def)

end
