(* ===== verification/StoreZSet.thy ===== *)
theory StoreZSet
  imports Keyspace GoSort FloatText Ranges
begin

text \<open>
  The sorted-set operations of \<^verbatim>\<open>internal/storage/memory.go\<close> (\<^verbatim>\<open>getZSet\<close> to
  \<^verbatim>\<open>formatScore\<close>): a map from members to scores that every ordered read sorts anew by score, then
  by member.

  \<^verbatim>\<open>getZSet\<close> returns a pointer that is nil for a missing key: it is \<open>None\<close> here, and a field access
  through it is a panic.
\<close>

section \<open>Operations\<close>

definition getZSet :: "gotime \<Rightarrow> string \<Rightarrow> MemoryStore \<Rightarrow> error + zset option" where
  "getZSet now key s =
     (let t = typeOf now key s
      in if t = NoKey then Inr None
         else if t \<noteq> TZSet then Inl ErrWrongType
         else Inr (map_of (zsets s) key))"

definition zless :: "ZMember \<Rightarrow> ZMember \<Rightarrow> bool" where
  "zless a b =
     (if \<not> feq (Score a) (Score b) then flt (Score a) (Score b)
      else Member a < Member b)"

definition sortedMembers :: "zset \<Rightarrow> ZMember list" where
  "sortedMembers z = sortSlice zless (map (\<lambda>(m, sc). \<lparr>Member = m, Score = sc\<rparr>) (scores z))"

definition formatScore :: "float64 \<Rightarrow> string" where
  "formatScore f = (if f = PInf then ''inf'' else if f = NInf then ''-inf'' else FormatFloatG f)"

definition zaddStep :: "bool \<Rightarrow> bool \<Rightarrow> bool \<Rightarrow> bool \<Rightarrow> bool \<Rightarrow> ZMember
    \<Rightarrow> (string, float64) gomap \<times> int \<Rightarrow> (string, float64) gomap \<times> int" where
  "zaddStep nx xx gt lt ch m = (\<lambda>(sc, changed).
     case map_of sc (Member m) of
       Some oldScore \<Rightarrow>
         if nx then (sc, changed)
         else if gt \<and> fle (Score m) oldScore then (sc, changed)
         else if lt \<and> fle oldScore (Score m) then (sc, changed)
         else (mput (Member m) (Score m) sc,
               if ch \<and> \<not> feq (Score m) oldScore then changed + 1 else changed)
     | None \<Rightarrow>
         if xx then (sc, changed)
         else (mput (Member m) (Score m) sc, changed + 1))"

definition scoresAt :: "string \<Rightarrow> MemoryStore \<Rightarrow> (string, float64) gomap" where
  "scoresAt key s = (case map_of (zsets s) key of None \<Rightarrow> [] | Some z \<Rightarrow> scores z)"

definition ZAdd :: "gotime \<Rightarrow> string \<Rightarrow> ZMember list \<Rightarrow> bool \<Rightarrow> bool \<Rightarrow> bool \<Rightarrow> bool \<Rightarrow> bool \<Rightarrow> MemoryStore
    \<Rightarrow> MemoryStore \<times> (error + int)" where
  "ZAdd now key members nx xx gt lt ch s =
     (let t = typeOf now key s
      in if t \<noteq> NoKey \<and> t \<noteq> TZSet then (s, Inl ErrWrongType)
         else
           let (sc, changed) = fold (zaddStep nx xx gt lt ch) members (scoresAt key s, 0)
           in (bumpVersion key (s\<lparr>zsets := mput key \<lparr>scores = sc\<rparr> (zsets s)\<rparr>), Inr changed))"

text \<open>The scores written back, or the key dropped with its deadline when none is left.\<close>

definition storeScores :: "string \<Rightarrow> (string, float64) gomap \<Rightarrow> MemoryStore \<Rightarrow> MemoryStore" where
  "storeScores key sc s =
     (if length sc = 0 then s\<lparr>zsets := mdel key (zsets s), keyExpiry := mdel key (keyExpiry s)\<rparr>
      else s\<lparr>zsets := mput key \<lparr>scores = sc\<rparr> (zsets s)\<rparr>)"

definition ZRem :: "gotime \<Rightarrow> string \<Rightarrow> string list \<Rightarrow> MemoryStore \<Rightarrow> MemoryStore \<times> (error + int)" where
  "ZRem now key members s =
     (case getZSet now key s of
        Inl e \<Rightarrow> (s, Inl e)
      | Inr None \<Rightarrow> (s, Inr 0)
      | Inr (Some z) \<Rightarrow>
          let (sc, n) = removeKeys members (scores z)
          in (bumpVersion key (storeScores key sc s), Inr n))"

definition ZScore :: "gotime \<Rightarrow> string \<Rightarrow> string \<Rightarrow> MemoryStore \<Rightarrow> error + float64 option" where
  "ZScore now key member s =
     map_sum id (\<lambda>z. case z of None \<Rightarrow> None | Some z \<Rightarrow> map_of (scores z) member) (getZSet now key s)"

text \<open>There is no test for nil here: a missing key panics.\<close>

definition ZCard :: "gotime \<Rightarrow> string \<Rightarrow> MemoryStore \<Rightarrow> (error + int) go" where
  "ZCard now key s =
     (case getZSet now key s of
        Inl e \<Rightarrow> Ret (Inl e)
      | Inr None \<Rightarrow> Panic
      | Inr (Some z) \<Rightarrow> Ret (Inr (int (length (scores z)))))"

fun rankLoop :: "string \<Rightarrow> ZMember list \<Rightarrow> int \<Rightarrow> int option" where
  "rankLoop member [] i = None"
| "rankLoop member (m # ms) i = (if Member m = member then Some i else rankLoop member ms (i + 1))"

definition ZRank :: "gotime \<Rightarrow> string \<Rightarrow> string \<Rightarrow> MemoryStore \<Rightarrow> error + int option" where
  "ZRank now key member s =
     map_sum id
       (\<lambda>z. case z of
              None \<Rightarrow> None
            | Some z \<Rightarrow> if map_of (scores z) member = None then None else rankLoop member (sortedMembers z) 0)
       (getZSet now key s)"

definition ZRevRank :: "gotime \<Rightarrow> string \<Rightarrow> string \<Rightarrow> MemoryStore \<Rightarrow> error + int option" where
  "ZRevRank now key member s =
     map_sum id
       (\<lambda>z. case z of
              None \<Rightarrow> None
            | Some z \<Rightarrow>
                if map_of (scores z) member = None then None
                else
                  let sorted = sortedMembers z; n = int (length sorted)
                  in map_option (\<lambda>i. n - 1 - i) (rankLoop member sorted 0))
       (getZSet now key s)"

text \<open>A missing score reads as zero.\<close>

definition ZIncrBy :: "gotime \<Rightarrow> string \<Rightarrow> float64 \<Rightarrow> string \<Rightarrow> MemoryStore \<Rightarrow> MemoryStore \<times> (error + float64)" where
  "ZIncrBy now key increment member s =
     (let t = typeOf now key s
      in if t \<noteq> NoKey \<and> t \<noteq> TZSet then (s, Inl ErrWrongType)
         else
           let sc = scoresAt key s;
               old = (case map_of sc member of None \<Rightarrow> Fin 0 | Some f \<Rightarrow> f);
               new = fadd old increment
           in (bumpVersion key (s\<lparr>zsets := mput key \<lparr>scores = mput member new sc\<rparr> (zsets s)\<rparr>), Inr new))"

definition withScore :: "bool \<Rightarrow> ZMember \<Rightarrow> string list" where
  "withScore withScores m = (if withScores then [Member m, formatScore (Score m)] else [Member m])"

definition ZRange :: "gotime \<Rightarrow> string \<Rightarrow> int \<Rightarrow> int \<Rightarrow> bool \<Rightarrow> bool \<Rightarrow> MemoryStore \<Rightarrow> error + string list" where
  "ZRange now key start stop reverse withScores s =
     (case getZSet now key s of
        Inl e \<Rightarrow> Inl e
      | Inr None \<Rightarrow> Inr []
      | Inr (Some z) \<Rightarrow>
          if length (scores z) = 0 then Inr []
          else
            let sorted = sortedMembers z; n = int (length sorted);
                start = (if start < 0 then n + start else start);
                stop = (if stop < 0 then n + stop else stop);
                start = (if start < 0 then 0 else start);
                stop = (if n \<le> stop then n - 1 else stop)
            in if stop < start then Inr []
               else
                 let slice = take (nat (stop - start + 1)) (drop (nat start) sorted);
                     slice = (if reverse then rev slice else slice)
                 in Inr (concat (map (withScore withScores) slice)))"

definition scoreInRange :: "float64 \<Rightarrow> float64 \<Rightarrow> bool \<Rightarrow> bool \<Rightarrow> float64 \<Rightarrow> bool" where
  "scoreInRange lo hi loExcl hiExcl sc \<longleftrightarrow>
     \<not> (loExcl \<and> fle sc lo) \<and> \<not> (\<not> loExcl \<and> flt sc lo) \<and>
     \<not> (hiExcl \<and> fle hi sc) \<and> \<not> (\<not> hiExcl \<and> flt hi sc)"

text \<open>The shared loop of the range reads: skip \<open>offset\<close> hits, then take up to \<open>count\<close> of them.\<close>

fun limitLoop :: "(ZMember \<Rightarrow> bool) \<Rightarrow> int \<Rightarrow> int \<Rightarrow> int \<Rightarrow> int \<Rightarrow> ZMember list \<Rightarrow> ZMember list" where
  "limitLoop hit offset cnt skipped taken [] = []"
| "limitLoop hit offset cnt skipped taken (m # ms) =
     (if \<not> hit m then limitLoop hit offset cnt skipped taken ms
      else if skipped < offset then limitLoop hit offset cnt (skipped + 1) taken ms
      else if 0 \<le> cnt \<and> cnt \<le> taken then []
      else m # limitLoop hit offset cnt skipped (taken + 1) ms)"

definition ZRangeByScore :: "gotime \<Rightarrow> string \<Rightarrow> float64 \<Rightarrow> float64 \<Rightarrow> bool \<Rightarrow> bool \<Rightarrow> bool \<Rightarrow> int \<Rightarrow> int \<Rightarrow> MemoryStore
    \<Rightarrow> error + string list" where
  "ZRangeByScore now key lo hi loExcl hiExcl withScores offset cnt s =
     map_sum id
       (\<lambda>z. case z of
              None \<Rightarrow> []
            | Some z \<Rightarrow> concat (map (withScore withScores)
                (limitLoop (\<lambda>m. scoreInRange lo hi loExcl hiExcl (Score m)) offset cnt 0 0 (sortedMembers z))))
       (getZSet now key s)"

definition ZRevRangeByScore :: "gotime \<Rightarrow> string \<Rightarrow> float64 \<Rightarrow> float64 \<Rightarrow> bool \<Rightarrow> bool \<Rightarrow> bool \<Rightarrow> int \<Rightarrow> int \<Rightarrow> MemoryStore
    \<Rightarrow> error + string list" where
  "ZRevRangeByScore now key hi lo hiExcl loExcl withScores offset cnt s =
     map_sum id
       (\<lambda>z. case z of
              None \<Rightarrow> []
            | Some z \<Rightarrow> concat (map (withScore withScores)
                (limitLoop (\<lambda>m. scoreInRange lo hi loExcl hiExcl (Score m)) offset cnt 0 0 (rev (sortedMembers z)))))
       (getZSet now key s)"

definition ZCount :: "gotime \<Rightarrow> string \<Rightarrow> float64 \<Rightarrow> float64 \<Rightarrow> bool \<Rightarrow> bool \<Rightarrow> MemoryStore \<Rightarrow> error + int" where
  "ZCount now key lo hi loExcl hiExcl s =
     map_sum id
       (\<lambda>z. case z of
              None \<Rightarrow> 0
            | Some z \<Rightarrow> int (length (filter
                (\<lambda>(_, sc). ((\<not> loExcl \<and> fle lo sc) \<or> (loExcl \<and> flt lo sc)) \<and>
                           ((\<not> hiExcl \<and> fle sc hi) \<or> (hiExcl \<and> flt sc hi)))
                (scores z))))
       (getZSet now key s)"

text \<open>Value, exclusive, negative infinity, positive infinity.\<close>

definition parseLexBound :: "string \<Rightarrow> string \<times> bool \<times> bool \<times> bool" where
  "parseLexBound b =
     (if b = ''-'' then ([], False, True, False)
      else if b = ''+'' then ([], False, False, True)
      else
        case b of
          c # r \<Rightarrow>
            if c = CHR ''('' then (r, True, False, False)
            else if c = CHR ''['' then (r, False, False, False)
            else (b, False, False, False)
        | [] \<Rightarrow> (b, False, False, False))"

definition lexInRange :: "string \<Rightarrow> string \<Rightarrow> string \<Rightarrow> bool" where
  "lexInRange lo hi m =
     (let (loVal, loExcl, loNeg, _) = parseLexBound lo;
          (hiVal, hiExcl, _, hiPos) = parseLexBound hi
      in (loNeg \<or> \<not> (loExcl \<and> m \<le> loVal) \<and> \<not> (\<not> loExcl \<and> m < loVal)) \<and>
         (hiPos \<or> \<not> (hiExcl \<and> hiVal \<le> m) \<and> \<not> (\<not> hiExcl \<and> hiVal < m)))"

definition ZRangeByLex :: "gotime \<Rightarrow> string \<Rightarrow> string \<Rightarrow> string \<Rightarrow> int \<Rightarrow> int \<Rightarrow> MemoryStore \<Rightarrow> error + string list" where
  "ZRangeByLex now key lo hi offset cnt s =
     map_sum id
       (\<lambda>z. case z of
              None \<Rightarrow> []
            | Some z \<Rightarrow> map Member
                (limitLoop (\<lambda>m. lexInRange lo hi (Member m)) offset cnt 0 0 (sortedMembers z)))
       (getZSet now key s)"

definition ZLexCount :: "gotime \<Rightarrow> string \<Rightarrow> string \<Rightarrow> string \<Rightarrow> MemoryStore \<Rightarrow> error + int" where
  "ZLexCount now key lo hi s = map_sum id (\<lambda>ms. int (length ms)) (ZRangeByLex now key lo hi 0 (-1) s)"

text \<open>The common body of the two pops, given the members in the order they are popped.\<close>

definition popMembers :: "string \<Rightarrow> int \<Rightarrow> ZMember list \<Rightarrow> (string, float64) gomap \<Rightarrow> MemoryStore
    \<Rightarrow> (MemoryStore \<times> (error + ZMember list)) go" where
  "popMembers key cnt ms sc s =
     (let cnt = (if int (length ms) < cnt then int (length ms) else cnt)
      in if cnt < 0 then Panic
         else
           let result = take (nat cnt) ms;
               sc = fold (\<lambda>m sc. mdel (Member m) sc) result sc
           in Ret (bumpVersion key (storeScores key sc s), Inr result))"

definition ZPopMin :: "gotime \<Rightarrow> string \<Rightarrow> int \<Rightarrow> MemoryStore \<Rightarrow> (MemoryStore \<times> (error + ZMember list)) go" where
  "ZPopMin now key cnt s =
     (case getZSet now key s of
        Inl e \<Rightarrow> Ret (s, Inl e)
      | Inr None \<Rightarrow> Ret (s, Inr [])
      | Inr (Some z) \<Rightarrow>
          if length (scores z) = 0 then Ret (s, Inr [])
          else popMembers key cnt (sortedMembers z) (scores z) s)"

definition ZPopMax :: "gotime \<Rightarrow> string \<Rightarrow> int \<Rightarrow> MemoryStore \<Rightarrow> (MemoryStore \<times> (error + ZMember list)) go" where
  "ZPopMax now key cnt s =
     (case getZSet now key s of
        Inl e \<Rightarrow> Ret (s, Inl e)
      | Inr None \<Rightarrow> Ret (s, Inr [])
      | Inr (Some z) \<Rightarrow>
          if length (scores z) = 0 then Ret (s, Inr [])
          else popMembers key cnt (rev (sortedMembers z)) (scores z) s)"

definition applyAggregate :: "float64 \<Rightarrow> float64 \<Rightarrow> string \<Rightarrow> float64" where
  "applyAggregate a b agg =
     (if toUpper agg = ''MIN'' then (if flt b a then b else a)
      else if toUpper agg = ''MAX'' then (if flt a b then b else a)
      else fadd a b)"

definition weightAt :: "float64 list \<Rightarrow> nat \<Rightarrow> float64" where
  "weightAt weights i = (if i < length weights then weights ! i else Fin 1)"

definition unionMember :: "float64 \<Rightarrow> string \<Rightarrow> string \<times> float64 \<Rightarrow> (string, float64) gomap \<Rightarrow> (string, float64) gomap" where
  "unionMember w agg = (\<lambda>(m, sc) acc.
     case map_of acc m of
       None \<Rightarrow> mput m (fmul sc w) acc
     | Some cur \<Rightarrow> mput m (applyAggregate cur (fmul sc w) agg) acc)"

fun zunionLoop :: "gotime \<Rightarrow> string list \<Rightarrow> nat \<Rightarrow> float64 list \<Rightarrow> string \<Rightarrow> MemoryStore
    \<Rightarrow> (string, float64) gomap \<Rightarrow> error + (string, float64) gomap" where
  "zunionLoop now [] i weights agg s acc = Inr acc"
| "zunionLoop now (k # ks) i weights agg s acc =
     (case getZSet now k s of
        Inl e \<Rightarrow> Inl e
      | Inr None \<Rightarrow> zunionLoop now ks (Suc i) weights agg s acc
      | Inr (Some z) \<Rightarrow>
          zunionLoop now ks (Suc i) weights agg s (fold (unionMember (weightAt weights i) agg) (scores z) acc))"

text \<open>The common tail of the two store variants.\<close>

definition storeZResult :: "string \<Rightarrow> (string, float64) gomap \<Rightarrow> MemoryStore \<Rightarrow> MemoryStore \<times> (error + int)" where
  "storeZResult dst sc s =
     (let s = deleteKey dst s
      in if 0 < length sc
         then (bumpVersion dst (s\<lparr>zsets := mput dst \<lparr>scores = sc\<rparr> (zsets s)\<rparr>), Inr (int (length sc)))
         else (s, Inr (int (length sc))))"

definition ZUnionStore :: "gotime \<Rightarrow> string \<Rightarrow> string list \<Rightarrow> float64 list \<Rightarrow> string \<Rightarrow> MemoryStore
    \<Rightarrow> MemoryStore \<times> (error + int)" where
  "ZUnionStore now dst keys weights agg s =
     (case zunionLoop now keys 0 weights agg s [] of
        Inl e \<Rightarrow> (s, Inl e)
      | Inr sc \<Rightarrow> storeZResult dst sc s)"

definition interMember :: "(string, float64) gomap \<Rightarrow> float64 \<Rightarrow> string \<Rightarrow> string \<times> float64
    \<Rightarrow> (string, float64) gomap \<Rightarrow> (string, float64) gomap" where
  "interMember zm w agg = (\<lambda>(m, c) acc.
     case map_of zm m of
       None \<Rightarrow> acc
     | Some zsc \<Rightarrow> mput m (applyAggregate c (fmul zsc w) agg) acc)"

definition interMembers :: "zset option \<Rightarrow> float64 \<Rightarrow> string \<Rightarrow> (string, float64) gomap \<Rightarrow> (string, float64) gomap" where
  "interMembers z w agg sc =
     (case z of None \<Rightarrow> [] | Some z \<Rightarrow> fold (interMember (scores z) w agg) sc [])"

fun zinterLoop :: "gotime \<Rightarrow> string list \<Rightarrow> nat \<Rightarrow> float64 list \<Rightarrow> string \<Rightarrow> MemoryStore
    \<Rightarrow> (string, float64) gomap \<Rightarrow> error + (string, float64) gomap" where
  "zinterLoop now [] i weights agg s acc = Inr acc"
| "zinterLoop now (k # ks) i weights agg s acc =
     (case getZSet now k s of
        Inl e \<Rightarrow> Inl e
      | Inr z \<Rightarrow> zinterLoop now ks (Suc i) weights agg s (interMembers z (weightAt weights i) agg acc))"

definition ZInterStore :: "gotime \<Rightarrow> string \<Rightarrow> string list \<Rightarrow> float64 list \<Rightarrow> string \<Rightarrow> MemoryStore
    \<Rightarrow> MemoryStore \<times> (error + int)" where
  "ZInterStore now dst keys weights agg s =
     (case keys of
        [] \<Rightarrow> (s, Inr 0)
      | key # ks \<Rightarrow>
          (case getZSet now key s of
             Inl e \<Rightarrow> (s, Inl e)
           | Inr first \<Rightarrow>
               let sc = (case first of
                           None \<Rightarrow> []
                         | Some z \<Rightarrow> fold (\<lambda>(m, c) acc. mput m (fmul c (weightAt weights 0)) acc) (scores z) [])
               in case zinterLoop now ks 1 weights agg s sc of
                    Inl e \<Rightarrow> (s, Inl e)
                  | Inr sc \<Rightarrow> storeZResult dst sc s))"

section \<open>Order\<close>

text \<open>
  On scores that are numbers the comparison of \<^verbatim>\<open>sortedMembers\<close> is a strict total order on the members
  of a map, so the sort has one result.  A NaN compares with nothing, and breaks it.
\<close>

interpretation zs: comparator zless "\<lambda>m. Score m \<noteq> NaN" Member
proof unfold_locales
  fix a b c :: ZMember
  show "\<not> zless a a" by (simp add: zless_def)
  assume ok: "Score a \<noteq> NaN" "Score b \<noteq> NaN"
  show "zless a c" if "Score c \<noteq> NaN" "zless a b" "zless b c"
    using that ok by (auto simp: zless_def flt_def feq_def split: if_splits)
  show "zless a b \<or> zless b a" if "Member a \<noteq> Member b"
    using that ok flt_total [of "Score a" "Score b"] feq_sym [of "Score a" "Score b"]
      feq_sym [of "Score b" "Score a"] linorder_less_linear [of "Member a" "Member b"]
    by (auto simp: zless_def)
qed

definition numeric :: "zset \<Rightarrow> bool" where
  "numeric z \<longleftrightarrow> (\<forall>(m, sc) \<in> set (scores z). sc \<noteq> NaN)"

lemma sortedMembers_set:
  "m \<in> set (sortedMembers z) \<longleftrightarrow> (Member m, Score m) \<in> set (scores z)"
  by (cases m) (auto simp: sortedMembers_def image_iff split: prod.splits intro: rev_bexI)

lemma sortedMembers_length [simp]: "length (sortedMembers z) = length (scores z)"
  by (simp add: sortedMembers_def)

lemma sortedMembers_distinct: "wf_map (scores z) \<Longrightarrow> distinct (map Member (sortedMembers z))"
  by (simp add: sortedMembers_def wf_map_def comp_def case_prod_beta)

lemma sortedMembers_members: "set (map Member (sortedMembers z)) = dom (map_of (scores z))"
  by (simp add: sortedMembers_def dom_map_of_conv_image_fst image_image case_prod_beta)

lemma sortedMembers_sorted:
  "wf_map (scores z) \<Longrightarrow> numeric z \<Longrightarrow> sorted_wrt zless (sortedMembers z)"
  unfolding sortedMembers_def
  by (rule zs.sortSlice_sorted) (auto simp: numeric_def wf_map_def comp_def case_prod_beta split: prod.splits)

section \<open>Reading\<close>

lemma getZSet_eq: "getZSet now key s = (if typeOf now key s = NoKey then Inr None
    else if typeOf now key s = TZSet then Inr (map_of (zsets s) key) else Inl ErrWrongType)"
  by (simp add: getZSet_def)

lemma typeOf_zsets:
  "wf_store s \<Longrightarrow> typeOf now key s = TZSet \<Longrightarrow>
     map_of (zsets s) key = Some \<lparr>scores = scoresAt key s\<rparr> \<and> wf_map (scoresAt key s) \<and>
     entry s key = Some (OZSet \<lparr>scores = scoresAt key s\<rparr>, deadline s key)"
  using wf_store_key [of s key]
  by (auto simp: typeOf_def entry_def container_def deadline_def scoresAt_def keyOk_def key_ok_def
      split: if_splits)

lemma rankLoop_eq:
  "rankLoop x ms i = (if x \<in> Member ` set ms then Some (i + int (length (takeWhile (\<lambda>m. Member m \<noteq> x) ms))) else None)"
  by (induction ms arbitrary: i) auto

lemma takeWhile_filter_less:
  assumes "sorted_wrt zless ms" and "\<forall>m \<in> set ms. Score m \<noteq> NaN" and "m \<in> set ms" and "distinct (map Member ms)"
  shows "takeWhile (\<lambda>x. Member x \<noteq> Member m) ms = filter (\<lambda>x. zless x m) ms"
  using assms
proof (induction ms)
  case (Cons y ms)
  show ?case
  proof (cases "y = m")
    case True
    have "\<not> zless x m" if "x \<in> set ms" for x
      using that Cons.prems zs.asym [of m x] True by simp
    then have "filter (\<lambda>x. zless x m) ms = []" by simp
    moreover have "\<not> zless m m" using Cons.prems(2) True zs.irrefl by simp
    ultimately show ?thesis using True by simp
  next
    case False
    then have "m \<in> set ms" using Cons.prems(3) by simp
    then have "Member y \<noteq> Member m" using Cons.prems(4) by force
    with \<open>m \<in> set ms\<close> show ?thesis using Cons by simp
  qed
qed simp

text \<open>The loop that skips and takes, as a slice of the hits.\<close>

definition limited :: "int \<Rightarrow> int \<Rightarrow> 'a list \<Rightarrow> 'a list" where
  "limited offset cnt xs =
     (if cnt < 0 then drop (nat offset) xs else take (nat cnt) (drop (nat offset) xs))"

lemma limitLoop_filter:
  "0 \<le> taken \<Longrightarrow> taken \<le> cnt \<or> cnt < 0 \<Longrightarrow> limitLoop hit offset cnt skipped taken ms =
     limited (offset - skipped) (if cnt < 0 then cnt else cnt - taken) (filter hit ms)"
proof (induction ms arbitrary: skipped taken)
  case (Cons m ms)
  consider (miss) "\<not> hit m" | (skip) "hit m" "skipped < offset"
    | (full) "hit m" "\<not> skipped < offset" "0 \<le> cnt" "cnt \<le> taken"
    | (take) "hit m" "\<not> skipped < offset" "\<not> (0 \<le> cnt \<and> cnt \<le> taken)"
    by blast
  then show ?case
  proof cases
    case miss
    then show ?thesis using Cons by simp
  next
    case skip
    then have "nat (offset - skipped) = Suc (nat (offset - (skipped + 1)))" by linarith
    with skip show ?thesis using Cons.IH [of taken "skipped + 1"] Cons.prems by (simp add: limited_def)
  next
    case full
    then show ?thesis using Cons.prems by (simp add: limited_def)
  next
    case take
    then have loop: "limitLoop hit offset cnt skipped taken (m # ms) =
        m # limitLoop hit offset cnt skipped (taken + 1) ms"
      by simp
    have "nat (cnt - taken) = Suc (nat (cnt - (taken + 1)))" if "\<not> cnt < 0"
      using take that by linarith
    then show ?thesis
      unfolding loop using take Cons.IH [of "taken + 1" skipped] Cons.prems
      by (cases "cnt < 0") (simp_all add: limited_def)
  qed
qed (simp add: limited_def)

lemma limitLoop_eq: "limitLoop hit offset cnt 0 0 ms = limited offset cnt (filter hit ms)"
  using limitLoop_filter [of 0 cnt hit offset 0 ms] by (cases "cnt < 0") simp_all

text \<open>On numbers the negated tests of the range loop say that the score lies between the bounds.\<close>

lemma scoreInRange_numeric:
  assumes "sc \<noteq> NaN" "lo \<noteq> NaN" "hi \<noteq> NaN"
  shows "scoreInRange lo hi loExcl hiExcl sc \<longleftrightarrow>
    (if loExcl then flt lo sc else fle lo sc) \<and> (if hiExcl then flt sc hi else fle sc hi)"
  using assms by (simp add: scoreInRange_def not_flt not_fle)

section \<open>Writing\<close>

lemma zaddStep_fst:
  "fst (zaddStep nx xx gt lt ch m (sc, n)) =
     (if (case map_of sc (Member m) of None \<Rightarrow> xx
          | Some old \<Rightarrow> nx \<or> (gt \<and> fle (Score m) old) \<or> (lt \<and> fle old (Score m)))
      then sc else mput (Member m) (Score m) sc)"
  by (simp add: zaddStep_def split: option.split)

text \<open>An invariant of the scores that one step keeps, the loop keeps.\<close>

lemma zadd_invariant:
  assumes "\<And>m sc n. m \<in> set ms \<Longrightarrow> P sc \<Longrightarrow> P (fst (zaddStep nx xx gt lt ch m (sc, n)))" and "P sc"
  shows "P (fst (fold (zaddStep nx xx gt lt ch) ms (sc, n)))"
  using assms
proof (induction ms arbitrary: sc n)
  case (Cons m ms)
  obtain sc' n' where st: "zaddStep nx xx gt lt ch m (sc, n) = (sc', n')" by fastforce
  then have "P sc'" using Cons.prems(1) [of m sc n] Cons.prems(2) by simp
  then show ?case using Cons.IH [of sc' n'] Cons.prems(1) by (simp add: st)
qed simp

lemma zadd_wf: "wf_map sc \<Longrightarrow> wf_map (fst (fold (zaddStep nx xx gt lt ch) ms (sc, n)))"
  by (rule zadd_invariant) (simp_all add: zaddStep_fst)

text \<open>Without options every given score is written, the last one of a repeated member.\<close>

lemma zadd_plain:
  "map_of (fst (fold (zaddStep False False False False ch) ms (sc, n))) =
     map_of sc ++ map_of (rev (map (\<lambda>m. (Member m, Score m)) ms))"
proof (induction ms arbitrary: sc n)
  case (Cons m ms)
  obtain sc' n' where st: "zaddStep False False False False ch m (sc, n) = (sc', n')" by fastforce
  then have "sc' = mput (Member m) (Score m) sc"
    using zaddStep_fst [of False False False False ch m sc n] by (simp split: option.splits)
  then show ?case using Cons.IH [of sc' n']
    by (simp add: st fun_eq_iff map_add_def split: option.split)
qed simp

lemma zadd_NX:
  "map_of sc k = Some v \<Longrightarrow> map_of (fst (fold (zaddStep True xx gt lt ch) ms (sc, n))) k = Some v"
  by (rule zadd_invariant [where P = "\<lambda>sc. map_of sc k = Some v"]) (auto simp: zaddStep_fst split: option.splits)

lemma zadd_XX: "dom (map_of (fst (fold (zaddStep nx True gt lt ch) ms (sc, n)))) = dom (map_of sc)"
  by (rule zadd_invariant [where P = "\<lambda>sc'. dom (map_of sc') = dom (map_of sc)"])
    (auto simp: zaddStep_fst split: option.splits if_splits)

lemma fle_trans: "fle a b \<Longrightarrow> fle b c \<Longrightarrow> fle a c"
  by (auto simp: fle_def dest: flt_trans flt_feq_trans feq_trans)

lemma zadd_GT:
  assumes "map_of sc k = Some v" and "v \<noteq> NaN" and "\<forall>m \<in> set ms. Score m \<noteq> NaN"
  shows "\<exists>w. map_of (fst (fold (zaddStep False xx True lt ch) ms (sc, n))) k = Some w \<and> w \<noteq> NaN \<and> fle v w"
proof (rule zadd_invariant [where P = "\<lambda>sc. \<exists>w. map_of sc k = Some w \<and> w \<noteq> NaN \<and> fle v w"])
  show "\<exists>w. map_of sc k = Some w \<and> w \<noteq> NaN \<and> fle v w"
    using assms by (simp add: fle_def feq_refl)
  fix m sc n
  assume m: "m \<in> set ms" and "\<exists>w. map_of sc k = Some w \<and> w \<noteq> NaN \<and> fle v w"
  then obtain w where w: "map_of sc k = Some w" "w \<noteq> NaN" "fle v w" by blast
  have num: "Score m \<noteq> NaN" using m assms(3) by simp
  have up: "fle v (Score m)" if "\<not> fle (Score m) w"
  proof (rule fle_trans [OF w(3)])
    show "fle w (Score m)" using that w(2) num not_fle [of "Score m" w] by (simp add: fle_def)
  qed
  show "\<exists>w. map_of (fst (zaddStep False xx True lt ch m (sc, n))) k = Some w \<and> w \<noteq> NaN \<and> fle v w"
    using w up num by (cases "Member m = k") (auto simp: zaddStep_fst)
qed

lemma zadd_count:
  "int (length (fst (fold (zaddStep nx xx gt lt False) ms (sc, n)))) - snd (fold (zaddStep nx xx gt lt False) ms (sc, n)) =
     int (length sc) - n"
proof (induction ms arbitrary: sc n)
  case (Cons m ms)
  obtain sc' n' where st: "zaddStep nx xx gt lt False m (sc, n) = (sc', n')" by fastforce
  then have "int (length sc') - n' = int (length sc) - n"
    by (auto simp: zaddStep_def length_mput_None length_mput_Some split: option.splits if_splits)
  then show ?case using Cons.IH [of sc' n'] by (simp add: st)
qed simp

lemma storeScores_obj:
  "storeScores key sc s = (if sc = [] then delObj TZSet key s else putObj key (OZSet \<lparr>scores = sc\<rparr>) s)"
  by (simp add: storeScores_def)

lemma storeScores_entry:
  assumes "wf_store s" and "fits s key TZSet" and "wf_map sc"
  shows "wf_store (storeScores key sc s)"
    and "entry (storeScores key sc s) =
      (entry s)(key := if sc = [] then None else Some (OZSet \<lparr>scores = sc\<rparr>, deadline s key))"
  using assms wf_store_delObj [OF assms(1,2)] wf_store_putObj [of s key "OZSet \<lparr>scores = sc\<rparr>"]
    entry_delObj [OF assms(1,2)] entry_putObj [of s key "OZSet \<lparr>scores = sc\<rparr>"]
  by (simp_all add: storeScores_obj)

lemma storeScores_frame:
  "k \<noteq> key \<Longrightarrow> same_at k (storeScores key sc s) t \<longleftrightarrow> same_at k s t"
  "Version k (storeScores key sc s) = Version k s"
  by (simp_all add: storeScores_def same_at_def Version_def)

lemma scoresAt_wf: "wf_store s \<Longrightarrow> wf_map (scoresAt k s)"
  using wf_store_key [of s k] by (auto simp: scoresAt_def keyOk_def key_ok_def split: option.splits)

lemma settled_zset:
  "wf_store s \<Longrightarrow> settled now s key \<Longrightarrow> typeOf now key s = NoKey \<or> typeOf now key s = TZSet \<Longrightarrow> fits s key TZSet"
  by (auto simp: settled_fits)

lemma ZAdd_putObj:
  "typeOf now key s = NoKey \<or> typeOf now key s = TZSet \<Longrightarrow> fst (ZAdd now key ms nx xx gt lt ch s) =
     bumpVersion key (putObj key (OZSet \<lparr>scores = fst (fold (zaddStep nx xx gt lt ch) ms (scoresAt key s, 0))\<rparr>) s)"
  by (auto simp: ZAdd_def Let_def case_prod_beta)

lemma wf_store_ZAdd:
  assumes "wf_store s" and "settled now s key"
  shows "wf_store (fst (ZAdd now key ms nx xx gt lt ch s))"
proof (cases "typeOf now key s = NoKey \<or> typeOf now key s = TZSet")
  case True
  then have "fits s key TZSet" using assms by (simp add: settled_zset)
  then show ?thesis unfolding ZAdd_putObj [OF True]
    using assms by (intro wf_store_bumpVersion wf_store_putObj) (simp_all add: zadd_wf scoresAt_wf)
qed (use assms in \<open>simp add: ZAdd_def\<close>)

lemma wf_store_ZIncrBy:
  assumes "wf_store s" and "settled now s key"
  shows "wf_store (fst (ZIncrBy now key inc m s))"
proof (cases "typeOf now key s = NoKey \<or> typeOf now key s = TZSet")
  case True
  then have "fits s key TZSet" using assms by (simp add: settled_zset)
  then have "wf_store (putObj key (OZSet \<lparr>scores = mput m f (scoresAt key s)\<rparr>) s)" for f
    using assms by (intro wf_store_putObj) (simp_all add: scoresAt_wf)
  then show ?thesis using True by (auto simp: ZIncrBy_def Let_def)
qed (use assms in \<open>simp add: ZIncrBy_def\<close>)

lemma wf_store_ZRem: "wf_store s \<Longrightarrow> wf_store (fst (ZRem now key ms s))"
  using typeOf_fits [of s now key TZSet] typeOf_zsets [of s now key]
  by (auto simp: ZRem_def getZSet_eq Let_def case_prod_beta storeScores_entry split: option.split)

lemma fold_mdel_members:
  "map_of (fold (\<lambda>m sc. mdel (Member m) sc) ms sc) = (\<lambda>k. if k \<in> Member ` set ms then None else map_of sc k)"
  "wf_map sc \<Longrightarrow> wf_map (fold (\<lambda>m sc. mdel (Member m) sc) ms sc)"
  by (induction ms arbitrary: sc) (auto simp: fun_eq_iff)

lemma wf_store_popMembers:
  assumes "wf_store s" and "fits s key TZSet" and "wf_map sc" and "popMembers key cnt ms sc s = Ret (s', r)"
  shows "wf_store s'"
  using assms(4) storeScores_entry(1) [OF assms(1,2)] fold_mdel_members(2) [OF assms(3)]
  by (auto simp: popMembers_def Let_def intro!: wf_store_bumpVersion split: if_splits)

lemma wf_store_ZPopMin: "wf_store s \<Longrightarrow> ZPopMin now key cnt s = Ret (s', r) \<Longrightarrow> wf_store s'"
  using typeOf_fits [of s now key TZSet] typeOf_zsets [of s now key]
  by (auto simp: ZPopMin_def getZSet_eq intro: wf_store_popMembers split: option.splits if_splits)

lemma wf_store_ZPopMax: "wf_store s \<Longrightarrow> ZPopMax now key cnt s = Ret (s', r) \<Longrightarrow> wf_store s'"
  using typeOf_fits [of s now key TZSet] typeOf_zsets [of s now key]
  by (auto simp: ZPopMax_def getZSet_eq intro: wf_store_popMembers split: option.splits if_splits)

lemma storeZResult_entry:
  assumes wf: "wf_store s" and sc: "wf_map sc"
  shows "wf_store (fst (storeZResult dst sc s))"
    and "entry (fst (storeZResult dst sc s)) =
      (entry s)(dst := if sc = [] then None else Some (OZSet \<lparr>scores = sc\<rparr>, None))"
proof -
  have fit: "fits (deleteKey dst s) dst (tagOf (OZSet \<lparr>scores = sc\<rparr>))"
    by (simp add: fits_def entry_deleteKey)
  have dl: "deadline (deleteKey dst s) dst = None" by (simp add: deadline_def entry_deleteKey)
  have wf': "wf_store (deleteKey dst s)" using wf by simp
  have eq: "fst (storeZResult dst sc s) = (if sc = [] then deleteKey dst s
      else bumpVersion dst (putObj dst (OZSet \<lparr>scores = sc\<rparr>) (deleteKey dst s)))"
    by (simp add: storeZResult_def Let_def)
  show "wf_store (fst (storeZResult dst sc s))"
    unfolding eq using wf wf_store_putObj [OF wf' fit] sc by simp
  show "entry (fst (storeZResult dst sc s)) =
      (entry s)(dst := if sc = [] then None else Some (OZSet \<lparr>scores = sc\<rparr>, None))"
    unfolding eq using entry_putObj [OF wf' fit] sc by (simp add: entry_deleteKey dl)
qed

subsection \<open>Union and intersection\<close>

definition zmembers :: "gotime \<Rightarrow> MemoryStore \<Rightarrow> string \<Rightarrow> string set" where
  "zmembers now s k = (case getZSet now k s of Inr (Some z) \<Rightarrow> dom (map_of (scores z)) | _ \<Rightarrow> {})"

definition zsetLike :: "gotime \<Rightarrow> MemoryStore \<Rightarrow> string \<Rightarrow> bool" where
  "zsetLike now s k \<longleftrightarrow> typeOf now k s = NoKey \<or> typeOf now k s = TZSet"

lemma unionMember_mput: "\<exists>f. unionMember w agg x acc = mput (fst x) f acc"
  by (cases x; cases "map_of acc (fst x)") (auto simp: unionMember_def)

lemma fold_unionMember_dom:
  "dom (map_of (fold (unionMember w agg) xs acc)) = dom (map_of acc) \<union> fst ` set xs"
proof (induction xs arbitrary: acc)
  case (Cons x xs)
  obtain f where "unionMember w agg x acc = mput (fst x) f acc" using unionMember_mput by blast
  then show ?case using Cons.IH [of "mput (fst x) f acc"] by auto
qed simp

lemma fold_unionMember_wf: "wf_map acc \<Longrightarrow> wf_map (fold (unionMember w agg) xs acc)"
proof (induction xs arbitrary: acc)
  case (Cons x xs)
  obtain f where "unionMember w agg x acc = mput (fst x) f acc" using unionMember_mput by blast
  then show ?case using Cons.IH [of "mput (fst x) f acc"] Cons.prems by simp
qed simp

lemma zunionLoop_spec:
  assumes "\<forall>k \<in> set ks. zsetLike now s k"
  shows "\<exists>r. zunionLoop now ks i weights agg s acc = Inr r \<and> (wf_map acc \<longrightarrow> wf_map r) \<and>
    dom (map_of r) = dom (map_of acc) \<union> (\<Union>k \<in> set ks. zmembers now s k)"
  using assms
proof (induction ks arbitrary: i acc)
  case (Cons k ks)
  obtain z where z: "getZSet now k s = Inr z" using Cons.prems by (auto simp: zsetLike_def getZSet_eq)
  show ?case
  proof (cases z)
    case None
    then show ?thesis using Cons.IH [of "Suc i" acc] Cons.prems z by (simp add: zmembers_def)
  next
    case (Some zs)
    let ?acc = "fold (unionMember (weightAt weights i) agg) (scores zs) acc"
    show ?thesis using Cons.IH [of "Suc i" ?acc] Cons.prems z Some 
        fold_unionMember_dom [of "weightAt weights i" agg "scores zs" acc]
        fold_unionMember_wf [of acc "weightAt weights i" agg "scores zs"]
      by (auto simp: zmembers_def dom_map_of_conv_image_fst)
  qed
qed simp

lemma interMember_apply:
  "interMember zm w agg (m, c) acc = (case map_of zm m of None \<Rightarrow> acc
     | Some zsc \<Rightarrow> mput m (applyAggregate c (fmul zsc w) agg) acc)"
  by (simp add: interMember_def)

lemma fold_interMember_dom:
  "dom (map_of (fold (interMember zm w agg) sc acc)) = dom (map_of acc) \<union> fst ` set sc \<inter> dom (map_of zm)"
proof (induction sc arbitrary: acc)
  case (Cons x sc)
  show ?case by (cases x; cases "map_of zm (fst x)") (auto simp: Cons.IH interMember_apply split: if_splits)
qed simp

lemma fold_interMember_wf: "wf_map acc \<Longrightarrow> wf_map (fold (interMember zm w agg) sc acc)"
  by (induction sc arbitrary: acc) (auto simp: interMember_def split: option.split prod.split)

lemma interMembers_spec:
  "dom (map_of (interMembers z w agg sc)) =
     fst ` set sc \<inter> (case z of None \<Rightarrow> {} | Some z \<Rightarrow> dom (map_of (scores z)))"
  "wf_map (interMembers z w agg sc)"
  by (cases z; simp add: interMembers_def fold_interMember_dom fold_interMember_wf)+

lemma zinterLoop_spec:
  assumes "\<forall>k \<in> set ks. zsetLike now s k"
  shows "\<exists>r. zinterLoop now ks i weights agg s acc = Inr r \<and> (wf_map acc \<longrightarrow> wf_map r) \<and>
    dom (map_of r) = dom (map_of acc) \<inter> (\<Inter>k \<in> set ks. zmembers now s k)"
  using assms
proof (induction ks arbitrary: i acc)
  case (Cons k ks)
  obtain z where z: "getZSet now k s = Inr z" using Cons.prems by (auto simp: zsetLike_def getZSet_eq)
  let ?acc = "interMembers z (weightAt weights i) agg acc"
  have "dom (map_of ?acc) = dom (map_of acc) \<inter> zmembers now s k"
    unfolding interMembers_spec(1) by (simp add: z zmembers_def dom_map_of_conv_image_fst split: option.split)
  then show ?case using Cons.IH [of "Suc i" ?acc] Cons.prems z
      interMembers_spec(2) [of z "weightAt weights i" agg acc]
    by auto
qed simp

lemma wf_store_ZUnionStore:
  assumes "wf_store s"
  shows "wf_store (fst (ZUnionStore now dst keys weights agg s))"
proof -
  have "wf_map r" if "zunionLoop now ks i weights agg s acc = Inr r" "wf_map acc" for ks i acc r
    using that
    by (induction ks arbitrary: i acc)
      (auto split: sum.splits option.splits intro: fold_unionMember_wf)
  then show ?thesis using assms storeZResult_entry(1)
    by (auto simp: ZUnionStore_def split: sum.split)
qed

lemma wf_store_ZInterStore:
  assumes "wf_store s"
  shows "wf_store (fst (ZInterStore now dst keys weights agg s))"
proof -
  have loop: "wf_map r" if "zinterLoop now ks i weights agg s acc = Inr r" "wf_map acc" for ks i acc r
    using that
    by (induction ks arbitrary: i acc) (auto split: sum.splits simp: interMembers_spec(2))
  have first: "wf_map (fold (\<lambda>(m, c) acc. mput m (fmul c w) acc) sc [])" for w sc
  proof -
    have "wf_map acc \<Longrightarrow> wf_map (fold (\<lambda>(m, c) acc. mput m (fmul c w) acc) sc acc)" for acc
      by (induction sc arbitrary: acc) auto
    then show ?thesis by simp
  qed
  show ?thesis using assms
    by (auto simp: ZInterStore_def Let_def first intro!: storeZResult_entry(1)
        intro: loop [OF _ first] loop [OF _ wf_map_Nil] split: sum.split option.split list.split)
qed

section \<open>Versions\<close>

lemma versioned_ZAdd: "versioned (fst (ZAdd now key ms nx xx gt lt ch s)) s"
  unfolding ZAdd_def by (simp add: Let_def case_prod_beta versioned_write same_at_def Version_def)

lemma versioned_ZIncrBy: "versioned (fst (ZIncrBy now key inc m s)) s"
  unfolding ZIncrBy_def by (simp add: Let_def versioned_write same_at_def Version_def)

lemma versioned_ZRem: "versioned (fst (ZRem now key ms s)) s"
  by (simp add: ZRem_def Let_def case_prod_beta versioned_write storeScores_frame split: sum.split option.split)

lemma versioned_popMembers: "popMembers key cnt ms sc s = Ret (s', r) \<Longrightarrow> versioned s' s"
  by (auto simp: popMembers_def Let_def versioned_write storeScores_frame split: if_splits)

lemma versioned_ZPopMin: "ZPopMin now key cnt s = Ret (s', r) \<Longrightarrow> versioned s' s"
  by (auto simp: ZPopMin_def dest: versioned_popMembers split: sum.splits option.splits if_splits)

lemma versioned_ZPopMax: "ZPopMax now key cnt s = Ret (s', r) \<Longrightarrow> versioned s' s"
  by (auto simp: ZPopMax_def dest: versioned_popMembers split: sum.splits option.splits if_splits)

lemma versioned_storeZResult: "sc \<noteq> [] \<Longrightarrow> versioned (fst (storeZResult dst sc s)) s"
  by (simp add: storeZResult_def Let_def versioned_write same_at_def Version_def)

end
