(* ===== verification/GoGlob.thy ===== *)
theory GoGlob
  imports GoPrelude
begin

text \<open>
  \<^verbatim>\<open>path/filepath.Match\<close> on Unix, which \<^verbatim>\<open>KEYS\<close>, the scan commands and \<^verbatim>\<open>PSUBSCRIBE\<close> use for
  their patterns.  \<open>Match\<close> is the boolean result (a bad pattern is a pattern that does not match) and
  \<open>MatchErr\<close> says whether the error result is \<^verbatim>\<open>ErrBadPattern\<close>, which only \<^verbatim>\<open>KEYS\<close> looks at.

  The pattern is cut at its stars into chunks; a chunk is matched at the current position and, after a
  star, at every later one up to the next separator.  Classes and \<^verbatim>\<open>?\<close> consume one UTF-8 rune.
\<close>

section \<open>UTF-8\<close>

definition byte :: "char \<Rightarrow> nat" where "byte c = of_char c"

definition isCont :: "nat \<Rightarrow> nat \<Rightarrow> char \<Rightarrow> bool" where
  "isCont lo hi c \<longleftrightarrow> lo \<le> byte c \<and> byte c \<le> hi"

definition runeError :: nat where "runeError = 0xFFFD"

text \<open>\<^verbatim>\<open>utf8.DecodeRuneInString\<close>: the rune and its width.\<close>

definition decodeRune :: "string \<Rightarrow> nat \<times> nat" where
  "decodeRune s =
     (case s of
        [] \<Rightarrow> (runeError, 0)
      | c0 # r \<Rightarrow>
          let b0 = byte c0;
              lo = (if b0 = 0xE0 then 0xA0 else if b0 = 0xF0 then 0x90 else 0x80);
              hi = (if b0 = 0xED then 0x9F else if b0 = 0xF4 then 0x8F else 0xBF)
          in if b0 < 0x80 then (b0, 1)
             else if 0xC2 \<le> b0 \<and> b0 \<le> 0xDF then
               (case r of
                  c1 # _ \<Rightarrow>
                    if isCont lo hi c1 then ((b0 - 0xC0) * 64 + (byte c1 - 0x80), 2) else (runeError, 1)
                | _ \<Rightarrow> (runeError, 1))
             else if 0xE0 \<le> b0 \<and> b0 \<le> 0xEF then
               (case r of
                  c1 # c2 # _ \<Rightarrow>
                    if isCont lo hi c1 \<and> isCont 0x80 0xBF c2
                    then ((b0 - 0xE0) * 4096 + (byte c1 - 0x80) * 64 + (byte c2 - 0x80), 3)
                    else (runeError, 1)
                | _ \<Rightarrow> (runeError, 1))
             else if 0xF0 \<le> b0 \<and> b0 \<le> 0xF4 then
               (case r of
                  c1 # c2 # c3 # _ \<Rightarrow>
                    if isCont lo hi c1 \<and> isCont 0x80 0xBF c2 \<and> isCont 0x80 0xBF c3
                    then ((b0 - 0xF0) * 262144 + (byte c1 - 0x80) * 4096 + (byte c2 - 0x80) * 64
                          + (byte c3 - 0x80), 4)
                    else (runeError, 1)
                | _ \<Rightarrow> (runeError, 1))
             else (runeError, 1))"

section \<open>Chunks\<close>

text \<open>The position where the chunk ends: the first star outside a class.\<close>

fun chunkEnd :: "bool \<Rightarrow> string \<Rightarrow> nat" where
  "chunkEnd inrange [] = 0"
| "chunkEnd inrange [c] = (if c = CHR ''*'' \<and> \<not> inrange then 0 else 1)"
| "chunkEnd inrange (c # d # p) =
     (if c = CHR 0x5C then Suc (Suc (chunkEnd inrange p))
      else if c = CHR ''['' then Suc (chunkEnd True (d # p))
      else if c = CHR '']'' then Suc (chunkEnd False (d # p))
      else if c = CHR ''*'' \<and> \<not> inrange then 0
      else Suc (chunkEnd inrange (d # p)))"

definition scanChunk :: "string \<Rightarrow> bool \<times> string \<times> string" where
  "scanChunk pattern =
     (let p = dropWhile (\<lambda>c. c = CHR ''*'') pattern; i = chunkEnd False p
      in (p \<noteq> pattern, take i p, drop i p))"

text \<open>A possibly escaped rune of a class; \<open>None\<close> is \<^verbatim>\<open>ErrBadPattern\<close>.\<close>

definition getEsc :: "string \<Rightarrow> (nat \<times> string) option" where
  "getEsc chunk =
     (case chunk of
        [] \<Rightarrow> None
      | c # r \<Rightarrow>
          if c = CHR ''-'' \<or> c = CHR '']'' then None
          else
            let chunk = (if c = CHR 0x5C then r else chunk);
                (x, n) = decodeRune chunk
            in if chunk = [] \<or> x = runeError \<and> n = 1 \<or> drop n chunk = [] then None
               else Some (x, drop n chunk))"

datatype charClass = BadClass | CharClass bool string

lemma decodeRune_pos: "s \<noteq> [] \<Longrightarrow> 0 < snd (decodeRune s)"
  by (cases s) (auto simp: decodeRune_def Let_def split: list.splits)

lemma getEsc_shorter: "getEsc chunk = Some (x, r) \<Longrightarrow> length r < length chunk"
  using decodeRune_pos [of chunk] decodeRune_pos [of "tl chunk"]
  by (auto simp: getEsc_def Let_def split: list.splits if_splits prod.splits)

text \<open>The ranges of a class up to its bracket, and whether one of them holds the rune.\<close>

function ranges :: "nat \<Rightarrow> bool \<Rightarrow> bool \<Rightarrow> string \<Rightarrow> charClass" where
  "ranges x found started chunk =
     (if started \<and> chunk \<noteq> [] \<and> hd chunk = CHR '']'' then CharClass found (tl chunk)
      else
        case getEsc chunk of
          None \<Rightarrow> BadClass
        | Some (lo, r) \<Rightarrow>
            if r \<noteq> [] \<and> hd r = CHR ''-'' then
              (case getEsc (tl r) of
                 None \<Rightarrow> BadClass
               | Some (hi, r') \<Rightarrow> ranges x (found \<or> lo \<le> x \<and> x \<le> hi) True r')
            else ranges x (found \<or> x = lo) True r)"
  by pat_completeness auto

termination
proof (relation "measure (\<lambda>(x, found, started, chunk). length chunk)", simp)
  fix x found started chunk lo r hi r' p q
  assume esc: "getEsc chunk = Some p" "(lo, r) = p"
  then have lt: "length r < length chunk" using getEsc_shorter [of chunk lo r] by simp
  then show "((x, found \<or> x = lo, True, r), x, found, started, chunk)
      \<in> measure (\<lambda>(x, found, started, chunk). length chunk)" by simp
  assume "getEsc (tl r) = Some q" "(hi, r') = q"
  then have "length r' < length (tl r)" using getEsc_shorter [of "tl r" hi r'] by simp
  with lt show "((x, found \<or> lo \<le> x \<and> x \<le> hi, True, r'), x, found, started, chunk)
      \<in> measure (\<lambda>(x, found, started, chunk). length chunk)" by simp
qed

declare ranges.simps [simp del]

lemma ranges_shorter: "ranges x found started chunk = CharClass b r \<Longrightarrow> length r < length chunk"
proof (induction x found started chunk rule: ranges.induct)
  case (1 x found started chunk)
  show ?case
  proof (cases "started \<and> chunk \<noteq> [] \<and> hd chunk = CHR '']''")
    case True
    then have "ranges x found started chunk = CharClass found (tl chunk)" by (simp add: ranges.simps)
    with 1(3) True show ?thesis by auto
  next
    case False
    then obtain lo r' where esc: "getEsc chunk = Some (lo, r')"
      using 1(3) by (auto simp: ranges.simps [of x found] split: option.splits)
    note lt = getEsc_shorter [OF esc]
    show ?thesis
    proof (cases "r' \<noteq> [] \<and> hd r' = CHR ''-''")
      case True
      then obtain hi r'' where esc2: "getEsc (tl r') = Some (hi, r'')"
        and "ranges x (found \<or> lo \<le> x \<and> x \<le> hi) True r'' = CharClass b r"
        using 1(3) False esc by (auto simp: ranges.simps [of x found] split: option.splits)
      then have "length r < length r''" using 1(1) [OF False esc] True by simp
      with lt getEsc_shorter [OF esc2] show ?thesis by simp
    next
      case no: False
      then have "ranges x (found \<or> x = lo) True r' = CharClass b r"
        using 1(3) False esc by (auto simp: ranges.simps [of x found])
      then have "length r < length r'" using 1(2) [OF False esc] no by auto
      with lt show ?thesis by simp
    qed
  qed
qed

datatype chunkMatch = BadPattern | NoMatch | Rest string

text \<open>
  After a mismatch the loop goes on over the chunk, only to check that it is well formed.
\<close>

definition negatedClass :: "string \<Rightarrow> bool \<times> string" where
  "negatedClass chunk =
     (case chunk of
        d # r \<Rightarrow> if d = CHR ''^'' then (True, r) else (False, chunk)
      | [] \<Rightarrow> (False, []))"

lemma negatedClass_length: "length (snd (negatedClass chunk)) \<le> length chunk"
  by (simp add: negatedClass_def split: list.split)

function matchChunk :: "bool \<Rightarrow> string \<Rightarrow> string \<Rightarrow> chunkMatch" where
  "matchChunk failed [] s = (if failed then NoMatch else Rest s)"
| "matchChunk failed (c # chunk) s =
     (let failed = (failed \<or> s = [])
      in if c = CHR ''['' then
           (let (x, n) = (if failed then (0, 0) else decodeRune s); (neg, chunk') = negatedClass chunk
            in case ranges x False False chunk' of
                 BadClass \<Rightarrow> BadPattern
               | CharClass found r \<Rightarrow> matchChunk (failed \<or> found = neg) r (drop n s))
         else if c = CHR ''?'' then
           matchChunk (failed \<or> hd s = CHR ''/'') chunk (if failed then s else drop (snd (decodeRune s)) s)
         else if c = CHR 0x5C then
           (case chunk of
              [] \<Rightarrow> BadPattern
            | d # chunk' \<Rightarrow> matchChunk (failed \<or> d \<noteq> hd s) chunk' (if failed then s else tl s))
         else matchChunk (failed \<or> c \<noteq> hd s) chunk (if failed then s else tl s))"
  by pat_completeness auto

termination
proof (relation "measure (\<lambda>(failed, chunk, s). length chunk)")
  show "wf (measure (\<lambda>(failed :: bool, chunk :: string, s :: string). length chunk))" by simp
next
  fix failed c chunk s failed' p x n q neg chunk' found r
  assume "q = negatedClass chunk" "(neg, chunk') = q" "ranges x False False chunk' = CharClass found r"
  then have "chunk' = snd (negatedClass chunk)" "length r < length chunk'"
    using ranges_shorter [of x False False chunk' found r] by (metis snd_conv, simp)
  then have "length r < length chunk" using negatedClass_length [of chunk] by simp
  then show "((failed' \<or> found = neg, r, drop n s), failed, c # chunk, s) \<in> measure (\<lambda>(failed, chunk, s). length chunk)"
    by simp
qed auto

fun starLoop :: "string \<Rightarrow> bool \<Rightarrow> string \<Rightarrow> chunkMatch" where
  "starLoop chunk isLast [] = NoMatch"
| "starLoop chunk isLast (c # name) =
     (if c = CHR ''/'' then NoMatch
      else
        case matchChunk False chunk name of
          Rest t \<Rightarrow> if isLast \<and> t \<noteq> [] then starLoop chunk isLast name else Rest t
        | NoMatch \<Rightarrow> starLoop chunk isLast name
        | BadPattern \<Rightarrow> BadPattern)"

lemma chunkEnd_pos: "p \<noteq> [] \<Longrightarrow> hd p \<noteq> CHR ''*'' \<Longrightarrow> 0 < chunkEnd False p"
  by (cases "(False, p)" rule: chunkEnd.cases) auto

lemma scanChunk_shorter:
  assumes "p \<noteq> []"
  shows "length (snd (snd (scanChunk p))) < length p"
proof -
  let ?star = "\<lambda>c. c = CHR ''*''"
  let ?q = "dropWhile ?star p"
  have len: "length p = length (takeWhile ?star p) + length ?q"
    by (simp flip: length_append)
  show ?thesis
  proof (cases "takeWhile ?star p = []")
    case True
    then have "?q = p" using takeWhile_dropWhile_id [of ?star p] by simp
    moreover have "hd p \<noteq> CHR ''*''" using True assms by (cases p) (auto split: if_splits)
    ultimately show ?thesis using chunkEnd_pos [OF assms] assms by (simp add: scanChunk_def Let_def)
  next
    case False
    then have "length ?q < length p" using len by simp
    then show ?thesis by (simp add: scanChunk_def Let_def)
  qed
qed

lemma scanChunk_rest:
  "p \<noteq> [] \<Longrightarrow> x = scanChunk p \<Longrightarrow> (star, y) = x \<Longrightarrow> (chunk, p') = y \<Longrightarrow> length p' < length p"
  using scanChunk_shorter [of p] by (cases "scanChunk p") auto

function Match :: "string \<Rightarrow> string \<Rightarrow> bool" where
  "Match pattern name =
     (if pattern = [] then name = []
      else
        let (star, chunk, pattern') = scanChunk pattern
        in if star \<and> chunk = [] then CHR ''/'' \<notin> set name
           else
             case matchChunk False chunk name of
               Rest t \<Rightarrow>
                 if t = [] \<or> pattern' \<noteq> [] then Match pattern' t
                 else if star then
                   (case starLoop chunk (pattern' = []) name of Rest t \<Rightarrow> Match pattern' t | _ \<Rightarrow> False)
                 else False
             | BadPattern \<Rightarrow> False
             | NoMatch \<Rightarrow>
                 if star then
                   (case starLoop chunk (pattern' = []) name of Rest t \<Rightarrow> Match pattern' t | _ \<Rightarrow> False)
                 else False)"
  by pat_completeness auto

termination
proof (relation "measure (\<lambda>(pattern, name). length pattern)")
  show "wf (measure (\<lambda>(pattern :: string, name :: string). length pattern))" by simp
qed (simp_all add: scanChunk_rest)

declare Match.simps [simp del]

text \<open>Before \<^verbatim>\<open>Match\<close> answers no, it checks that the rest of the pattern is well formed.\<close>

function badRest :: "string \<Rightarrow> bool" where
  "badRest pattern =
     (if pattern = [] then False
      else
        let (_, chunk, pattern') = scanChunk pattern
        in matchChunk False chunk [] = BadPattern \<or> badRest pattern')"
  by pat_completeness auto

termination
proof (relation "measure length")
  show "wf (measure (length :: string \<Rightarrow> nat))" by simp
qed (simp add: scanChunk_rest)

declare badRest.simps [simp del]

function MatchErr :: "string \<Rightarrow> string \<Rightarrow> bool" where
  "MatchErr pattern name =
     (if pattern = [] then False
      else
        let (star, chunk, pattern') = scanChunk pattern;
            skip = (if star then starLoop chunk (pattern' = []) name else NoMatch)
        in if star \<and> chunk = [] then False
           else
             case (case matchChunk False chunk name of
                     Rest t \<Rightarrow> if t = [] \<or> pattern' \<noteq> [] then Rest t else skip
                   | BadPattern \<Rightarrow> BadPattern
                   | NoMatch \<Rightarrow> skip) of
               Rest t \<Rightarrow> MatchErr pattern' t
             | BadPattern \<Rightarrow> True
             | NoMatch \<Rightarrow> badRest pattern')"
  by pat_completeness auto

termination
proof (relation "measure (\<lambda>(pattern, name). length pattern)")
  show "wf (measure (\<lambda>(pattern :: string, name :: string). length pattern))" by simp
qed (simp add: scanChunk_rest)

declare MatchErr.simps [simp del]

section \<open>Plain patterns\<close>

definition plain :: "char \<Rightarrow> bool" where
  "plain c \<longleftrightarrow> c \<notin> {CHR ''*'', CHR ''?'', CHR ''['', CHR 0x5C}"

lemma matchChunk_plain:
  "\<forall>c \<in> set p. plain c \<Longrightarrow> matchChunk failed p s =
     (if \<not> failed \<and> take (length p) s = p then Rest (drop (length p) s) else NoMatch)"
proof (induction p arbitrary: failed s)
  case (Cons c p)
  have "matchChunk failed (c # p) s =
      matchChunk (failed \<or> s = [] \<or> c \<noteq> hd s) p (if failed \<or> s = [] then s else tl s)"
    using Cons.prems by (simp add: plain_def Let_def)
  then show ?case using Cons.IH Cons.prems by (cases s) auto
qed simp

lemma chunkEnd_plain:
  "\<forall>c \<in> set p. plain c \<Longrightarrow> q = [] \<or> hd q = CHR ''*'' \<Longrightarrow> chunkEnd False (p @ q) = length p"
proof (induction p)
  case Nil
  then show ?case by (cases "(False, q)" rule: chunkEnd.cases) auto
next
  case (Cons c p)
  show ?case
  proof (cases "p @ q")
    case Nil
    then show ?thesis using Cons.prems by (auto simp: plain_def)
  next
    case (Cons d r)
    then show ?thesis using Cons.IH Cons.prems by (auto simp: plain_def)
  qed
qed

lemma scanChunk_plain:
  assumes "\<forall>c \<in> set p. plain c" and "q = [] \<or> hd q = CHR ''*''" and "p \<noteq> []"
  shows "scanChunk (p @ q) = (False, p, q)"
proof -
  have "dropWhile (\<lambda>c. c = CHR ''*'') (p @ q) = p @ q"
    using assms(1,3) by (cases p) (auto simp: plain_def)
  then show ?thesis using chunkEnd_plain [OF assms(1,2)] by (simp add: scanChunk_def Let_def)
qed

lemma Match_literal:
  assumes "\<forall>c \<in> set p. plain c"
  shows "Match p name \<longleftrightarrow> name = p"
proof (cases "p = []")
  case False
  then have "scanChunk p = (False, p, [])" using scanChunk_plain [OF assms, of "[]"] by simp
  then show ?thesis using False matchChunk_plain [OF assms, of False name]
    by (auto simp: Match.simps [of p] Match.simps [of "[]"])
qed (simp add: Match.simps)

lemma Match_star: "Match ''*'' name \<longleftrightarrow> CHR ''/'' \<notin> set name"
  by (simp add: Match.simps scanChunk_def)

lemma Match_prefix:
  assumes "\<forall>c \<in> set p. plain c"
  shows "Match (p @ ''*'') name \<longleftrightarrow> (\<exists>r. name = p @ r \<and> CHR ''/'' \<notin> set r)"
proof (cases "p = []")
  case False
  then have "scanChunk (p @ ''*'') = (False, p, ''*'')" using scanChunk_plain [OF assms, of "''*''"] by simp
  then have "Match (p @ ''*'') name \<longleftrightarrow> take (length p) name = p \<and> CHR ''/'' \<notin> set (drop (length p) name)"
    using False matchChunk_plain [OF assms, of False name]
    by (subst Match.simps) (simp add: Match_star)
  then show ?thesis by (metis append_eq_conv_conj append_take_drop_id)
qed (simp add: Match_star)

end
