(* ===== verification/StoreScan.thy ===== *)
theory StoreScan
  imports StoreZSet GoGlob
begin

text \<open>
  Key enumeration of \<^verbatim>\<open>internal/storage/memory.go\<close>: \<^verbatim>\<open>Keys\<close>, \<^verbatim>\<open>allKeys\<close> and the cursor reads
  \<^verbatim>\<open>Scan\<close>, \<^verbatim>\<open>HScan\<close>, \<^verbatim>\<open>SScan\<close>, \<^verbatim>\<open>ZScan\<close>.  A cursor is an index into a sorted snapshot that is
  taken anew by every call.
\<close>

section \<open>Operations\<close>

definition nonStrKeys :: "gotime \<Rightarrow> MemoryStore \<Rightarrow> string list" where
  "nonStrKeys now s =
     filter (\<lambda>k. \<not> keyExpiredNonStr now k s) (mkeys (hashes s)) @
     filter (\<lambda>k. \<not> keyExpiredNonStr now k s) (mkeys (lists s)) @
     filter (\<lambda>k. \<not> keyExpiredNonStr now k s) (mkeys (sets s)) @
     filter (\<lambda>k. \<not> keyExpiredNonStr now k s) (mkeys (zsets s))"

definition Keys :: "gotime \<Rightarrow> string \<Rightarrow> MemoryStore \<Rightarrow> string list" where
  "Keys now pattern s =
     filter (Match pattern)
       (mkeys (filter (\<lambda>(k, e). \<not> (expiresAt e \<noteq> zeroTime \<and> expiresAt e < now)) (strings s)) @ nonStrKeys now s)"

definition allKeys :: "gotime \<Rightarrow> MemoryStore \<Rightarrow> string list" where
  "allKeys now s =
     sortStrings
       (mkeys (filter (\<lambda>(k, e). expiresAt e = zeroTime \<or> now < expiresAt e) (strings s)) @ nonStrKeys now s)"

definition scanMatch :: "string \<Rightarrow> string \<Rightarrow> bool" where
  "scanMatch pat k \<longleftrightarrow> pat = [] \<or> pat = ''*'' \<or> Match pat k"

text \<open>
  The loop \<^verbatim>\<open>for int(pos-cursor) < count && pos < total\<close> over the rest of the snapshot, with the number
  of elements visited; \<open>emit\<close> is what it appends for a hit.
\<close>

fun scanLoop :: "('a \<Rightarrow> bool) \<Rightarrow> ('a \<Rightarrow> string list) \<Rightarrow> int \<Rightarrow> nat \<Rightarrow> 'a list \<Rightarrow> nat \<times> string list" where
  "scanLoop hit emit cnt n [] = (n, [])"
| "scanLoop hit emit cnt n (x # xs) =
     (if int n < cnt
      then let (m, r) = scanLoop hit emit cnt (Suc n) xs in (m, (if hit x then emit x else []) @ r)
      else (n, []))"

definition scanPage :: "('a \<Rightarrow> bool) \<Rightarrow> ('a \<Rightarrow> string list) \<Rightarrow> 'a list \<Rightarrow> nat \<Rightarrow> int \<Rightarrow> nat \<times> string list" where
  "scanPage hit emit xs cursor cnt =
     (let cnt = (if cnt \<le> 0 then 10 else cnt);
          total = length xs;
          cursor = (if total \<le> cursor then 0 else cursor);
          (n, result) = scanLoop hit emit cnt 0 (drop cursor xs);
          pos = cursor + n
      in (if total \<le> pos then 0 else pos, result))"

definition Scan :: "gotime \<Rightarrow> nat \<Rightarrow> string \<Rightarrow> int \<Rightarrow> MemoryStore \<Rightarrow> nat \<times> string list" where
  "Scan now cursor pat cnt s =
     (let keys = allKeys now s
      in if length keys = 0 then (0, []) else scanPage (scanMatch pat) (\<lambda>k. [k]) keys cursor cnt)"

definition HScan :: "gotime \<Rightarrow> string \<Rightarrow> nat \<Rightarrow> string \<Rightarrow> int \<Rightarrow> MemoryStore \<Rightarrow> error + nat \<times> string list" where
  "HScan now key cursor pat cnt s =
     (case map_of (hashes s) key of
        None \<Rightarrow> Inr (0, [])
      | Some h \<Rightarrow>
          if keyExpiredNonStr now key s then Inr (0, [])
          else if typeOf now key s \<noteq> THash then Inl ErrWrongType
          else Inr (scanPage (scanMatch pat) (\<lambda>f. [f, (case map_of h f of None \<Rightarrow> [] | Some v \<Rightarrow> v)])
                     (sortStrings (mkeys h)) cursor cnt))"

definition SScan :: "gotime \<Rightarrow> string \<Rightarrow> nat \<Rightarrow> string \<Rightarrow> int \<Rightarrow> MemoryStore \<Rightarrow> error + nat \<times> string list" where
  "SScan now key cursor pat cnt s =
     (case map_of (sets s) key of
        None \<Rightarrow> Inr (0, [])
      | Some st \<Rightarrow>
          if keyExpiredNonStr now key s then Inr (0, [])
          else if typeOf now key s \<noteq> TSet then Inl ErrWrongType
          else Inr (scanPage (scanMatch pat) (\<lambda>m. [m]) (sortStrings (mkeys st)) cursor cnt))"

definition ZScan :: "gotime \<Rightarrow> string \<Rightarrow> nat \<Rightarrow> string \<Rightarrow> int \<Rightarrow> MemoryStore \<Rightarrow> error + nat \<times> string list" where
  "ZScan now key cursor pat cnt s =
     (case map_of (zsets s) key of
        None \<Rightarrow> Inr (0, [])
      | Some z \<Rightarrow>
          if keyExpiredNonStr now key s then Inr (0, [])
          else if typeOf now key s \<noteq> TZSet then Inl ErrWrongType
          else Inr (scanPage (\<lambda>m. scanMatch pat (Member m)) (\<lambda>m. [Member m, formatScore (Score m)])
                     (sortedMembers z) cursor cnt))"

section \<open>A page\<close>

lemma scanLoop_eq:
  "scanLoop hit emit cnt n xs =
     (n + min (nat (cnt - int n)) (length xs), concat (map emit (filter hit (take (nat (cnt - int n)) xs))))"
proof (induction xs arbitrary: n)
  case (Cons x xs)
  show ?case
  proof (cases "int n < cnt")
    case True
    then have "nat (cnt - int n) = Suc (nat (cnt - int (Suc n)))" by simp
    then show ?thesis using True Cons.IH [of "Suc n"] by simp
  qed simp
qed simp

text \<open>One page from a cursor inside the snapshot.\<close>

lemma scanPage_eq:
  assumes "0 < cnt" and "cursor < length xs"
  shows "scanPage hit emit xs cursor cnt =
    (if length xs \<le> cursor + nat cnt then 0 else cursor + nat cnt,
     concat (map emit (filter hit (take (nat cnt) (drop cursor xs)))))"
  using assms by (auto simp: scanPage_def Let_def scanLoop_eq min_def)

text \<open>The client's loop: call again with the returned cursor until it is zero.\<close>

fun scanAll :: "nat \<Rightarrow> (nat \<Rightarrow> nat \<times> string list) \<Rightarrow> nat \<Rightarrow> string list option" where
  "scanAll 0 page cursor = None"
| "scanAll (Suc fuel) page cursor =
     (let (next, r) = page cursor
      in if next = 0 then Some r else map_option (\<lambda>rs. r @ rs) (scanAll fuel page next))"

lemma scanAll_complete:
  assumes "0 < cnt" and "cursor < length xs" and "length xs - cursor \<le> fuel"
  shows "scanAll fuel (\<lambda>c. scanPage hit emit xs c cnt) cursor =
    Some (concat (map emit (filter hit (drop cursor xs))))"
  using assms(2,3)
proof (induction fuel arbitrary: cursor)
  case (Suc fuel)
  let ?next = "cursor + nat cnt"
  have split: "drop cursor xs = take (nat cnt) (drop cursor xs) @ drop ?next xs"
    using append_take_drop_id [of "nat cnt" "drop cursor xs"] by (simp add: add.commute)
  show ?case
  proof (cases "length xs \<le> ?next")
    case True
    then have "take (nat cnt) (drop cursor xs) = drop cursor xs" by simp
    then show ?thesis using True assms(1) Suc.prems(1) by (simp add: scanPage_eq)
  next
    case False
    then have "scanAll fuel (\<lambda>c. scanPage hit emit xs c cnt) ?next =
        Some (concat (map emit (filter hit (drop ?next xs))))"
      using Suc.IH [of ?next] Suc.prems assms(1) by simp
    then show ?thesis using False assms(1) Suc.prems(1)
      by (simp add: scanPage_eq) (metis concat_append filter_append map_append split)
  qed
qed simp

section \<open>The snapshot\<close>

lemma strings_filter_keys:
  "wf_map m \<Longrightarrow> k \<in> set (mkeys (filter (\<lambda>(k, e). P e) m)) \<longleftrightarrow> (\<exists>e. map_of m k = Some e \<and> P e)"
  by (force simp: wf_map_in_set [symmetric])

text \<open>A key is listed when it is live, except that a string is left out at the very instant of its deadline.\<close>

definition listed :: "gotime \<Rightarrow> MemoryStore \<Rightarrow> string \<Rightarrow> bool" where
  "listed now s k \<longleftrightarrow> (case live now s k of
     None \<Rightarrow> False
   | Some (OStr _, dl) \<Rightarrow> dl \<noteq> Some now
   | Some _ \<Rightarrow> True)"

lemma nonStrKeys_iff:
  assumes "wf_store s"
  shows "k \<in> set (nonStrKeys now s) \<longleftrightarrow> (\<exists>ob dl. live now s k = Some (ob, dl) \<and> tagOf ob \<noteq> TString)"
proof -
  have ok: "keyOk s k" using assms by (rule wf_store_key)
  note ex = keyExpired_dead [OF ok, of now]
  have iff: "k \<in> set (nonStrKeys now s) \<longleftrightarrow> container s k \<noteq> None \<and> \<not> dead now (map_of (keyExpiry s) k)"
    by (auto simp: nonStrKeys_def ex in_mkeys_iff [unfolded set_map] container_def container_of_def
        split: option.splits)
  from ok show ?thesis unfolding iff
    by (cases rule: key_cases [where now = now]) (auto simp: live_def)
qed

lemma allKeys_iff:
  assumes "wf_store s"
  shows "k \<in> set (allKeys now s) \<longleftrightarrow> listed now s k"
proof -
  have m: "wf_map (strings s)" using assms by (simp add: wf_store_def wf_maps_def)
  have iff: "k \<in> set (allKeys now s) \<longleftrightarrow>
      (\<exists>e. map_of (strings s) k = Some e \<and> (expiresAt e = zeroTime \<or> now < expiresAt e)) \<or>
      (\<exists>ob dl. live now s k = Some (ob, dl) \<and> tagOf ob \<noteq> TString)"
    using strings_filter_keys [OF m, of k "\<lambda>e. expiresAt e = zeroTime \<or> now < expiresAt e"]
    by (simp add: allKeys_def nonStrKeys_iff [OF assms])
  from wf_store_key [OF assms, of k] show ?thesis unfolding iff listed_def
    by (cases rule: key_cases [where now = now])
      (auto simp: live_def dlOf_def split: obj.splits)
qed

lemma container_keys_disjoint:
  assumes "wf_store s"
  shows "dom (map_of (hashes s)) \<inter> dom (map_of (lists s)) = {}" "dom (map_of (hashes s)) \<inter> dom (map_of (sets s)) = {}"
    "dom (map_of (hashes s)) \<inter> dom (map_of (zsets s)) = {}" "dom (map_of (lists s)) \<inter> dom (map_of (sets s)) = {}"
    "dom (map_of (lists s)) \<inter> dom (map_of (zsets s)) = {}" "dom (map_of (sets s)) \<inter> dom (map_of (zsets s)) = {}"
  using wf_store_key [OF assms] by (simp_all add: disjoint_iff keyOk_def key_ok_def dom_def)

lemma nonStrKeys_distinct:
  assumes "wf_store s"
  shows "distinct (nonStrKeys now s)"
proof -
  have "wf_map (hashes s)" "wf_map (lists s)" "wf_map (sets s)" "wf_map (zsets s)"
    using assms by (simp_all add: wf_store_def wf_maps_def)
  then show ?thesis using container_keys_disjoint [OF assms]
    unfolding nonStrKeys_def distinct_append set_append set_filter set_mkeys wf_map_def disjoint_iff
    by (simp add: distinct_filter)
qed

lemma keys_distinct:
  assumes "wf_store s"
  shows "distinct (mkeys (filter (\<lambda>(k, e). P e) (strings s)) @ nonStrKeys now s)"
proof -
  have m: "wf_map (strings s)" using assms by (simp add: wf_store_def wf_maps_def)
  let ?ks = "mkeys (filter (\<lambda>(k, e). P e) (strings s))"
  have "distinct ?ks" using m by (simp add: wf_map_def distinct_map_filter)
  moreover have "k \<notin> set (nonStrKeys now s)" if k: "k \<in> set ?ks" for k
  proof -
    obtain e where e: "map_of (strings s) k = Some e"
      using k unfolding strings_filter_keys [OF m, of k P] by blast
    from wf_store_key [OF assms, of k] show ?thesis
      by (cases rule: key_cases [where now = now])
        (use e in \<open>auto simp: nonStrKeys_iff [OF assms] live_def split: if_splits\<close>)
  qed
  ultimately show ?thesis
    unfolding distinct_append disjoint_iff using nonStrKeys_distinct [OF assms] by blast
qed

lemma allKeys_distinct: "wf_store s \<Longrightarrow> distinct (allKeys now s)"
  by (simp only: allKeys_def distinct_sortStrings keys_distinct)

lemma Keys_distinct: "wf_store s \<Longrightarrow> distinct (Keys now pat s)"
  unfolding Keys_def by (intro distinct_filter keys_distinct)

lemma Keys_iff:
  assumes "wf_store s"
  shows "k \<in> set (Keys now pat s) \<longleftrightarrow> live now s k \<noteq> None \<and> Match pat k"
proof -
  have m: "wf_map (strings s)" using assms by (simp add: wf_store_def wf_maps_def)
  have iff: "k \<in> set (Keys now pat s) \<longleftrightarrow> Match pat k \<and>
      ((\<exists>e. map_of (strings s) k = Some e \<and> \<not> (expiresAt e \<noteq> zeroTime \<and> expiresAt e < now)) \<or>
      (\<exists>ob dl. live now s k = Some (ob, dl) \<and> tagOf ob \<noteq> TString))"
    using strings_filter_keys [OF m, of k "\<lambda>e. \<not> (expiresAt e \<noteq> zeroTime \<and> expiresAt e < now)"]
    by (auto simp add: Keys_def nonStrKeys_iff [OF assms])
  from wf_store_key [OF assms, of k] show ?thesis unfolding iff
    by (cases rule: key_cases [where now = now]) (auto simp: live_def dlOf_def)
qed

text \<open>\<^verbatim>\<open>Len\<close> counts what \<^verbatim>\<open>allKeys\<close> lists.\<close>

lemma Len_allKeys: "Len now s = int (length (allKeys now s))"
  by (simp add: Len_def allKeys_def nonStrKeys_def filter_map comp_def case_prod_unfold)

lemma allKeys_sorted: "wf_store s \<Longrightarrow> sorted_wrt (<) (allKeys now s)"
  using allKeys_distinct [of s now] unfolding allKeys_def distinct_sortStrings by (intro sortStrings_sorted)

section \<open>A whole scan\<close>

lemma Scan_page:
  "allKeys now s \<noteq> [] \<Longrightarrow> Scan now cursor pat cnt s = scanPage (scanMatch pat) (\<lambda>k. [k]) (allKeys now s) cursor cnt"
  by (simp add: Scan_def)

lemma concat_single: "concat (map (\<lambda>k. [k]) xs) = xs"
  by (induction xs) simp_all

text \<open>
  C19. A full \<^verbatim>\<open>SCAN\<close> is complete and exact: a client that starts at cursor zero and calls again with the
  cursor it was given, on a store that does not change meanwhile, is told zero after at most one call
  more than there are keys, and has then received every listed key that matches the pattern, each
  exactly once and in order, whatever the page size.
\<close>

theorem scan_visits_every_key:
  assumes "wf_store s" and "0 < cnt"
  shows "\<exists>r. scanAll (Suc (length (allKeys now s))) (\<lambda>c. Scan now c pat cnt s) 0 = Some r \<and>
    set r = {k. listed now s k \<and> scanMatch pat k} \<and> sorted_wrt (<) r"
proof (cases "allKeys now s = []")
  case True
  then have "listed now s k = False" for k using allKeys_iff [OF assms(1), of k now] by simp
  then show ?thesis using True by (simp add: Scan_def)
next
  case False
  let ?r = "filter (scanMatch pat) (allKeys now s)"
  have "scanAll (Suc (length (allKeys now s))) (\<lambda>c. Scan now c pat cnt s) 0 = Some ?r"
    unfolding Scan_page [OF False]
    using scanAll_complete [OF assms(2), of 0 "allKeys now s" "Suc (length (allKeys now s))" "scanMatch pat" "\<lambda>k. [k]"] False
    by (simp add: concat_single del: scanAll.simps)
  moreover have "set ?r = {k. listed now s k \<and> scanMatch pat k}" by (auto simp: allKeys_iff [OF assms(1)])
  ultimately show ?thesis using allKeys_sorted [OF assms(1), of now] by (auto intro: sorted_wrt_filter)
qed

definition scanStore :: MemoryStore where
  "scanStore = Set ''b'' ''2'' (Set ''ac'' ''1'' (Set ''aa'' ''0'' (Set ''ab'' ''3'' NewMemoryStore)))"

theorem scan_visits_every_key_witness:
  "set (the (scanAll 5 (\<lambda>c. Scan 7 c ''a*'' 1 scanStore) 0)) = {k. listed 7 scanStore k \<and> scanMatch ''a*'' k} \<and>
   scanAll 5 (\<lambda>c. Scan 7 c ''a*'' 1 scanStore) 0 = Some [''aa'', ''ab'', ''ac'']"
proof -
  have wf: "wf_store scanStore" by (simp add: scanStore_def wf_store_Set wf_store_New)
  have "scanAll 5 (\<lambda>c. Scan 7 c ''a*'' 1 scanStore) 0 = Some [''aa'', ''ab'', ''ac'']" by code_simp
  moreover have "Suc (length (allKeys 7 scanStore)) = 5" by code_simp
  ultimately show ?thesis using scan_visits_every_key [OF wf, of 1 7 "''a*''"] by (auto simp del: scanAll.simps)
qed

end
