(* ===== verification/CmdString.thy ===== *)
theory CmdString
  imports CmdBase StoreScan
begin

text \<open>
  The string, counter and expiry commands: \<^verbatim>\<open>string.go\<close>, \<^verbatim>\<open>counter.go\<close> and \<^verbatim>\<open>expire.go\<close> of
  \<^verbatim>\<open>internal/commands\<close>.

  An option loop is a recursion on the arguments that are left; \<open>Inl\<close> is the reply of an early
  return.
\<close>

section \<open>Options of SET and GETEX\<close>

text \<open>
  The argument of \<^verbatim>\<open>EX\<close>, \<^verbatim>\<open>PX\<close>, \<^verbatim>\<open>EXAT\<close> and \<^verbatim>\<open>PXAT\<close>; \<open>None\<close> is an invalid expire time.  The product
  with the unit wraps.
\<close>

definition isExpiryOpt :: "string \<Rightarrow> bool" where
  "isExpiryOpt opt \<longleftrightarrow> opt \<in> {''EX'', ''PX'', ''EXAT'', ''PXAT''}"

definition expiryArg :: "gotime \<Rightarrow> string \<Rightarrow> string \<Rightarrow> duration option" where
  "expiryArg now opt arg =
     (case ParseInt arg of
        None \<Rightarrow> None
      | Some n \<Rightarrow>
          if n \<le> 0 then None
          else Some (if opt = ''EX'' then mulDuration n Second
                     else if opt = ''PX'' then mulDuration n Millisecond
                     else if opt = ''EXAT'' then timeUntil now (timeUnix n)
                     else timeUntil now (timeUnixMilli n)))"

definition invalidExpire :: "string \<Rightarrow> Response" where
  "invalidExpire name = Error (''ERR invalid expire time in '' @ quoted name @ '' command'')"

fun setOptions :: "gotime \<Rightarrow> string list \<Rightarrow> SetAdvOpts \<Rightarrow> duration \<Rightarrow> Response + SetAdvOpts \<times> duration" where
  "setOptions now [] opts ttl = Inr (opts, ttl)"
| "setOptions now (a # rest) opts ttl =
     (let opt = toUpper a
      in if opt = ''NX'' then setOptions now rest (opts\<lparr>NX := True\<rparr>) ttl
         else if opt = ''XX'' then setOptions now rest (opts\<lparr>XX := True\<rparr>) ttl
         else if opt = ''GET'' then setOptions now rest (opts\<lparr>GetOld := True\<rparr>) ttl
         else if opt = ''KEEPTTL'' then setOptions now rest (opts\<lparr>KeepTTL := True\<rparr>) ttl
         else if isExpiryOpt opt then
           (case rest of
              [] \<Rightarrow> Inl syntaxError
            | v # rest' \<Rightarrow>
                case expiryArg now opt v of
                  None \<Rightarrow> Inl (invalidExpire ''SET'')
                | Some d \<Rightarrow>
                    setOptions now rest' opts (if opt \<in> {''EXAT'', ''PXAT''} \<and> d \<le> 0 then 1 else d))
         else Inl syntaxError)"

definition noOpts :: SetAdvOpts where
  "noOpts = \<lparr>KeepTTL = False, NX = False, XX = False, GetOld = False\<rparr>"

section \<open>string.go\<close>

definition handleSet :: handler where
  "handleSet env args s =
     (if length args < 3 then Ret (s, wrongArgs ''SET'')
      else
        case setOptions (clock env) (drop 3 args) noOpts 0 of
          Inl r \<Rightarrow> Ret (s, r)
        | Inr (opts, ttl) \<Rightarrow>
            if NX opts \<and> XX opts then Ret (s, syntaxError)
            else
              let (s, oldVal, oldExists, wasSet) = SetAdv (clock env) (args ! 1) (args ! 2) ttl opts s
              in if GetOld opts then Ret (s, if oldExists then BulkString oldVal else NullBulkString)
                 else Ret (s, if wasSet then okReply else NullBulkString))"

definition handleGet :: handler where
  "handleGet env args s =
     (if length args \<noteq> 2 then Ret (s, wrongArgsFor ''GET'')
      else Ret (s, bulkOrNull (Get (clock env) (args ! 1) s)))"

definition handleDel :: handler where
  "handleDel env args s =
     (if length args < 2 then Ret (s, wrongArgsFor ''DEL'')
      else let (s, n) = Del (clock env) (drop 1 args) s in Ret (s, Integer n))"

definition handleExists :: handler where
  "handleExists env args s =
     (if length args < 2 then Ret (s, wrongArgsFor ''EXISTS'')
      else Ret (s, Integer (Exists (clock env) (drop 1 args) s)))"

definition handleKeys :: handler where
  "handleKeys env args s =
     (if length args \<noteq> 2 then Ret (s, wrongArgsFor ''KEYS'')
      else if MatchErr (args ! 1) [] then Ret (s, Error ''ERR invalid pattern'')
      else Ret (s, bulkArray (Keys (clock env) (args ! 1) s)))"

definition handleSetNX :: handler where
  "handleSetNX env args s =
     (if length args \<noteq> 3 then Ret (s, wrongArgs ''SETNX'')
      else if Get (clock env) (args ! 1) s \<noteq> None then Ret (s, Integer 0)
      else Ret (Set (args ! 1) (args ! 2) s, Integer 1))"

definition handleSetEX :: handler where
  "handleSetEX env args s =
     (if length args \<noteq> 4 then Ret (s, wrongArgs ''SETEX'')
      else
        case ParseInt (args ! 2) of
          None \<Rightarrow> Ret (s, invalidExpire ''SETEX'')
        | Some secs \<Rightarrow>
            if secs \<le> 0 then Ret (s, invalidExpire ''SETEX'')
            else Ret (SetWithTTL (clock env) (args ! 1) (args ! 3) (mulDuration secs Second) s, okReply))"

definition handlePSetEX :: handler where
  "handlePSetEX env args s =
     (if length args \<noteq> 4 then Ret (s, wrongArgs ''PSETEX'')
      else
        case ParseInt (args ! 2) of
          None \<Rightarrow> Ret (s, invalidExpire ''PSETEX'')
        | Some ms \<Rightarrow>
            if ms \<le> 0 then Ret (s, invalidExpire ''PSETEX'')
            else Ret (SetWithTTL (clock env) (args ! 1) (args ! 3) (mulDuration ms Millisecond) s, okReply))"

fun msetLoop :: "string list \<Rightarrow> MemoryStore \<Rightarrow> MemoryStore" where
  "msetLoop (k # v # rest) s = msetLoop rest (Set k v s)"
| "msetLoop _ s = s"

definition handleMSet :: handler where
  "handleMSet env args s =
     (if length args < 3 \<or> length args mod 2 = 0 then Ret (s, wrongArgs ''MSET'')
      else Ret (msetLoop (drop 1 args) s, okReply))"

definition handleMGet :: handler where
  "handleMGet env args s =
     (if length args < 2 then Ret (s, wrongArgs ''MGET'')
      else Ret (s, Array (map (\<lambda>key. bulkOrNull (Get (clock env) key s)) (drop 1 args))))"

definition handleGetSet :: handler where
  "handleGetSet env args s =
     (if length args \<noteq> 3 then Ret (s, wrongArgs ''GETSET'')
      else let old = Get (clock env) (args ! 1) s
           in Ret (Set (args ! 1) (args ! 2) s, bulkOrNull old))"

definition handleGetDel :: handler where
  "handleGetDel env args s =
     (if length args \<noteq> 2 then Ret (s, wrongArgs ''GETDEL'')
      else
        case Get (clock env) (args ! 1) s of
          None \<Rightarrow> Ret (s, NullBulkString)
        | Some v \<Rightarrow> Ret (fst (Del (clock env) [args ! 1] s), BulkString v))"

record getexOpts =
  ge_ttl :: duration
  ge_persist :: bool
  ge_hasTTL :: bool

fun getexOptions :: "gotime \<Rightarrow> string list \<Rightarrow> getexOpts \<Rightarrow> Response + getexOpts" where
  "getexOptions now [] g = Inr g"
| "getexOptions now (a # rest) g =
     (let opt = toUpper a
      in if opt = ''PERSIST'' then getexOptions now rest (g\<lparr>ge_persist := True\<rparr>)
         else if isExpiryOpt opt then
           (case rest of
              [] \<Rightarrow> Inl syntaxError
            | v # rest' \<Rightarrow>
                case expiryArg now opt v of
                  None \<Rightarrow> Inl (invalidExpire ''GETEX'')
                | Some d \<Rightarrow> getexOptions now rest' (g\<lparr>ge_ttl := d, ge_hasTTL := True\<rparr>))
         else Inl syntaxError)"

definition handleGetEX :: handler where
  "handleGetEX env args s =
     (if length args < 2 then Ret (s, wrongArgs ''GETEX'')
      else
        case getexOptions (clock env) (drop 2 args) \<lparr>ge_ttl = 0, ge_persist = False, ge_hasTTL = False\<rparr> of
          Inl r \<Rightarrow> Ret (s, r)
        | Inr g \<Rightarrow>
            let (s, v) = GetEx (clock env) (args ! 1) (ge_ttl g) (ge_persist g) (ge_hasTTL g) s
            in Ret (s, bulkOrNull v))"

definition handleAppend :: handler where
  "handleAppend env args s =
     (if length args \<noteq> 3 then Ret (s, wrongArgs ''APPEND'')
      else
        let existing = (case Get (clock env) (args ! 1) s of None \<Rightarrow> [] | Some v \<Rightarrow> v);
            newVal = existing @ args ! 2
        in Ret (Set (args ! 1) newVal s, Integer (int (length newVal))))"

definition handleStrLen :: handler where
  "handleStrLen env args s =
     (if length args \<noteq> 2 then Ret (s, wrongArgs ''STRLEN'')
      else
        case Get (clock env) (args ! 1) s of
          None \<Rightarrow> Ret (s, Integer 0)
        | Some v \<Rightarrow> Ret (s, Integer (int (length v))))"

section \<open>counter.go\<close>

definition incrBy :: "Env \<Rightarrow> string \<Rightarrow> int \<Rightarrow> MemoryStore \<Rightarrow> (MemoryStore \<times> Response) go" where
  "incrBy env key delta s =
     (case (case Get (clock env) key s of None \<Rightarrow> Some 0 | Some raw \<Rightarrow> ParseInt raw) of
        None \<Rightarrow> Ret (s, notInteger)
      | Some current \<Rightarrow>
          let next = wrap64 (current + delta)
          in if 0 < delta \<and> next < current then Ret (s, Error ''ERR increment would overflow'')
             else if delta < 0 \<and> current < next then Ret (s, Error ''ERR decrement would overflow'')
             else Ret (Set key (FormatInt next) s, Integer next))"

definition handleIncr :: handler where
  "handleIncr env args s =
     (if length args \<noteq> 2 then Ret (s, wrongArgs ''INCR'') else incrBy env (args ! 1) 1 s)"

definition handleIncrBy :: handler where
  "handleIncrBy env args s =
     (if length args \<noteq> 3 then Ret (s, wrongArgs ''INCRBY'')
      else
        case ParseInt (args ! 2) of
          None \<Rightarrow> Ret (s, notInteger)
        | Some delta \<Rightarrow> incrBy env (args ! 1) delta s)"

definition handleIncrByFloat :: handler where
  "handleIncrByFloat env args s =
     (if length args \<noteq> 3 then Ret (s, wrongArgs ''INCRBYFLOAT'')
      else
        case ParseFloat (args ! 2) of
          None \<Rightarrow> Ret (s, Error ''ERR value is not a valid float'')
        | Some delta \<Rightarrow>
            (case (case Get (clock env) (args ! 1) s of
                     None \<Rightarrow> Some (Fin 0)
                   | Some raw \<Rightarrow> ParseFloat raw) of
               None \<Rightarrow> Ret (s, Error ''ERR value is not a valid float'')
             | Some current \<Rightarrow>
                 let resultStr = FormatFloatF (fadd current delta)
                 in Ret (Set (args ! 1) resultStr s, BulkString resultStr)))"

definition handleDecr :: handler where
  "handleDecr env args s =
     (if length args \<noteq> 2 then Ret (s, wrongArgs ''DECR'') else incrBy env (args ! 1) (- 1) s)"

definition handleDecrBy :: handler where
  "handleDecrBy env args s =
     (if length args \<noteq> 3 then Ret (s, wrongArgs ''DECRBY'')
      else
        case ParseInt (args ! 2) of
          None \<Rightarrow> Ret (s, notInteger)
        | Some delta \<Rightarrow> incrBy env (args ! 1) (wrap64 (- delta)) s)"

section \<open>expire.go\<close>

definition goQuot :: "int \<Rightarrow> int \<Rightarrow> int" where
  "goQuot a b = (if 0 \<le> a then a div b else - ((- a) div b))"

text \<open>\<^verbatim>\<open>int64(d.Seconds())\<close>: the seconds and the fraction are added as floating-point numbers.\<close>

definition truncFloat :: "float64 \<Rightarrow> int" where
  "truncFloat f =
     (case f of Fin r \<Rightarrow> if 0 \<le> r then \<lfloor>r\<rfloor> else \<lceil>r\<rceil> | NegZero \<Rightarrow> 0 | _ \<Rightarrow> minInt64)"

definition wholeSeconds :: "duration \<Rightarrow> int" where
  "wholeSeconds d =
     (let sec = goQuot d Second; nsec = d - sec * Second
      in truncFloat (fadd (fround (of_int sec)) (fround (of_int nsec / 1000000000))))"

definition handleExpire :: handler where
  "handleExpire env args s =
     (if length args \<noteq> 3 then Ret (s, wrongArgs ''EXPIRE'')
      else
        case ParseInt (args ! 2) of
          None \<Rightarrow> Ret (s, notInteger)
        | Some secs \<Rightarrow>
            if secs < 0 then Ret (s, notInteger)
            else let (s, ok) = Expire (clock env) (args ! 1) (mulDuration secs Second) s
                 in Ret (s, boolInt ok))"

definition handlePExpire :: handler where
  "handlePExpire env args s =
     (if length args \<noteq> 3 then Ret (s, wrongArgs ''PEXPIRE'')
      else
        case ParseInt (args ! 2) of
          None \<Rightarrow> Ret (s, notInteger)
        | Some ms \<Rightarrow>
            if ms < 0 then Ret (s, notInteger)
            else let (s, ok) = Expire (clock env) (args ! 1) (mulDuration ms Millisecond) s
                 in Ret (s, boolInt ok))"

definition handleTTL :: handler where
  "handleTTL env args s =
     (if length args \<noteq> 2 then Ret (s, wrongArgs ''TTL'')
      else
        let d = TTL (clock env) (args ! 1) s
        in if d = - Second then Ret (s, Integer (- 1))
           else if d = - 2 * Second then Ret (s, Integer (- 2))
           else Ret (s, Integer (max 1 (wholeSeconds d))))"

definition handlePTTL :: handler where
  "handlePTTL env args s =
     (if length args \<noteq> 2 then Ret (s, wrongArgs ''PTTL'')
      else
        let d = TTL (clock env) (args ! 1) s
        in if d = - Second then Ret (s, Integer (- 1))
           else if d = - 2 * Second then Ret (s, Integer (- 2))
           else Ret (s, Integer (max 1 (goQuot d Millisecond))))"

definition expireAt :: "gotime \<Rightarrow> string \<Rightarrow> duration \<Rightarrow> MemoryStore \<Rightarrow> (MemoryStore \<times> Response) go" where
  "expireAt now key remaining s =
     (if remaining \<le> 0 then Ret (fst (Del now [key] s), Integer 1)
      else let (s, ok) = Expire now key remaining s in Ret (s, boolInt ok))"

definition handleExpireAt :: handler where
  "handleExpireAt env args s =
     (if length args \<noteq> 3 then Ret (s, wrongArgs ''EXPIREAT'')
      else
        case ParseInt (args ! 2) of
          None \<Rightarrow> Ret (s, notInteger)
        | Some unixSec \<Rightarrow> expireAt (clock env) (args ! 1) (timeUntil (clock env) (timeUnix unixSec)) s)"

definition handlePExpireAt :: handler where
  "handlePExpireAt env args s =
     (if length args \<noteq> 3 then Ret (s, wrongArgs ''PEXPIREAT'')
      else
        case ParseInt (args ! 2) of
          None \<Rightarrow> Ret (s, notInteger)
        | Some unixMs \<Rightarrow> expireAt (clock env) (args ! 1) (timeUntil (clock env) (timeUnixMilli unixMs)) s)"

definition handlePersist :: handler where
  "handlePersist env args s =
     (if length args \<noteq> 2 then Ret (s, wrongArgs ''PERSIST'')
      else let (s, ok) = Persist (clock env) (args ! 1) s in Ret (s, boolInt ok))"

section \<open>Contracts\<close>

lemmas string_read_defs = handleGet_def handleExists_def handleKeys_def handleMGet_def handleStrLen_def
  handleTTL_def handlePTTL_def

lemmas string_write_defs = handleSet_def handleDel_def handleSetNX_def handleSetEX_def handlePSetEX_def
  handleMSet_def handleGetSet_def handleGetDel_def handleGetEX_def handleAppend_def incrBy_def
  handleIncr_def handleIncrBy_def handleIncrByFloat_def handleDecr_def handleDecrBy_def handleExpire_def
  handlePExpire_def expireAt_def handleExpireAt_def handlePExpireAt_def handlePersist_def

lemma readonly_string [readonly_intros]:
  "readonly handleGet" "readonly handleExists" "readonly handleKeys" "readonly handleMGet"
  "readonly handleStrLen" "readonly handleTTL" "readonly handlePTTL"
  by (auto intro!: readonlyI simp: string_read_defs Let_def split: option.split)

lemma guarded_string [guarded_intros]:
  "guarded handleSet" "guarded handleDel" "guarded handleSetNX" "guarded handleSetEX"
  "guarded handlePSetEX" "guarded handleMSet" "guarded handleGetSet" "guarded handleGetDel"
  "guarded handleGetEX" "guarded handleAppend" "guarded handleIncr" "guarded handleIncrBy"
  "guarded handleIncrByFloat" "guarded handleDecr" "guarded handleDecrBy" "guarded handleExpire"
  "guarded handlePExpire" "guarded handleExpireAt" "guarded handlePExpireAt" "guarded handlePersist"
  by (auto intro!: guardedI simp: string_write_defs Let_def split: prod.split option.split sum.split)

lemma panic_string [panic_intros]:
  "panicFree handleGet" "panicFree handleExists" "panicFree handleKeys" "panicFree handleMGet"
  "panicFree handleStrLen" "panicFree handleTTL" "panicFree handlePTTL"
  "panicFree handleSet" "panicFree handleDel" "panicFree handleSetNX" "panicFree handleSetEX"
  "panicFree handlePSetEX" "panicFree handleMSet" "panicFree handleGetSet" "panicFree handleGetDel"
  "panicFree handleGetEX" "panicFree handleAppend" "panicFree handleIncr" "panicFree handleIncrBy"
  "panicFree handleIncrByFloat" "panicFree handleDecr" "panicFree handleDecrBy" "panicFree handleExpire"
  "panicFree handlePExpire" "panicFree handleExpireAt" "panicFree handlePExpireAt" "panicFree handlePersist"
  by (auto intro!: panicFreeI simp: string_read_defs string_write_defs Let_def split: prod.split option.split sum.split)

end
