(* ===== verification/StoreList.thy ===== *)
theory StoreList
  imports Keyspace Ranges
begin

text \<open>
  The list operations of \<^verbatim>\<open>internal/storage/memory.go\<close> (\<^verbatim>\<open>getList\<close> to \<^verbatim>\<open>LMove\<close>), with their
  refinement to operations on HOL lists.

  A nil slice and an empty one are both \<open>[]\<close>: the store keeps no empty list, so the code's test
  \<^verbatim>\<open>l == nil\<close> is the test for a missing key.  Every slice that leaves the store is a fresh copy, and
  no two keys share a backing array, so slices have value semantics.
\<close>

section \<open>Operations\<close>

definition getList :: "gotime \<Rightarrow> string \<Rightarrow> MemoryStore \<Rightarrow> error + string list" where
  "getList now key s =
     (let t = typeOf now key s
      in if t = NoKey then Inr []
         else if t \<noteq> TList then Inl ErrWrongType
         else Inr (case map_of (lists s) key of None \<Rightarrow> [] | Some l \<Rightarrow> l))"

definition listAt :: "string \<Rightarrow> MemoryStore \<Rightarrow> string list" where
  "listAt key s = (case map_of (lists s) key of None \<Rightarrow> [] | Some l \<Rightarrow> l)"

definition LPush :: "gotime \<Rightarrow> string \<Rightarrow> string list \<Rightarrow> MemoryStore \<Rightarrow> MemoryStore \<times> (error + int)" where
  "LPush now key vals s =
     (let t = typeOf now key s
      in if t \<noteq> NoKey \<and> t \<noteq> TList then (s, Inl ErrWrongType)
         else
           let prepend = rev vals;
               s = s\<lparr>lists := mput key (prepend @ listAt key s) (lists s)\<rparr>
           in (bumpVersion key s, Inr (int (length (listAt key s)))))"

definition RPush :: "gotime \<Rightarrow> string \<Rightarrow> string list \<Rightarrow> MemoryStore \<Rightarrow> MemoryStore \<times> (error + int)" where
  "RPush now key vals s =
     (let t = typeOf now key s
      in if t \<noteq> NoKey \<and> t \<noteq> TList then (s, Inl ErrWrongType)
         else
           let s = s\<lparr>lists := mput key (listAt key s @ vals) (lists s)\<rparr>
           in (bumpVersion key s, Inr (int (length (listAt key s)))))"

text \<open>\<^verbatim>\<open>s.lists[key] = l; if len(s.lists[key]) == 0 { delete ... }\<close>\<close>

definition storeList :: "string \<Rightarrow> string list \<Rightarrow> MemoryStore \<Rightarrow> MemoryStore" where
  "storeList key l s =
     (if l = [] then s\<lparr>lists := mdel key (lists s), keyExpiry := mdel key (keyExpiry s)\<rparr>
      else s\<lparr>lists := mput key l (lists s)\<rparr>)"

text \<open>\<^verbatim>\<open>make([]string, count)\<close> panics on a negative count; \<open>None\<close> is the nil result.\<close>

definition LPop :: "gotime \<Rightarrow> string \<Rightarrow> int \<Rightarrow> MemoryStore
    \<Rightarrow> (MemoryStore \<times> (error + string list option)) go" where
  "LPop now key cnt s =
     (case getList now key s of
        Inl e \<Rightarrow> Ret (s, Inl e)
      | Inr l \<Rightarrow>
          if l = [] then Ret (s, Inr None)
          else
            let cnt = (if int (length l) < cnt then int (length l) else cnt)
            in if cnt < 0 then Panic
               else
                 let result = take (nat cnt) l;
                     s = storeList key (drop (nat cnt) l) s
                 in Ret (bumpVersion key s, Inr (Some result)))"

definition RPop :: "gotime \<Rightarrow> string \<Rightarrow> int \<Rightarrow> MemoryStore
    \<Rightarrow> (MemoryStore \<times> (error + string list option)) go" where
  "RPop now key cnt s =
     (case getList now key s of
        Inl e \<Rightarrow> Ret (s, Inl e)
      | Inr l \<Rightarrow>
          if l = [] then Ret (s, Inr None)
          else
            let cnt = (if int (length l) < cnt then int (length l) else cnt)
            in if cnt < 0 then Panic
               else
                 let result = map (\<lambda>i. l ! (length l - nat cnt + i)) [0..<nat cnt];
                     s = storeList key (take (length l - nat cnt) l) s
                 in Ret (bumpVersion key s, Inr (Some result)))"

definition LLen :: "gotime \<Rightarrow> string \<Rightarrow> MemoryStore \<Rightarrow> error + int" where
  "LLen now key s = map_sum id (\<lambda>l. int (length l)) (getList now key s)"

definition LRange :: "gotime \<Rightarrow> string \<Rightarrow> int \<Rightarrow> int \<Rightarrow> MemoryStore \<Rightarrow> error + string list" where
  "LRange now key start stop s =
     (case getList now key s of
        Inl e \<Rightarrow> Inl e
      | Inr l \<Rightarrow>
          if length l = 0 then Inr []
          else
            let (lo, hi) = clampRange start stop (int (length l))
            in if hi < lo then Inr [] else Inr (subslice lo hi l))"

definition LIndex :: "gotime \<Rightarrow> string \<Rightarrow> int \<Rightarrow> MemoryStore \<Rightarrow> error + string option" where
  "LIndex now key index s =
     (case getList now key s of
        Inl e \<Rightarrow> Inl e
      | Inr l \<Rightarrow>
          let idx = normaliseIndex index (int (length l))
          in if idx < 0 then Inr None else Inr (Some (l ! nat idx)))"

definition LSet :: "gotime \<Rightarrow> string \<Rightarrow> int \<Rightarrow> string \<Rightarrow> MemoryStore \<Rightarrow> MemoryStore \<times> (error + unit)" where
  "LSet now key index val s =
     (let t = typeOf now key s
      in if t = NoKey then (s, Inl (Errorf ''ERR no such key''))
         else if t \<noteq> TList then (s, Inl ErrWrongType)
         else
           let l = listAt key s;
               idx = normaliseIndex index (int (length l))
           in if idx < 0 then (s, Inl (Errorf ''ERR index out of range''))
              else (bumpVersion key (s\<lparr>lists := mput key (l[nat idx := val]) (lists s)\<rparr>), Inr ()))"

fun findPivot :: "string \<Rightarrow> string list \<Rightarrow> nat \<Rightarrow> nat option" where
  "findPivot pivot [] i = None"
| "findPivot pivot (v # l) i = (if v = pivot then Some i else findPivot pivot l (Suc i))"

definition LInsert :: "gotime \<Rightarrow> string \<Rightarrow> bool \<Rightarrow> string \<Rightarrow> string \<Rightarrow> MemoryStore
    \<Rightarrow> MemoryStore \<times> (error + int)" where
  "LInsert now key before pivot val s =
     (let t = typeOf now key s
      in if t = NoKey then (s, Inr 0)
         else if t \<noteq> TList then (s, Inl ErrWrongType)
         else
           let l = listAt key s
           in case findPivot pivot l 0 of
                None \<Rightarrow> (s, Inr (-1))
              | Some pos \<Rightarrow>
                  let pos = (if \<not> before then pos + 1 else pos);
                      newList = take pos l @ val # drop pos l
                  in (bumpVersion key (s\<lparr>lists := mput key newList (lists s)\<rparr>),
                      Inr (int (length newList))))"

fun lremHead :: "string \<Rightarrow> int \<Rightarrow> int \<Rightarrow> string list \<Rightarrow> string list \<Rightarrow> int \<Rightarrow> string list \<times> int" where
  "lremHead val cnt absCnt [] newList removed = (newList, removed)"
| "lremHead val cnt absCnt (v # l) newList removed =
     (if v = val \<and> (cnt = 0 \<or> removed < absCnt) then lremHead val cnt absCnt l newList (removed + 1)
      else lremHead val cnt absCnt l (newList @ [v]) removed)"

text \<open>The tail loop runs from the last index down: it is given the reversed list.\<close>

fun lremTail :: "string \<Rightarrow> int \<Rightarrow> string list \<Rightarrow> string list \<Rightarrow> int \<Rightarrow> string list \<times> int" where
  "lremTail val absCnt [] newList removed = (newList, removed)"
| "lremTail val absCnt (v # l) newList removed =
     (if v = val \<and> removed < absCnt then lremTail val absCnt l newList (removed + 1)
      else lremTail val absCnt l (v # newList) removed)"

definition LRem :: "gotime \<Rightarrow> string \<Rightarrow> int \<Rightarrow> string \<Rightarrow> MemoryStore \<Rightarrow> MemoryStore \<times> (error + int)" where
  "LRem now key cnt val s =
     (case getList now key s of
        Inl e \<Rightarrow> (s, Inl e)
      | Inr l \<Rightarrow>
          if l = [] then (s, Inr 0)
          else
            let absCnt = (if cnt < 0 then wrap64 (- cnt) else cnt);
                (newList, removed) =
                  (if 0 \<le> cnt then lremHead val cnt absCnt l [] 0 else lremTail val absCnt (rev l) [] 0)
            in if 0 < removed
               then (bumpVersion key (storeList key newList s), Inr removed)
               else (s, Inr removed))"

definition LTrim :: "gotime \<Rightarrow> string \<Rightarrow> int \<Rightarrow> int \<Rightarrow> MemoryStore \<Rightarrow> MemoryStore \<times> (error + unit)" where
  "LTrim now key start stop s =
     (let t = typeOf now key s
      in if t = NoKey then (s, Inr ())
         else if t \<noteq> TList then (s, Inl ErrWrongType)
         else
           let l = listAt key s;
               (lo, hi) = clampRange start stop (int (length l))
           in (bumpVersion key
                 (if hi < lo
                  then s\<lparr>lists := mdel key (lists s), keyExpiry := mdel key (keyExpiry s)\<rparr>
                  else s\<lparr>lists := mput key (subslice lo hi l) (lists s)\<rparr>),
               Inr ()))"

definition LMove :: "gotime \<Rightarrow> string \<Rightarrow> string \<Rightarrow> bool \<Rightarrow> bool \<Rightarrow> MemoryStore
    \<Rightarrow> MemoryStore \<times> (error + string option)" where
  "LMove now src dst srcLeft dstLeft s =
     (if typeOf now src s \<noteq> NoKey \<and> typeOf now src s \<noteq> TList then (s, Inl ErrWrongType)
      else if typeOf now dst s \<noteq> NoKey \<and> typeOf now dst s \<noteq> TList then (s, Inl ErrWrongType)
      else
        let l = listAt src s
        in if length l = 0 then (s, Inr None)
           else
             let (elem, rest) = (if srcLeft then (hd l, tl l) else (last l, butlast l));
                 s = storeList src rest s;
                 s = s\<lparr>lists := mput dst (if dstLeft then elem # listAt dst s else listAt dst s @ [elem]) (lists s)\<rparr>
             in (bumpVersion dst (bumpVersion src s), Inr (Some elem)))"

section \<open>Reading\<close>

text \<open>The list a key holds for its readers: empty when it is missing or expired.\<close>

lemma getList_live:
  assumes "keyOk s k"
  shows "getList now k s = (case live now s k of
      None \<Rightarrow> Inr [] | Some (OList l, _) \<Rightarrow> Inr l | Some _ \<Rightarrow> Inl ErrWrongType)"
  using assms
proof (cases rule: key_cases [where now = now])
  case (container ob)
  then show ?thesis
    by (cases ob)
      (auto simp: getList_def live_def container_def container_of_def split: option.splits)
qed (auto simp: getList_def live_def expired_dlOf)

lemma listAt_entry:
  "keyOk s k \<Longrightarrow> listAt k s = (case entry s k of Some (OList l, _) \<Rightarrow> l | _ \<Rightarrow> [])"
  by (auto simp: listAt_def entry_def container_def entry_of_def container_of_def keyOk_def
      key_ok_def split: option.splits)

lemma clampRange_eq:
  "clampRange start stop len = (max 0 (fromEnd len start), min (len - 1) (fromEnd len stop))"
  by (simp add: clampRange_def Let_def fromEnd_def min_def)

lemma LRange_rangeOf: "LRange now key start stop s = map_sum id (rangeOf start stop) (getList now key s)"
proof (cases "getList now key s")
  case (Inr l)
  show ?thesis
  proof (cases "l = []")
    case False
    then show ?thesis by (simp add: LRange_def clampRange_eq Inr rangeOf_take_drop)
  qed (simp add: Inr LRange_def rangeOf_def)
qed (simp add: LRange_def)

section \<open>Writing\<close>

lemma storeList_obj:
  "storeList key l s = (if l = [] then delObj TList key s else putObj key (OList l) s)"
  by (simp add: storeList_def)

lemma storeList_entry:
  assumes "wf_store s" and "fits s key TList"
  shows "wf_store (storeList key l s)"
    and "entry (storeList key l s) =
      (entry s)(key := if l = [] then None else Some (OList l, deadline s key))"
  using assms wf_store_delObj [OF assms] wf_store_putObj [of s key "OList l"]
    entry_delObj [OF assms] entry_putObj [of s key "OList l"]
  by (simp_all add: storeList_obj)

lemma same_at_storeList [simp]: "k \<noteq> key \<Longrightarrow> same_at k (storeList key l s) t \<longleftrightarrow> same_at k s t"
  by (simp add: storeList_def same_at_def)

lemma Version_storeList [simp]: "Version k (storeList key l s) = Version k s"
  by (simp add: storeList_def Version_def)

lemma listAt_storeList [simp]: "listAt k (storeList key l s) = (if k = key then l else listAt k s)"
  by (simp add: storeList_def listAt_def)

lemma listAt_bumpVersion [simp]: "listAt k (bumpVersion k' s) = listAt k s"
  by (simp add: listAt_def)

lemma putList_storeList:
  "l \<noteq> [] \<Longrightarrow> s\<lparr>lists := mput key l (lists s)\<rparr> = storeList key l s"
  by (simp add: storeList_def)

lemma delList_storeList:
  "s\<lparr>lists := mdel key (lists s), keyExpiry := mdel key (keyExpiry s)\<rparr> = storeList key [] s"
  by (simp add: storeList_def)

text \<open>What a mutating list operation does when the key holds the list \<open>l\<close> for it.\<close>

lemma typeOf_listAt:
  "wf_store s \<Longrightarrow> typeOf now key s = TList \<Longrightarrow> entry s key = Some (OList (listAt key s), deadline s key)"
  using wf_store_key [of s key]
  by (auto simp: typeOf_def entry_def container_def deadline_def listAt_def keyOk_def key_ok_def
      split: if_splits)

lemma getList_typeOf:
  assumes "wf_store s"
  shows "getList now key s = (if typeOf now key s = NoKey then Inr []
    else if typeOf now key s = TList then Inr (listAt key s) else Inl ErrWrongType)"
  by (simp add: getList_def listAt_def)

lemma listAt_ne: "wf_store s \<Longrightarrow> typeOf now key s = TList \<Longrightarrow> listAt key s \<noteq> []"
  using wf_store_key [of s key]
  by (auto simp: listAt_def typeOf_def keyOk_def key_ok_def split: if_splits option.splits)

lemma LPush_eq:
  "vals \<noteq> [] \<Longrightarrow> LPush now key vals s =
    (if typeOf now key s \<in> {NoKey, TList}
     then (bumpVersion key (storeList key (rev vals @ listAt key s) s),
           Inr (int (length vals + length (listAt key s))))
     else (s, Inl ErrWrongType))"
  by (auto simp: LPush_def Let_def putList_storeList)

lemma RPush_eq:
  "vals \<noteq> [] \<Longrightarrow> RPush now key vals s =
    (if typeOf now key s \<in> {NoKey, TList}
     then (bumpVersion key (storeList key (listAt key s @ vals) s),
           Inr (int (length vals + length (listAt key s))))
     else (s, Inl ErrWrongType))"
  by (auto simp: RPush_def Let_def putList_storeList)

lemma LPop_eq:
  assumes "wf_store s" and "0 \<le> cnt"
  shows "LPop now key cnt s =
    (if typeOf now key s = NoKey then Ret (s, Inr None)
     else if typeOf now key s = TList
     then Ret (bumpVersion key (storeList key (drop (nat cnt) (listAt key s)) s),
               Inr (Some (take (nat cnt) (listAt key s))))
     else Ret (s, Inl ErrWrongType))"
  using assms listAt_ne [OF assms(1), of now key]
  by (simp add: LPop_def getList_typeOf Let_def nat_less_iff)

lemma nths_tail: "n \<le> length l \<Longrightarrow> map (\<lambda>i. l ! (length l + i - n)) [0..<n] = drop (length l - n) l"
  by (rule nth_equalityI) simp_all

lemma RPop_eq:
  assumes "wf_store s" and "0 \<le> cnt"
  shows "RPop now key cnt s =
    (if typeOf now key s = NoKey then Ret (s, Inr None)
     else if typeOf now key s = TList
     then Ret (bumpVersion key (storeList key (take (length (listAt key s) - nat cnt) (listAt key s)) s),
               Inr (Some (drop (length (listAt key s) - nat cnt) (listAt key s))))
     else Ret (s, Inl ErrWrongType))"
  using assms listAt_ne [OF assms(1), of now key]
  by (auto simp: RPop_def getList_typeOf Let_def nths_tail nat_le_iff not_less map_nth)

lemma normaliseIndex_eq:
  "0 \<le> len \<Longrightarrow> normaliseIndex idx len = (if - len \<le> idx \<and> idx < len then fromEnd len idx else -1)"
  by (auto simp: normaliseIndex_def fromEnd_def Let_def)

lemma LSet_eq:
  assumes "wf_store s"
  shows "LSet now key idx val s =
    (let l = listAt key s; len = int (length l)
     in if typeOf now key s = NoKey then (s, Inl (Errorf ''ERR no such key''))
        else if typeOf now key s \<noteq> TList then (s, Inl ErrWrongType)
        else if - len \<le> idx \<and> idx < len
        then (bumpVersion key (storeList key (l[nat (fromEnd len idx) := val]) s), Inr ())
        else (s, Inl (Errorf ''ERR index out of range'')))"
  using listAt_ne [OF assms, of now key]
  by (auto simp: LSet_def Let_def normaliseIndex_eq putList_storeList fromEnd_def)

lemma findPivot_eq:
  "findPivot p l i = (if p \<in> set l then Some (i + length (takeWhile (\<lambda>v. v \<noteq> p) l)) else None)"
  by (induction l arbitrary: i) auto

lemma LInsert_eq:
  assumes "wf_store s" and "typeOf now key s = TList" and l: "listAt key s = xs @ pivot # ys" "pivot \<notin> set xs"
  shows "LInsert now key before pivot val s =
    (let l' = (if before then xs @ val # pivot # ys else xs @ pivot # val # ys)
     in (bumpVersion key (storeList key l' s), Inr (int (length l'))))"
proof -
  have "takeWhile (\<lambda>v. v \<noteq> pivot) (listAt key s) = xs"
    using l by (auto simp: takeWhile_append)
  then have "findPivot pivot (listAt key s) 0 = Some (length xs)"
    using l by (simp add: findPivot_eq)
  then show ?thesis
    using assms(2) l(1) by (simp add: LInsert_def Let_def putList_storeList)
qed

subsection \<open>LREM\<close>

fun removeFirst :: "nat \<Rightarrow> 'a \<Rightarrow> 'a list \<Rightarrow> 'a list" where
  "removeFirst n x [] = []"
| "removeFirst n x (y # l) =
     (if n = 0 then y # l else if y = x then removeFirst (n - 1) x l else y # removeFirst n x l)"

lemma removeFirst_0 [simp]: "removeFirst 0 x l = l"
  by (cases l) simp_all

lemma removeFirst_all: "count_list l x \<le> n \<Longrightarrow> removeFirst n x l = filter (\<lambda>y. y \<noteq> x) l"
proof (induction l arbitrary: n)
  case (Cons y l)
  show ?case
  proof (cases "y = x")
    case True
    with Cons.prems obtain m where "n = Suc m" by (cases n) auto
    with True Cons show ?thesis by simp
  next
    case False
    have "filter (\<lambda>y. y \<noteq> x) l = l" if "n = 0"
      using Cons.prems that False by (auto simp: filter_id_conv count_list_0_iff)
    with False Cons show ?thesis by auto
  qed
qed simp

lemma length_removeFirst: "length (removeFirst n x l) = length l - min n (count_list l x)"
proof (induction l arbitrary: n)
  case (Cons y l)
  have "count_list l x \<le> length l" by (rule count_le_length)
  with Cons.IH show ?case by (auto simp: min_def Suc_diff_le)
qed simp

lemma lremHead_eq:
  assumes "0 \<le> removed" and "cnt \<noteq> 0"
  shows "lremHead v cnt absCnt l acc removed =
    (acc @ removeFirst (nat (absCnt - removed)) v l,
     removed + int (min (nat (absCnt - removed)) (count_list l v)))"
  using assms
proof (induction l arbitrary: acc removed)
  case (Cons y l)
  have "nat (absCnt - (removed + 1)) = nat (absCnt - removed) - 1" by simp
  with Cons show ?case by (auto simp: min_def)
qed simp

lemma lremHead_all:
  "lremHead v 0 absCnt l acc removed = (acc @ filter (\<lambda>y. y \<noteq> v) l, removed + int (count_list l v))"
  by (induction l arbitrary: acc removed) auto

lemma lremTail_eq:
  "0 \<le> removed \<Longrightarrow> lremTail v absCnt l acc removed =
    (rev (removeFirst (nat (absCnt - removed)) v l) @ acc,
     removed + int (min (nat (absCnt - removed)) (count_list l v)))"
proof (induction l arbitrary: acc removed)
  case (Cons y l)
  have "nat (absCnt - (removed + 1)) = nat (absCnt - removed) - 1" by simp
  with Cons show ?case by (auto simp: min_def)
qed simp

text \<open>What LREM leaves, and how many it removes, for every count but the smallest integer.\<close>

definition lremSpec :: "int \<Rightarrow> 'a \<Rightarrow> 'a list \<Rightarrow> 'a list" where
  "lremSpec cnt v l =
     (if cnt = 0 then filter (\<lambda>y. y \<noteq> v) l
      else if 0 < cnt then removeFirst (nat cnt) v l
      else rev (removeFirst (nat (- cnt)) v (rev l)))"

lemma count_list_rev [simp]: "count_list (rev l) x = count_list l x"
  by (induction l) auto

lemma LRem_eq:
  assumes wf: "wf_store s" and cnt: "in64 cnt" "cnt \<noteq> minInt64"
  shows "LRem now key cnt v s =
    (if typeOf now key s = NoKey then (s, Inr 0)
     else if typeOf now key s \<noteq> TList then (s, Inl ErrWrongType)
     else
       let l = listAt key s
       in if v \<in> set l
          then (bumpVersion key (storeList key (lremSpec cnt v l) s),
                Inr (if cnt = 0 then int (count_list l v) else min \<bar>cnt\<bar> (int (count_list l v))))
          else (s, Inr 0))"
proof -
  have w: "wrap64 (- cnt) = - cnt"
    using cnt by (intro wrap64_id) (auto simp: in64_def minInt64_def maxInt64_def)
  have m: "int (min (nat n) m) = min n (int m)" if "0 \<le> n" for n m
    using that by simp
  show ?thesis
    using listAt_ne [OF wf, of now key]
    by (auto simp: LRem_def getList_typeOf [OF wf] Let_def w lremHead_eq lremHead_all lremTail_eq
        lremSpec_def m count_list_0_iff not_less min_def)
qed

lemma LTrim_eq:
  assumes "wf_store s"
  shows "LTrim now key start stop s =
    (if typeOf now key s = NoKey then (s, Inr ())
     else if typeOf now key s \<noteq> TList then (s, Inl ErrWrongType)
     else (bumpVersion key (storeList key (rangeOf start stop (listAt key s)) s), Inr ()))"
proof -
  let ?l = "listAt key s"
  let ?lo = "max 0 (fromEnd (int (length ?l)) start)"
  let ?hi = "min (int (length ?l) - 1) (fromEnd (int (length ?l)) stop)"
  have "\<not> ?hi < ?lo \<Longrightarrow> subslice ?lo ?hi ?l \<noteq> []" by (intro subslice_ne) auto
  then show ?thesis
    by (simp add: LTrim_def Let_def clampRange_eq rangeOf_take_drop delList_storeList putList_storeList)
qed

lemma LMove_eq:
  fixes srcLeft :: bool
  assumes "listAt src s \<noteq> []" and "typeOf now src s \<in> {NoKey, TList}" and "typeOf now dst s \<in> {NoKey, TList}"
  defines "x \<equiv> (if srcLeft then hd (listAt src s) else last (listAt src s))"
    and "rest \<equiv> (if srcLeft then tl (listAt src s) else butlast (listAt src s))"
  shows "LMove now src dst srcLeft dstLeft s =
    (let s1 = storeList src rest s;
         s2 = storeList dst (if dstLeft then x # listAt dst s1 else listAt dst s1 @ [x]) s1
     in (bumpVersion dst (bumpVersion src s2), Inr (Some x)))"
  using assms(1-3) by (auto simp: LMove_def Let_def putList_storeList x_def rest_def)

section \<open>The invariant\<close>

text \<open>
  A list operation may rely on the type check of a settled key: then it finds the key free or
  holding a list, and leaves it so.
\<close>

lemma settled_list:
  "wf_store s \<Longrightarrow> settled now s key \<Longrightarrow> typeOf now key s \<in> {NoKey, TList} \<Longrightarrow> fits s key TList"
  by (auto simp: settled_fits)

lemmas list_intros = wf_store_bumpVersion storeList_entry(1) settled_list

lemma wf_store_LPush:
  "wf_store s \<Longrightarrow> settled now s key \<Longrightarrow> vals \<noteq> [] \<Longrightarrow> wf_store (fst (LPush now key vals s))"
  by (simp add: LPush_eq list_intros)

lemma wf_store_RPush:
  "wf_store s \<Longrightarrow> settled now s key \<Longrightarrow> vals \<noteq> [] \<Longrightarrow> wf_store (fst (RPush now key vals s))"
  by (simp add: RPush_eq list_intros)

lemma LPop_total:
  assumes "wf_store s" and "0 \<le> cnt"
  obtains s' r where "LPop now key cnt s = Ret (s', r)" "wf_store s'"
  using assms typeOf_fits [OF assms(1), of now key TList]
  by (cases "typeOf now key s") (auto simp: LPop_eq list_intros)

lemma RPop_total:
  assumes "wf_store s" and "0 \<le> cnt"
  obtains s' r where "RPop now key cnt s = Ret (s', r)" "wf_store s'"
  using assms typeOf_fits [OF assms(1), of now key TList]
  by (cases "typeOf now key s") (auto simp: RPop_eq list_intros)

lemma wf_store_LSet: "wf_store s \<Longrightarrow> wf_store (fst (LSet now key idx v s))"
  using typeOf_fits [of s now key TList]
  by (auto simp: LSet_eq Let_def list_intros)

lemma wf_store_LInsert: "wf_store s \<Longrightarrow> wf_store (fst (LInsert now key before pivot v s))"
  using typeOf_fits [of s now key TList]
  by (auto simp: LInsert_def Let_def list_intros putList_storeList split: option.split)

lemma wf_store_LRem: "wf_store s \<Longrightarrow> wf_store (fst (LRem now key cnt v s))"
  using typeOf_fits [of s now key TList]
  by (auto simp: LRem_def Let_def list_intros getList_typeOf case_prod_beta)

lemma wf_store_LTrim: "wf_store s \<Longrightarrow> wf_store (fst (LTrim now key start stop s))"
  using typeOf_fits [of s now key TList] by (auto simp: LTrim_eq list_intros)

lemma wf_store_LMove:
  assumes wf: "wf_store s" and st: "settled now s src" "settled now s dst"
  shows "wf_store (fst (LMove now src dst srcLeft dstLeft s))"
proof (cases "listAt src s \<noteq> [] \<and> typeOf now src s \<in> {NoKey, TList} \<and> typeOf now dst s \<in> {NoKey, TList}")
  case False
  then show ?thesis using wf by (auto simp: LMove_def Let_def)
next
  case True
  then have fit: "fits s src TList" "fits s dst TList" using wf st by (auto intro: settled_list)
  then have "fits (storeList src l s) dst TList" for l
    using storeList_entry(2) [OF wf fit(1), of l] by (auto simp: fits_def)
  with True fit wf show ?thesis
    by (simp add: LMove_eq Let_def list_intros)
qed

section \<open>Versions\<close>

lemma versioned_LPush: "versioned (fst (LPush now key vals s)) s"
  unfolding LPush_def by (simp add: Let_def versioned_write same_at_def Version_def)

lemma versioned_RPush: "versioned (fst (RPush now key vals s)) s"
  unfolding RPush_def by (simp add: Let_def versioned_write same_at_def Version_def)

lemma versioned_LPop: "LPop now key cnt s = Ret (s', r) \<Longrightarrow> versioned s' s"
  by (auto simp: LPop_def Let_def versioned_write split: sum.splits if_splits)

lemma versioned_RPop: "RPop now key cnt s = Ret (s', r) \<Longrightarrow> versioned s' s"
  by (auto simp: RPop_def Let_def versioned_write split: sum.splits if_splits)

lemma versioned_LSet: "versioned (fst (LSet now key idx v s)) s"
  unfolding LSet_def by (simp add: Let_def versioned_write same_at_def Version_def)

lemma versioned_LInsert: "versioned (fst (LInsert now key before pivot v s)) s"
  unfolding LInsert_def by (simp add: Let_def versioned_write same_at_def Version_def split: option.split)

lemma versioned_LRem: "versioned (fst (LRem now key cnt v s)) s"
  by (simp add: LRem_def Let_def case_prod_beta versioned_write split: sum.split)

lemma versioned_LTrim: "versioned (fst (LTrim now key start stop s)) s"
  by (simp add: LTrim_def Let_def case_prod_beta versioned_write same_at_def Version_def)

lemma versioned_LMove: "versioned (fst (LMove now src dst srcLeft dstLeft s)) s"
  by (simp add: LMove_def Let_def case_prod_beta versioned_write2 same_at_def Version_def storeList_def)

end
