(* ===== verification/CmdList.thy ===== *)
theory CmdList
  imports CmdBase StoreList
begin

text \<open>
  The list commands, \<^verbatim>\<open>internal/commands/list.go\<close>.
\<close>

definition handleLPush :: handler where
  "handleLPush env args s =
     (if length args < 3 then Ret (s, wrongArgs ''LPUSH'')
      else replyOf 0 Integer (LPush (clock env) (args ! 1) (drop 2 args) s))"

definition handleRPush :: handler where
  "handleRPush env args s =
     (if length args < 3 then Ret (s, wrongArgs ''RPUSH'')
      else replyOf 0 Integer (RPush (clock env) (args ! 1) (drop 2 args) s))"

definition handleLPushX :: handler where
  "handleLPushX env args s =
     (if length args < 3 then Ret (s, wrongArgs ''LPUSHX'')
      else if Type (clock env) (args ! 1) s \<noteq> ''list'' then Ret (s, Integer 0)
      else replyOf 0 Integer (LPush (clock env) (args ! 1) (drop 2 args) s))"

definition handleRPushX :: handler where
  "handleRPushX env args s =
     (if length args < 3 then Ret (s, wrongArgs ''RPUSHX'')
      else if Type (clock env) (args ! 1) s \<noteq> ''list'' then Ret (s, Integer 0)
      else replyOf 0 Integer (RPush (clock env) (args ! 1) (drop 2 args) s))"

text \<open>The optional count of \<^verbatim>\<open>LPOP\<close>, \<^verbatim>\<open>RPOP\<close> and \<^verbatim>\<open>SPOP\<close>: \<open>None\<close> is the range error.\<close>

definition popCount :: "string list \<Rightarrow> int option" where
  "popCount args =
     (if length args = 3 then
        (case ParseInt (args ! 2) of None \<Rightarrow> None | Some n \<Rightarrow> if n < 0 then None else Some n)
      else Some 1)"

definition oneOrAll :: "bool \<Rightarrow> string list \<Rightarrow> Response" where
  "oneOrAll withCount vals =
     (if \<not> withCount then (if vals = [] then NullBulkString else BulkString (vals ! 0))
      else bulkArray vals)"

definition popReply :: "bool \<Rightarrow> string list option \<Rightarrow> Response" where
  "popReply withCount vals =
     (case vals of None \<Rightarrow> NullBulkString | Some vs \<Rightarrow> oneOrAll withCount vs)"

definition handleLPop :: handler where
  "handleLPop env args s =
     (if length args < 2 \<or> 3 < length args then Ret (s, wrongArgs ''LPOP'')
      else
        case popCount args of
          None \<Rightarrow> Ret (s, notInteger)
        | Some cnt \<Rightarrow>
            case LPop (clock env) (args ! 1) cnt s of
              Panic \<Rightarrow> Panic
            | Ret p \<Rightarrow> replyOf None (popReply (length args = 3)) p)"

definition handleRPop :: handler where
  "handleRPop env args s =
     (if length args < 2 \<or> 3 < length args then Ret (s, wrongArgs ''RPOP'')
      else
        case popCount args of
          None \<Rightarrow> Ret (s, notInteger)
        | Some cnt \<Rightarrow>
            case RPop (clock env) (args ! 1) cnt s of
              Panic \<Rightarrow> Panic
            | Ret p \<Rightarrow> replyOf None (popReply (length args = 3)) p)"

definition handleLLen :: handler where
  "handleLLen env args s =
     (if length args \<noteq> 2 then Ret (s, wrongArgs ''LLEN'')
      else replyOf 0 Integer (s, LLen (clock env) (args ! 1) s))"

definition handleLRange :: handler where
  "handleLRange env args s =
     (if length args \<noteq> 4 then Ret (s, wrongArgs ''LRANGE'')
      else
        case (ParseInt (args ! 2), ParseInt (args ! 3)) of
          (Some start, Some stop) \<Rightarrow> replyOf [] bulkArray (s, LRange (clock env) (args ! 1) start stop s)
        | _ \<Rightarrow> Ret (s, notInteger))"

definition handleLIndex :: handler where
  "handleLIndex env args s =
     (if length args \<noteq> 3 then Ret (s, wrongArgs ''LINDEX'')
      else
        case ParseInt (args ! 2) of
          None \<Rightarrow> Ret (s, notInteger)
        | Some idx \<Rightarrow> replyOf None bulkOrNull (s, LIndex (clock env) (args ! 1) idx s))"

definition handleLSet :: handler where
  "handleLSet env args s =
     (if length args \<noteq> 4 then Ret (s, wrongArgs ''LSET'')
      else
        case ParseInt (args ! 2) of
          None \<Rightarrow> Ret (s, notInteger)
        | Some idx \<Rightarrow>
            (case LSet (clock env) (args ! 1) idx (args ! 3) s of
               (s, Inl e) \<Rightarrow> Ret (s, Error (errorText e))
             | (s, Inr _) \<Rightarrow> Ret (s, okReply)))"

definition handleLInsert :: handler where
  "handleLInsert env args s =
     (if length args \<noteq> 5 then Ret (s, wrongArgs ''LINSERT'')
      else
        let place = toUpper (args ! 2)
        in if place \<noteq> ''BEFORE'' \<and> place \<noteq> ''AFTER'' then Ret (s, syntaxError)
           else replyOf 0 Integer (LInsert (clock env) (args ! 1) (place = ''BEFORE'') (args ! 3) (args ! 4) s))"

definition handleLRem :: handler where
  "handleLRem env args s =
     (if length args \<noteq> 4 then Ret (s, wrongArgs ''LREM'')
      else
        case ParseInt (args ! 2) of
          None \<Rightarrow> Ret (s, notInteger)
        | Some cnt \<Rightarrow> replyOf 0 Integer (LRem (clock env) (args ! 1) cnt (args ! 3) s))"

definition handleLTrim :: handler where
  "handleLTrim env args s =
     (if length args \<noteq> 4 then Ret (s, wrongArgs ''LTRIM'')
      else
        case (ParseInt (args ! 2), ParseInt (args ! 3)) of
          (Some start, Some stop) \<Rightarrow>
            (case LTrim (clock env) (args ! 1) start stop s of
               (s, Inl e) \<Rightarrow> Ret (s, Error (errorText e))
             | (s, Inr _) \<Rightarrow> Ret (s, okReply))
        | _ \<Rightarrow> Ret (s, notInteger))"

definition endOf :: "string \<Rightarrow> bool option" where
  "endOf arg =
     (let a = toUpper arg in if a = ''LEFT'' then Some True else if a = ''RIGHT'' then Some False else None)"

definition handleLMove :: handler where
  "handleLMove env args s =
     (if length args \<noteq> 5 then Ret (s, wrongArgs ''LMOVE'')
      else
        case endOf (args ! 3) of
          None \<Rightarrow> Ret (s, syntaxError)
        | Some srcLeft \<Rightarrow>
            (case endOf (args ! 4) of
               None \<Rightarrow> Ret (s, syntaxError)
             | Some dstLeft \<Rightarrow>
                 replyOf None bulkOrNull (LMove (clock env) (args ! 1) (args ! 2) srcLeft dstLeft s)))"

definition handleRPopLPush :: handler where
  "handleRPopLPush env args s =
     (if length args \<noteq> 3 then Ret (s, wrongArgs ''RPOPLPUSH'')
      else replyOf None bulkOrNull (LMove (clock env) (args ! 1) (args ! 2) False True s))"

section \<open>LPOS\<close>

record lposOpts =
  lp_rank :: int
  lp_count :: int
  lp_hasCount :: bool
  lp_maxlen :: int

definition rankError :: Response where
  "rankError =
     Error (''ERR RANK can'' @ [CHR 0x27] @
       ''t be zero: use 1 to start from the first match, 2 from the second '' @
       [CHR 0xE2, CHR 0x80, CHR 0xA6] @ '' or use negative to start from the end of the list'')"

fun lposOptions :: "string list \<Rightarrow> lposOpts \<Rightarrow> Response + lposOpts" where
  "lposOptions [] p = Inr p"
| "lposOptions (a # rest) p =
     (let opt = toUpper a
      in if opt \<notin> {''RANK'', ''COUNT'', ''MAXLEN''} then Inl syntaxError
         else
           case rest of
             [] \<Rightarrow> Inl syntaxError
           | v # rest' \<Rightarrow>
               let n = ParseInt v
               in if opt = ''RANK'' then
                    (if n = None \<or> n = Some 0 then Inl rankError
                     else lposOptions rest' (p\<lparr>lp_rank := the n\<rparr>))
                  else if n = None \<or> the n < 0 then Inl notInteger
                  else if opt = ''COUNT'' then
                    lposOptions rest' (p\<lparr>lp_count := the n, lp_hasCount := True\<rparr>)
                  else lposOptions rest' (p\<lparr>lp_maxlen := the n\<rparr>))"

text \<open>
  The two scans differ in the order of the indices only.  \<open>enough\<close> is the condition of the
  \<^verbatim>\<open>break\<close>, tested after each position is appended.
\<close>

fun lposScan :: "(nat \<Rightarrow> bool) \<Rightarrow> string \<Rightarrow> int \<Rightarrow> (int \<times> string) list \<Rightarrow> int \<Rightarrow> int list \<Rightarrow> int list" where
  "lposScan enough target rank [] cnt ps = ps"
| "lposScan enough target rank ((i, v) # rest) cnt ps =
     (if v = target then
        if rank \<le> cnt + 1 then
          (if enough (length ps + 1) then ps @ [i]
           else lposScan enough target rank rest (cnt + 1) (ps @ [i]))
        else lposScan enough target rank rest (cnt + 1) ps
      else lposScan enough target rank rest cnt ps)"

definition indexed :: "string list \<Rightarrow> (int \<times> string) list" where
  "indexed vals = zip (map int [0..<length vals]) vals"

definition lposPositions :: "lposOpts \<Rightarrow> string \<Rightarrow> string list \<Rightarrow> int list" where
  "lposPositions p target vals =
     (let limit = (if 0 < lp_maxlen p \<and> lp_maxlen p < int (length vals) then lp_maxlen p
                   else int (length vals));
          window = indexed (take (nat limit) vals);
          enough = (\<lambda>n. lp_hasCount p \<and> 0 < lp_count p \<and> lp_count p \<le> int n)
      in if 0 \<le> lp_rank p then lposScan enough target (lp_rank p) window 0 []
         else lposScan enough target (wrap64 (- lp_rank p)) (rev window) 0 [])"

definition lposReply :: "lposOpts \<Rightarrow> int list \<Rightarrow> Response" where
  "lposReply p positions =
     (if lp_hasCount p then Array (map Integer positions)
      else if positions = [] then NullBulkString
      else Integer (positions ! 0))"

definition handleLPos :: handler where
  "handleLPos env args s =
     (if length args < 3 then Ret (s, wrongArgs ''LPOS'')
      else
        case lposOptions (drop 3 args) \<lparr>lp_rank = 1, lp_count = 1, lp_hasCount = False, lp_maxlen = 0\<rparr> of
          Inl r \<Rightarrow> Ret (s, r)
        | Inr p \<Rightarrow>
            replyOf [] (\<lambda>vals. lposReply p (lposPositions p (args ! 2) vals))
              (s, LRange (clock env) (args ! 1) 0 (- 1) s))"

section \<open>Contracts\<close>

lemmas list_read_defs = handleLLen_def handleLRange_def handleLIndex_def handleLPos_def

lemmas list_write_defs = handleLPush_def handleRPush_def handleLPushX_def handleRPushX_def handleLPop_def
  handleRPop_def handleLSet_def handleLInsert_def handleLRem_def handleLTrim_def handleLMove_def
  handleRPopLPush_def

lemma not_isError_list [simp]:
  "\<not> isError (oneOrAll w vs)" "\<not> isError (popReply w v)" "\<not> isError (lposReply p ps)"
  by (auto simp: oneOrAll_def popReply_def lposReply_def split: option.split)

lemma failKeeps_list [simp]:
  "failKeeps s (LPush now k vs s)" "failKeeps s (RPush now k vs s)" "failKeeps s (LInsert now k b p v s)"
  "failKeeps s (LRem now k n v s)" "failKeeps s (LTrim now k i j s)" "failKeeps s (LSet now k i v s)"
  "failKeeps s (LMove now k d a b s)"
  by (auto simp: failKeeps_def LPush_def RPush_def LInsert_def LRem_def LTrim_def LSet_def LMove_def Let_def
      split: sum.splits prod.splits option.splits if_splits)

lemma failKeeps_pop:
  "LPop now k n s = Ret p \<Longrightarrow> failKeeps s p" "RPop now k n s = Ret p \<Longrightarrow> failKeeps s p"
  by (auto simp: failKeeps_def LPop_def RPop_def Let_def split: sum.splits if_splits)

lemma readonly_list [readonly_intros]:
  "readonly handleLLen" "readonly handleLRange" "readonly handleLIndex" "readonly handleLPos"
  by (auto intro!: readonlyI simp: list_read_defs split: option.split sum.split)

lemma guarded_push [guarded_intros]:
  "guarded handleLPush" "guarded handleRPush" "guarded handleLPushX" "guarded handleRPushX"
  "guarded handleLInsert" "guarded handleLRem" "guarded handleLMove" "guarded handleRPopLPush"
  by (auto intro!: guardedI errKeeps_replyOf simp: list_write_defs Let_def split: option.split)

lemma guarded_pop [guarded_intros]: "guarded handleLPop" "guarded handleRPop"
  by (auto intro!: guardedI errKeeps_replyOf simp: list_write_defs failKeeps_pop split: option.split go.split)

lemma LSet_fails: "LSet now k i v s = (s', Inl e) \<Longrightarrow> s' = s"
  using failKeeps_list(6) [of s now k i v] by (simp add: failKeeps_def)

lemma LTrim_fails: "LTrim now k i j s = (s', Inl e) \<Longrightarrow> s' = s"
  using failKeeps_list(5) [of s now k i j] by (simp add: failKeeps_def)

lemma guarded_lset [guarded_intros]: "guarded handleLSet" "guarded handleLTrim"
  by (auto intro!: guardedI dest: LSet_fails LTrim_fails simp: list_write_defs
      split: option.split prod.split sum.split)

lemma popCount_nonneg: "popCount args = Some n \<Longrightarrow> 0 \<le> n"
  by (auto simp: popCount_def split: if_splits option.splits)

lemma pop_returns: "0 \<le> n \<Longrightarrow> returns (LPop now k n s)" "0 \<le> n \<Longrightarrow> returns (RPop now k n s)"
  by (auto simp: LPop_def RPop_def Let_def split: sum.split)

lemma panic_pop [panic_intros]: "panicFree handleLPop" "panicFree handleRPop"
  by (auto intro!: panicFreeI pop_returns simp: list_write_defs popCount_nonneg split: option.split)

lemma panic_list [panic_intros]:
  "panicFree handleLLen" "panicFree handleLRange" "panicFree handleLIndex" "panicFree handleLPos"
  "panicFree handleLPush" "panicFree handleRPush" "panicFree handleLPushX" "panicFree handleRPushX"
  "panicFree handleLSet" "panicFree handleLInsert" "panicFree handleLRem" "panicFree handleLTrim"
  "panicFree handleLMove" "panicFree handleRPopLPush"
  by (auto intro!: panicFreeI simp: list_read_defs list_write_defs Let_def
      split: option.split sum.split prod.split)

end
