(* ===== verification/StoreSet.thy ===== *)
theory StoreSet
  imports Keyspace
begin

text \<open>
  The set operations of \<^verbatim>\<open>internal/storage/memory.go\<close> (\<^verbatim>\<open>getSet\<close> to \<^verbatim>\<open>SMove\<close>), with their
  refinement to finite sets of strings.

  A nil map and an empty one are both \<open>[]\<close>: the store keeps no empty set.  The random operations
  take the draws \<open>rnd\<close> as an argument.
\<close>

section \<open>Operations\<close>

definition setAt :: "string \<Rightarrow> MemoryStore \<Rightarrow> goset" where
  "setAt key s = (case map_of (sets s) key of None \<Rightarrow> [] | Some st \<Rightarrow> st)"

definition getSet :: "gotime \<Rightarrow> string \<Rightarrow> MemoryStore \<Rightarrow> error + goset" where
  "getSet now key s =
     (let t = typeOf now key s
      in if t = NoKey then Inr []
         else if t \<noteq> TSet then Inl ErrWrongType
         else Inr (setAt key s))"

fun addMembers :: "string list \<Rightarrow> goset \<Rightarrow> goset \<times> int" where
  "addMembers [] st = (st, 0)"
| "addMembers (m # ms) st =
     (if map_of st m = None then (let (st', n) = addMembers ms (mput m () st) in (st', n + 1))
      else addMembers ms st)"

definition SAdd :: "gotime \<Rightarrow> string \<Rightarrow> string list \<Rightarrow> MemoryStore \<Rightarrow> MemoryStore \<times> (error + int)" where
  "SAdd now key members s =
     (let t = typeOf now key s
      in if t \<noteq> NoKey \<and> t \<noteq> TSet then (s, Inl ErrWrongType)
         else
           let (st, added) = addMembers members (setAt key s)
           in (bumpVersion key (s\<lparr>sets := mput key st (sets s)\<rparr>), Inr added))"

text \<open>A set written back, or dropped with its deadline when it has become empty.\<close>

definition storeSet :: "string \<Rightarrow> goset \<Rightarrow> MemoryStore \<Rightarrow> MemoryStore" where
  "storeSet key st s =
     (if length st = 0 then s\<lparr>sets := mdel key (sets s), keyExpiry := mdel key (keyExpiry s)\<rparr>
      else s\<lparr>sets := mput key st (sets s)\<rparr>)"

definition SRem :: "gotime \<Rightarrow> string \<Rightarrow> string list \<Rightarrow> MemoryStore \<Rightarrow> MemoryStore \<times> (error + int)" where
  "SRem now key members s =
     (case getSet now key s of
        Inl e \<Rightarrow> (s, Inl e)
      | Inr st \<Rightarrow>
          if st = [] then (s, Inr 0)
          else let (st, n) = removeKeys members st
               in (bumpVersion key (storeSet key st s), Inr n))"

definition SMembers :: "gotime \<Rightarrow> string \<Rightarrow> MemoryStore \<Rightarrow> error + string list" where
  "SMembers now key s = map_sum id mkeys (getSet now key s)"

definition SCard :: "gotime \<Rightarrow> string \<Rightarrow> MemoryStore \<Rightarrow> error + int" where
  "SCard now key s = map_sum id (\<lambda>st. int (length st)) (getSet now key s)"

definition SIsMember :: "gotime \<Rightarrow> string \<Rightarrow> string \<Rightarrow> MemoryStore \<Rightarrow> error + bool" where
  "SIsMember now key member s = map_sum id (\<lambda>st. map_of st member \<noteq> None) (getSet now key s)"

definition SMIsMember :: "gotime \<Rightarrow> string \<Rightarrow> string list \<Rightarrow> MemoryStore \<Rightarrow> error + int list" where
  "SMIsMember now key members s =
     map_sum id (\<lambda>st. map (\<lambda>m. if map_of st m \<noteq> None then 1 else 0) members) (getSet now key s)"

text \<open>The inner loop of the intersection: the first key without the member ends it.\<close>

fun inAll :: "gotime \<Rightarrow> string \<Rightarrow> string list \<Rightarrow> MemoryStore \<Rightarrow> error + bool" where
  "inAll now m [] s = Inr True"
| "inAll now m (k # ks) s =
     (case getSet now k s of
        Inl e \<Rightarrow> Inl e
      | Inr st \<Rightarrow> if map_of st m = None then Inr False else inAll now m ks s)"

text \<open>The outer loop, for the members that a test keeps.\<close>

fun keepMembers :: "(string \<Rightarrow> error + bool) \<Rightarrow> string list \<Rightarrow> error + string list" where
  "keepMembers test [] = Inr []"
| "keepMembers test (m # ms) =
     (case test m of
        Inl e \<Rightarrow> Inl e
      | Inr b \<Rightarrow> map_sum id (\<lambda>r. if b then m # r else r) (keepMembers test ms))"

definition setInter :: "gotime \<Rightarrow> string list \<Rightarrow> MemoryStore \<Rightarrow> error + string list" where
  "setInter now keys s =
     (case keys of
        [] \<Rightarrow> Inr []
      | key # ks \<Rightarrow>
          (case getSet now key s of
             Inl e \<Rightarrow> Inl e
           | Inr first \<Rightarrow> if first = [] then Inr [] else keepMembers (\<lambda>m. inAll now m ks s) (mkeys first)))"

definition SInter :: "gotime \<Rightarrow> string list \<Rightarrow> MemoryStore \<Rightarrow> error + string list" where
  "SInter now keys s = setInter now keys s"

fun unionLoop :: "gotime \<Rightarrow> string list \<Rightarrow> MemoryStore \<Rightarrow> goset \<Rightarrow> error + goset" where
  "unionLoop now [] s seen = Inr seen"
| "unionLoop now (k # ks) s seen =
     (case getSet now k s of
        Inl e \<Rightarrow> Inl e
      | Inr st \<Rightarrow> unionLoop now ks s (fold (\<lambda>m seen. mput m () seen) (mkeys st) seen))"

definition setUnion :: "gotime \<Rightarrow> string list \<Rightarrow> MemoryStore \<Rightarrow> error + string list" where
  "setUnion now keys s = map_sum id mkeys (unionLoop now keys s [])"

definition SUnion :: "gotime \<Rightarrow> string list \<Rightarrow> MemoryStore \<Rightarrow> error + string list" where
  "SUnion now keys s = setUnion now keys s"

fun inOther :: "gotime \<Rightarrow> string \<Rightarrow> string list \<Rightarrow> MemoryStore \<Rightarrow> error + bool" where
  "inOther now m [] s = Inr False"
| "inOther now m (k # ks) s =
     (case getSet now k s of
        Inl e \<Rightarrow> Inl e
      | Inr st \<Rightarrow> if map_of st m \<noteq> None then Inr True else inOther now m ks s)"

definition setDiff :: "gotime \<Rightarrow> string list \<Rightarrow> MemoryStore \<Rightarrow> error + string list" where
  "setDiff now keys s =
     (case keys of
        [] \<Rightarrow> Inr []
      | key # ks \<Rightarrow>
          (case getSet now key s of
             Inl e \<Rightarrow> Inl e
           | Inr first \<Rightarrow> keepMembers (\<lambda>m. map_sum id Not (inOther now m ks s)) (mkeys first)))"

definition SDiff :: "gotime \<Rightarrow> string list \<Rightarrow> MemoryStore \<Rightarrow> error + string list" where
  "SDiff now keys s = setDiff now keys s"

text \<open>The common tail of the three store variants.\<close>

definition storeResult :: "string \<Rightarrow> error + string list \<Rightarrow> MemoryStore \<Rightarrow> MemoryStore \<times> (error + int)" where
  "storeResult dst r s =
     (case r of
        Inl e \<Rightarrow> (s, Inl e)
      | Inr members \<Rightarrow>
          let s = deleteKey dst s
          in if 0 < length members
             then let st = fold (\<lambda>m st. mput m () st) members []
                  in (bumpVersion dst (s\<lparr>sets := mput dst st (sets s)\<rparr>), Inr (int (length members)))
             else (s, Inr (int (length members))))"

definition SInterStore :: "gotime \<Rightarrow> string \<Rightarrow> string list \<Rightarrow> MemoryStore \<Rightarrow> MemoryStore \<times> (error + int)" where
  "SInterStore now dst keys s = storeResult dst (setInter now keys s) s"

definition SUnionStore :: "gotime \<Rightarrow> string \<Rightarrow> string list \<Rightarrow> MemoryStore \<Rightarrow> MemoryStore \<times> (error + int)" where
  "SUnionStore now dst keys s = storeResult dst (setUnion now keys s) s"

definition SDiffStore :: "gotime \<Rightarrow> string \<Rightarrow> string list \<Rightarrow> MemoryStore \<Rightarrow> MemoryStore \<times> (error + int)" where
  "SDiffStore now dst keys s = storeResult dst (setDiff now keys s) s"

text \<open>A string header is 16 bytes: \<^verbatim>\<open>make([]string, n)\<close> panics when \<open>n\<close> of them exceed the address space.\<close>

definition SRandMember :: "(nat \<Rightarrow> nat) \<Rightarrow> gotime \<Rightarrow> string \<Rightarrow> int \<Rightarrow> MemoryStore \<Rightarrow> (error + string list) go" where
  "SRandMember rnd now key cnt s =
     (case getSet now key s of
        Inl e \<Rightarrow> Ret (Inl e)
      | Inr st \<Rightarrow>
          if st = [] then Ret (Inr [])
          else
            let all = mkeys st
            in if cnt = 0 then Ret (Inr [])
               else if 0 < cnt then
                 (if int (length all) \<le> cnt then Ret (Inr all)
                  else Ret (Inr (take (nat cnt) (randShuffle rnd all))))
               else
                 let n = wrap64 (- cnt)
                 in if makeslice_ok 16 n
                    then Ret (Inr (map (\<lambda>i. all ! (rnd i mod length all)) [0..<nat n]))
                    else Panic)"

definition SPop :: "(nat \<Rightarrow> nat) \<Rightarrow> gotime \<Rightarrow> string \<Rightarrow> int \<Rightarrow> MemoryStore
    \<Rightarrow> (MemoryStore \<times> (error + string list)) go" where
  "SPop rnd now key cnt s =
     (case getSet now key s of
        Inl e \<Rightarrow> Ret (s, Inl e)
      | Inr st \<Rightarrow>
          if st = [] then Ret (s, Inr [])
          else
            let all = mkeys st
            in if int (length all) \<le> cnt
               then Ret (bumpVersion key (s\<lparr>sets := mdel key (sets s), keyExpiry := mdel key (keyExpiry s)\<rparr>), Inr all)
               else if cnt < 0 then Panic
               else
                 let result = take (nat cnt) (randShuffle rnd all);
                     st = fold (\<lambda>m st. mdel m st) result st
                 in Ret (bumpVersion key (s\<lparr>sets := mput key st (sets s)\<rparr>), Inr result))"

definition SMove :: "gotime \<Rightarrow> string \<Rightarrow> string \<Rightarrow> string \<Rightarrow> MemoryStore \<Rightarrow> MemoryStore \<times> (error + bool)" where
  "SMove now src dst member s =
     (if typeOf now src s \<noteq> NoKey \<and> typeOf now src s \<noteq> TSet then (s, Inl ErrWrongType)
      else if typeOf now dst s \<noteq> NoKey \<and> typeOf now dst s \<noteq> TSet then (s, Inl ErrWrongType)
      else
        let srcSet = setAt src s
        in if map_of srcSet member = None then (s, Inr False)
           else
             let s = storeSet src (mdel member srcSet) s;
                 s = s\<lparr>sets := mput dst (mput member () (setAt dst s)) (sets s)\<rparr>
             in (bumpVersion dst (bumpVersion src s), Inr True))"

section \<open>Reading\<close>

text \<open>The members a key has for the readers: none when it is missing, expired or of another type.\<close>

definition members :: "gotime \<Rightarrow> MemoryStore \<Rightarrow> string \<Rightarrow> string set" where
  "members now s k = (case getSet now k s of Inl _ \<Rightarrow> {} | Inr st \<Rightarrow> dom (map_of st))"

definition setLike :: "gotime \<Rightarrow> MemoryStore \<Rightarrow> string \<Rightarrow> bool" where
  "setLike now s k \<longleftrightarrow> typeOf now k s = NoKey \<or> typeOf now k s = TSet"

lemma getSet_setLike: "setLike now s k \<Longrightarrow> \<exists>st. getSet now k s = Inr st \<and> dom (map_of st) = members now s k"
  by (auto simp: setLike_def getSet_def members_def Let_def)

lemma getSet_wrong: "\<not> setLike now s k \<Longrightarrow> getSet now k s = Inl ErrWrongType"
  by (auto simp: setLike_def getSet_def Let_def)

lemma members_live:
  assumes "keyOk s k"
  shows "members now s k = (case live now s k of Some (OSet st, _) \<Rightarrow> dom (map_of st) | _ \<Rightarrow> {})"
  using assms
proof (cases rule: key_cases [where now = now])
  case (container ob)
  then show ?thesis
    by (cases ob) (auto simp: members_def getSet_def setAt_def live_def container_def container_of_def
        split: option.splits)
qed (auto simp: members_def getSet_def live_def expired_dlOf)

lemma getSet_wf: "wf_store s \<Longrightarrow> getSet now k s = Inr st \<Longrightarrow> wf_map st"
  using wf_store_key [of s k]
  by (auto simp: getSet_def setAt_def Let_def keyOk_def key_ok_def split: if_splits option.splits)

lemma wf_map_distinct: "wf_map m \<Longrightarrow> distinct (mkeys m)"
  by (simp add: wf_map_def)

subsection \<open>Set algebra\<close>

lemma inAll_spec: "(\<forall>k \<in> set ks. setLike now s k) \<Longrightarrow> inAll now m ks s = Inr (\<forall>k \<in> set ks. m \<in> members now s k)"
proof (induction ks)
  case (Cons k ks)
  obtain st where "getSet now k s = Inr st" "dom (map_of st) = members now s k"
    using getSet_setLike [of now s k] Cons.prems by auto
  then show ?case using Cons by auto
qed simp

lemma inOther_spec: "(\<forall>k \<in> set ks. setLike now s k) \<Longrightarrow> inOther now m ks s = Inr (\<exists>k \<in> set ks. m \<in> members now s k)"
proof (induction ks)
  case (Cons k ks)
  obtain st where "getSet now k s = Inr st" "dom (map_of st) = members now s k"
    using getSet_setLike [of now s k] Cons.prems by auto
  then show ?case using Cons by auto
qed simp

lemma keepMembers_spec: "(\<And>m. m \<in> set ms \<Longrightarrow> test m = Inr (P m)) \<Longrightarrow> keepMembers test ms = Inr (filter P ms)"
  by (induction ms) simp_all

lemma setInter_spec:
  assumes "wf_store s" and "\<forall>k \<in> set keys. setLike now s k" and "keys \<noteq> []"
  obtains r where "setInter now keys s = Inr r" "distinct r" "set r = (\<Inter>k \<in> set keys. members now s k)"
proof -
  obtain key ks where keys: "keys = key # ks" using assms(3) by (cases keys) auto
  obtain st where st: "getSet now key s = Inr st" "dom (map_of st) = members now s key"
    using getSet_setLike [of now s key] assms(2) keys by auto
  have "setInter now keys s = Inr (filter (\<lambda>m. \<forall>k \<in> set ks. m \<in> members now s k) (mkeys st))"
    using assms(2) st(1) keys by (simp add: setInter_def keepMembers_spec [OF inAll_spec])
  moreover have "distinct (mkeys st)"
    using assms(1) st(1) by (intro wf_map_distinct getSet_wf)
  moreover have "set (mkeys st) = members now s key" using st(2) by (simp only: set_mkeys)
  ultimately show ?thesis using that keys by fastforce
qed

lemma setDiff_spec:
  assumes "wf_store s" and "\<forall>k \<in> set (key # ks). setLike now s k"
  obtains r where "setDiff now (key # ks) s = Inr r" "distinct r"
    "set r = members now s key - (\<Union>k \<in> set ks. members now s k)"
proof -
  obtain st where st: "getSet now key s = Inr st" "dom (map_of st) = members now s key"
    using getSet_setLike [of now s key] assms(2) by auto
  have "setDiff now (key # ks) s = Inr (filter (\<lambda>m. \<not> (\<exists>k \<in> set ks. m \<in> members now s k)) (mkeys st))"
    using assms(2) st(1)
    by (simp add: setDiff_def inOther_spec)
      (rule keepMembers_spec [where P = "\<lambda>m. \<forall>k \<in> set ks. m \<notin> members now s k"], simp)
  moreover have "distinct (mkeys st)"
    using assms(1) st(1) by (intro wf_map_distinct getSet_wf)
  moreover have "set (mkeys st) = members now s key" using st(2) by (simp only: set_mkeys)
  ultimately show ?thesis using that by fastforce
qed

lemma fold_mput_unit:
  "dom (map_of (fold (\<lambda>m st. mput m () st) ms st)) = set ms \<union> dom (map_of st)"
  "wf_map st \<Longrightarrow> wf_map (fold (\<lambda>m st. mput m () st) ms st)"
  by (induction ms arbitrary: st) (auto simp: dom_def)

lemma unionLoop_spec:
  assumes "\<forall>k \<in> set ks. setLike now s k"
  shows "\<exists>r. unionLoop now ks s seen = Inr r \<and> (wf_map seen \<longrightarrow> wf_map r) \<and>
    dom (map_of r) = dom (map_of seen) \<union> (\<Union>k \<in> set ks. members now s k)"
  using assms
proof (induction ks arbitrary: seen)
  case (Cons k ks)
  obtain st where st: "getSet now k s = Inr st" "dom (map_of st) = members now s k"
    using getSet_setLike [of now s k] Cons.prems by auto
  let ?seen = "fold (\<lambda>m seen. mput m () seen) (mkeys st) seen"
  have "dom (map_of ?seen) = members now s k \<union> dom (map_of seen)"
    by (simp only: fold_mput_unit set_mkeys st(2))
  then show ?case using Cons.IH [of ?seen] Cons.prems st(1) fold_mput_unit(2) [of seen "mkeys st"]
    by (auto simp: Un_ac)
qed simp

lemma setUnion_spec:
  assumes "\<forall>k \<in> set keys. setLike now s k"
  obtains r where "setUnion now keys s = Inr r" "distinct r" "set r = (\<Union>k \<in> set keys. members now s k)"
proof -
  obtain m where "unionLoop now keys s [] = Inr m" "wf_map m" "dom (map_of m) = (\<Union>k \<in> set keys. members now s k)"
    using unionLoop_spec [OF assms, of "[]"] by auto
  then show ?thesis using that [of "mkeys m"] by (simp only: setUnion_def set_mkeys wf_map_distinct) simp
qed

section \<open>Writing\<close>

lemma addMembers_spec:
  "dom (map_of (fst (addMembers ms st))) = dom (map_of st) \<union> set ms"
  "wf_map st \<Longrightarrow> wf_map (fst (addMembers ms st))"
  "ms \<noteq> [] \<or> st \<noteq> [] \<Longrightarrow> fst (addMembers ms st) \<noteq> []"
  "snd (addMembers ms st) = int (length (fst (addMembers ms st))) - int (length st)"
proof (induction ms arbitrary: st)
  case (Cons m ms)
  {
    case 1
    then show ?case using Cons.IH(1) by (auto simp: Let_def case_prod_beta)
  next
    case 2
    then show ?case using Cons.IH(2) by (simp add: Let_def case_prod_beta)
  next
    case 3
    have "st \<noteq> []" if "map_of st m \<noteq> None" using that by auto
    with 3 show ?case using Cons.IH(3) by (simp add: Let_def case_prod_beta)
  next
    case 4
    then show ?case using Cons.IH(4) by (simp add: Let_def case_prod_beta length_mput_None)
  }
qed simp_all

lemma storeSet_obj:
  "storeSet key st s = (if st = [] then delObj TSet key s else putObj key (OSet st) s)"
  by (simp add: storeSet_def)

lemma storeSet_entry:
  assumes "wf_store s" and "fits s key TSet" and "wf_map st"
  shows "wf_store (storeSet key st s)"
    and "entry (storeSet key st s) =
      (entry s)(key := if st = [] then None else Some (OSet st, deadline s key))"
  using assms wf_store_delObj [OF assms(1,2)] wf_store_putObj [of s key "OSet st"]
    entry_delObj [OF assms(1,2)] entry_putObj [of s key "OSet st"]
  by (simp_all add: storeSet_obj)

lemma storeSet_frame:
  "k \<noteq> key \<Longrightarrow> same_at k (storeSet key st s) t \<longleftrightarrow> same_at k s t"
  "Version k (storeSet key st s) = Version k s"
  by (simp_all add: storeSet_def same_at_def Version_def)

lemma putSet_storeSet: "st \<noteq> [] \<Longrightarrow> s\<lparr>sets := mput key st (sets s)\<rparr> = storeSet key st s"
  by (simp add: storeSet_def)

lemma delSet_storeSet:
  "s\<lparr>sets := mdel key (sets s), keyExpiry := mdel key (keyExpiry s)\<rparr> = storeSet key [] s"
  by (simp add: storeSet_def)

lemma setAt_storeSet [simp]: "setAt k (storeSet key st s) = (if k = key then st else setAt k s)"
  by (simp add: storeSet_def setAt_def)

lemma setAt_wf: "wf_store s \<Longrightarrow> wf_map (setAt k s)"
  using wf_store_key [of s k] by (auto simp: setAt_def keyOk_def key_ok_def split: option.splits)

lemma typeOf_setAt:
  "wf_store s \<Longrightarrow> typeOf now key s = TSet \<Longrightarrow>
     entry s key = Some (OSet (setAt key s), deadline s key) \<and> setAt key s \<noteq> []"
  using wf_store_key [of s key]
  by (auto simp: typeOf_def entry_def container_def deadline_def setAt_def keyOk_def key_ok_def
      split: if_splits)

lemma SAdd_eq:
  "ms \<noteq> [] \<Longrightarrow> SAdd now key ms s =
    (if setLike now s key
     then (bumpVersion key (storeSet key (fst (addMembers ms (setAt key s))) s),
           Inr (snd (addMembers ms (setAt key s))))
     else (s, Inl ErrWrongType))"
  using addMembers_spec(3) [of ms "setAt key s"]
  by (auto simp: SAdd_def setLike_def Let_def case_prod_beta putSet_storeSet)

lemma getSet_eq: "getSet now key s = (if typeOf now key s = NoKey then Inr []
    else if typeOf now key s = TSet then Inr (setAt key s) else Inl ErrWrongType)"
  by (simp add: getSet_def)

lemma settled_set:
  "wf_store s \<Longrightarrow> settled now s key \<Longrightarrow> setLike now s key \<Longrightarrow> fits s key TSet"
  by (auto simp: settled_fits setLike_def)

lemma wf_store_SAdd:
  "wf_store s \<Longrightarrow> settled now s key \<Longrightarrow> ms \<noteq> [] \<Longrightarrow> wf_store (fst (SAdd now key ms s))"
  using addMembers_spec(2) [OF setAt_wf, of s ms key]
  by (simp add: SAdd_eq storeSet_entry settled_set)

lemma wf_store_SRem: "wf_store s \<Longrightarrow> wf_store (fst (SRem now key ms s))"
  using typeOf_fits [of s now key TSet]
  by (auto simp: SRem_def getSet_eq Let_def case_prod_beta storeSet_entry setAt_wf)

lemma storeResult_state:
  "fst (storeResult dst (Inr ms) s) =
     (if ms = [] then deleteKey dst s
      else bumpVersion dst (putObj dst (OSet (fold (\<lambda>m st. mput m () st) ms [])) (deleteKey dst s)))"
  by (simp add: storeResult_def Let_def)

lemma storeResult_entry:
  assumes wf: "wf_store s"
  shows "wf_store (fst (storeResult dst (Inr ms) s))"
    and "entry (fst (storeResult dst (Inr ms) s)) =
      (entry s)(dst := if ms = [] then None else Some (OSet (fold (\<lambda>m st. mput m () st) ms []), None))"
proof -
  let ?st = "fold (\<lambda>m st. mput m () st) ms []"
  have fit: "fits (deleteKey dst s) dst (tagOf (OSet ?st))" by (simp add: fits_def entry_deleteKey)
  have "ms \<noteq> [] \<Longrightarrow> ?st \<noteq> []" using fold_mput_unit(1) [of ms "[]"] by auto
  then have ok: "ms \<noteq> [] \<Longrightarrow> obj_ok (OSet ?st)" by (simp add: fold_mput_unit)
  have dl: "deadline (deleteKey dst s) dst = None" by (simp add: deadline_def entry_deleteKey)
  have wf': "wf_store (deleteKey dst s)" using wf by simp
  note put = wf_store_putObj [OF wf' fit] entry_putObj [OF wf' fit]
  show "wf_store (fst (storeResult dst (Inr ms) s))"
    using put(1) [OF ok] wf by (simp add: storeResult_state del: putObj.simps)
  show "entry (fst (storeResult dst (Inr ms) s)) =
      (entry s)(dst := if ms = [] then None else Some (OSet ?st, None))"
    using put(2) [OF ok] by (simp add: storeResult_state entry_deleteKey dl del: putObj.simps)
qed

lemma wf_store_storeResult: "wf_store s \<Longrightarrow> wf_store (fst (storeResult dst r s))"
  by (cases r) (simp add: storeResult_def, simp add: storeResult_entry)

lemma fold_mdel:
  "map_of (fold (\<lambda>m st. mdel m st) ms st) = (\<lambda>k. if k \<in> set ms then None else map_of st k)"
  "wf_map st \<Longrightarrow> wf_map (fold (\<lambda>m st. mdel m st) ms st)"
  by (induction ms arbitrary: st) (auto simp: fun_eq_iff)

subsection \<open>Random removal\<close>

lemma SPop_total:
  assumes wf: "wf_store s" and cnt: "0 \<le> cnt" and ty: "typeOf now key s = TSet"
  defines "st \<equiv> setAt key s"
  obtains st' r where "SPop rnd now key cnt s = Ret (bumpVersion key (storeSet key st' s), Inr r)"
    "wf_map st'" "distinct r" "set r \<subseteq> dom (map_of st)" "dom (map_of st') = dom (map_of st) - set r"
    "int (length r) = min cnt (int (length st))"
proof (cases "int (length st) \<le> cnt")
  case True
  show ?thesis
    using True wf typeOf_setAt [OF wf ty] setAt_wf [OF wf, of key] wf_map_distinct [of st]
    by (intro that [of "[]" "mkeys st"])
      (auto simp: SPop_def getSet_eq ty st_def Let_def delSet_storeSet dom_map_of_conv_image_fst)
next
  case False
  let ?r = "take (nat cnt) (randShuffle rnd (mkeys st))"
  let ?st = "fold (\<lambda>m st. mdel m st) ?r st"
  have wfst: "wf_map st" using wf by (simp add: st_def setAt_wf)
  have sub: "set ?r \<subseteq> dom (map_of st)"
    using set_take_subset [of "nat cnt" "randShuffle rnd (mkeys st)"] by (simp add: dom_map_of_conv_image_fst)
  have dom: "dom (map_of ?st) = dom (map_of st) - set ?r"
    by (auto simp: fold_mdel split: if_splits)
  have dist: "distinct ?r" using wfst by (simp add: distinct_take wf_map_distinct)
  have len: "length ?r = nat cnt" using False cnt by simp
  have "card (set ?r) < card (dom (map_of st))"
    using False cnt dist len wf_map_card [OF wfst] by (simp add: distinct_card)
  moreover have "dom (map_of st) \<subseteq> set ?r" if "?st = []" using dom unfolding that by simp
  ultimately have "?st \<noteq> []" using card_mono [of "set ?r" "dom (map_of st)"] by auto
  then show ?thesis
    using False cnt typeOf_setAt [OF wf ty] dist sub dom len fold_mdel(2) [OF wfst, of ?r]
    by (intro that [of ?st ?r]) (auto simp: SPop_def getSet_eq ty st_def Let_def putSet_storeSet)
qed

lemma SPop_other:
  "typeOf now key s \<noteq> TSet \<Longrightarrow> SPop rnd now key cnt s =
     Ret (s, if typeOf now key s = NoKey then Inr [] else Inl ErrWrongType)"
  by (simp add: SPop_def getSet_eq)

lemma wf_store_SPop:
  assumes "wf_store s" and "SPop rnd now key cnt s = Ret (s', r)"
  shows "wf_store s'"
proof (cases "typeOf now key s = TSet")
  case True
  then have fit: "fits s key TSet" using assms(1) by (simp add: typeOf_fits)
  have cnt: "0 \<le> cnt"
    using assms(2) True typeOf_setAt [OF assms(1) True]
    by (auto simp: SPop_def getSet_eq Let_def split: if_splits)
  show ?thesis
  proof (rule SPop_total [OF assms(1) cnt True, of rnd])
    fix st' r'
    assume "SPop rnd now key cnt s = Ret (bumpVersion key (storeSet key st' s), Inr r')" and "wf_map st'"
    then show ?thesis using assms(2) storeSet_entry(1) [OF assms(1) fit, of st'] by simp
  qed
qed (use assms in \<open>simp add: SPop_other\<close>)

subsection \<open>SMOVE\<close>

lemma SMove_eq:
  assumes "setLike now s src" "setLike now s dst" and "map_of (setAt src s) m \<noteq> None"
  shows "SMove now src dst m s =
    (let s1 = storeSet src (mdel m (setAt src s)) s;
         s2 = storeSet dst (mput m () (setAt dst s1)) s1
     in (bumpVersion dst (bumpVersion src s2), Inr True))"
  using assms unfolding setLike_def by (elim disjE) (simp_all add: SMove_def Let_def putSet_storeSet)

lemma wf_store_SMove:
  assumes wf: "wf_store s" and st: "settled now s src" "settled now s dst"
  shows "wf_store (fst (SMove now src dst m s))"
proof (cases "setLike now s src \<and> setLike now s dst \<and> map_of (setAt src s) m \<noteq> None")
  case False
  then show ?thesis using wf by (auto simp: SMove_def setLike_def Let_def)
next
  case True
  let ?s1 = "storeSet src (mdel m (setAt src s)) s"
  have fit: "fits s src TSet" "fits s dst TSet" using wf st True by (auto intro: settled_set)
  have s1: "wf_store ?s1" "entry ?s1 =
      (entry s)(src := if mdel m (setAt src s) = [] then None else Some (OSet (mdel m (setAt src s)), deadline s src))"
    using storeSet_entry [OF wf fit(1), of "mdel m (setAt src s)"] setAt_wf [OF wf] by simp_all
  then have "fits ?s1 dst TSet" using fit(2) by (auto simp: fits_def)
  with s1 setAt_wf [OF s1(1)] True show ?thesis
    by (simp add: SMove_eq Let_def storeSet_entry(1))
qed

section \<open>Versions\<close>

lemma versioned_SAdd: "versioned (fst (SAdd now key ms s)) s"
  unfolding SAdd_def by (simp add: Let_def case_prod_beta versioned_write same_at_def Version_def)

lemma versioned_SRem: "versioned (fst (SRem now key ms s)) s"
  by (simp add: SRem_def Let_def case_prod_beta versioned_write storeSet_frame split: sum.split)

lemma versioned_SPop: "SPop rnd now key cnt s = Ret (s', r) \<Longrightarrow> versioned s' s"
  by (auto simp: SPop_def Let_def versioned_write same_at_def Version_def split: sum.splits if_splits)

lemma versioned_SMove: "versioned (fst (SMove now src dst m s)) s"
  by (simp add: SMove_def Let_def versioned_write2 same_at_def Version_def storeSet_def)

lemma versioned_storeResult:
  "r \<noteq> Inr [] \<Longrightarrow> versioned (fst (storeResult dst r s)) s"
  by (simp add: storeResult_def Let_def versioned_write same_at_def Version_def split: sum.split)

end
