(* ===== verification/CmdSet.thy ===== *)
theory CmdSet
  imports CmdList StoreSet
begin

text \<open>
  The set commands, \<^verbatim>\<open>internal/commands/set.go\<close>.
\<close>

definition handleSAdd :: handler where
  "handleSAdd env args s =
     (if length args < 3 then Ret (s, wrongArgs ''SADD'')
      else replyOf 0 Integer (SAdd (clock env) (args ! 1) (drop 2 args) s))"

definition handleSRem :: handler where
  "handleSRem env args s =
     (if length args < 3 then Ret (s, wrongArgs ''SREM'')
      else replyOf 0 Integer (SRem (clock env) (args ! 1) (drop 2 args) s))"

definition handleSMembers :: handler where
  "handleSMembers env args s =
     (if length args \<noteq> 2 then Ret (s, wrongArgs ''SMEMBERS'')
      else replyOf [] bulkArray (s, SMembers (clock env) (args ! 1) s))"

definition handleSCard :: handler where
  "handleSCard env args s =
     (if length args \<noteq> 2 then Ret (s, wrongArgs ''SCARD'')
      else replyOf 0 Integer (s, SCard (clock env) (args ! 1) s))"

definition handleSIsMember :: handler where
  "handleSIsMember env args s =
     (if length args \<noteq> 3 then Ret (s, wrongArgs ''SISMEMBER'')
      else replyOf False boolInt (s, SIsMember (clock env) (args ! 1) (args ! 2) s))"

definition handleSMIsMember :: handler where
  "handleSMIsMember env args s =
     (if length args < 3 then Ret (s, wrongArgs ''SMISMEMBER'')
      else replyOf [] (\<lambda>flags. Array (map Integer flags)) (s, SMIsMember (clock env) (args ! 1) (drop 2 args) s))"

definition handleSInter :: handler where
  "handleSInter env args s =
     (if length args < 2 then Ret (s, wrongArgs ''SINTER'')
      else replyOf [] bulkArray (s, SInter (clock env) (drop 1 args) s))"

definition handleSUnion :: handler where
  "handleSUnion env args s =
     (if length args < 2 then Ret (s, wrongArgs ''SUNION'')
      else replyOf [] bulkArray (s, SUnion (clock env) (drop 1 args) s))"

definition handleSDiff :: handler where
  "handleSDiff env args s =
     (if length args < 2 then Ret (s, wrongArgs ''SDIFF'')
      else replyOf [] bulkArray (s, SDiff (clock env) (drop 1 args) s))"

definition handleSInterStore :: handler where
  "handleSInterStore env args s =
     (if length args < 3 then Ret (s, wrongArgs ''SINTERSTORE'')
      else replyOf 0 Integer (SInterStore (clock env) (args ! 1) (drop 2 args) s))"

definition handleSUnionStore :: handler where
  "handleSUnionStore env args s =
     (if length args < 3 then Ret (s, wrongArgs ''SUNIONSTORE'')
      else replyOf 0 Integer (SUnionStore (clock env) (args ! 1) (drop 2 args) s))"

definition handleSDiffStore :: handler where
  "handleSDiffStore env args s =
     (if length args < 3 then Ret (s, wrongArgs ''SDIFFSTORE'')
      else replyOf 0 Integer (SDiffStore (clock env) (args ! 1) (drop 2 args) s))"

text \<open>The count of \<^verbatim>\<open>SRANDMEMBER\<close> may be negative.\<close>

definition handleSRandMember :: handler where
  "handleSRandMember env args s =
     (if length args < 2 \<or> 3 < length args then Ret (s, wrongArgs ''SRANDMEMBER'')
      else
        case (if length args = 3 then ParseInt (args ! 2) else Some 1) of
          None \<Rightarrow> Ret (s, notInteger)
        | Some cnt \<Rightarrow>
            case SRandMember (draws env) (clock env) (args ! 1) cnt s of
              Panic \<Rightarrow> Panic
            | Ret r \<Rightarrow> replyOf [] (oneOrAll (length args = 3)) (s, r))"

definition handleSPop :: handler where
  "handleSPop env args s =
     (if length args < 2 \<or> 3 < length args then Ret (s, wrongArgs ''SPOP'')
      else
        case popCount args of
          None \<Rightarrow> Ret (s, notInteger)
        | Some cnt \<Rightarrow>
            case SPop (draws env) (clock env) (args ! 1) cnt s of
              Panic \<Rightarrow> Panic
            | Ret p \<Rightarrow> replyOf [] (oneOrAll (length args = 3)) p)"

definition handleSMove :: handler where
  "handleSMove env args s =
     (if length args \<noteq> 4 then Ret (s, wrongArgs ''SMOVE'')
      else replyOf False boolInt (SMove (clock env) (args ! 1) (args ! 2) (args ! 3) s))"

section \<open>Contracts\<close>

lemmas set_read_defs = handleSMembers_def handleSCard_def handleSIsMember_def handleSMIsMember_def
  handleSInter_def handleSUnion_def handleSDiff_def

lemmas set_write_defs = handleSAdd_def handleSRem_def handleSInterStore_def handleSUnionStore_def
  handleSDiffStore_def handleSMove_def

lemma failKeeps_storeResult [simp]: "failKeeps s (storeResult dst r s)"
  by (auto simp: failKeeps_def storeResult_def Let_def split: sum.splits if_splits)

lemma failKeeps_set [simp]:
  "failKeeps s (SAdd now k vs s)" "failKeeps s (SRem now k vs s)" "failKeeps s (SMove now k d m s)"
  by (auto simp: failKeeps_def SAdd_def SRem_def SMove_def Let_def
      split: sum.splits prod.splits option.splits if_splits)

lemma failKeeps_SPop: "SPop rnd now k n s = Ret p \<Longrightarrow> failKeeps s p"
  by (auto simp: failKeeps_def SPop_def Let_def split: sum.splits if_splits)

lemma readonly_set [readonly_intros]:
  "readonly handleSMembers" "readonly handleSCard" "readonly handleSIsMember" "readonly handleSMIsMember"
  "readonly handleSInter" "readonly handleSUnion" "readonly handleSDiff" "readonly handleSRandMember"
  by (auto intro!: readonlyI simp: set_read_defs handleSRandMember_def split: option.split go.split)

lemma guarded_set [guarded_intros]:
  "guarded handleSAdd" "guarded handleSRem" "guarded handleSInterStore" "guarded handleSUnionStore"
  "guarded handleSDiffStore" "guarded handleSMove"
  by (auto intro!: guardedI errKeeps_replyOf simp: set_write_defs SInterStore_def SUnionStore_def SDiffStore_def)

lemma guarded_SPop [guarded_intros]: "guarded handleSPop"
  by (auto intro!: guardedI errKeeps_replyOf simp: handleSPop_def failKeeps_SPop split: option.split go.split)

lemma SPop_returns: "0 \<le> n \<Longrightarrow> returns (SPop rnd now k n s)"
  by (auto simp: SPop_def Let_def split: sum.split)

lemma panic_SPop [panic_intros]: "panicFree handleSPop"
  by (auto intro!: panicFreeI SPop_returns simp: handleSPop_def popCount_nonneg split: option.split)

lemma panic_set [panic_intros]:
  "panicFree handleSMembers" "panicFree handleSCard" "panicFree handleSIsMember" "panicFree handleSMIsMember"
  "panicFree handleSInter" "panicFree handleSUnion" "panicFree handleSDiff" "panicFree handleSAdd"
  "panicFree handleSRem" "panicFree handleSInterStore" "panicFree handleSUnionStore"
  "panicFree handleSDiffStore" "panicFree handleSMove"
  by (auto intro!: panicFreeI simp: set_read_defs set_write_defs)

end
