(* ===== verification/CmdZSet.thy ===== *)
theory CmdZSet
  imports CmdList StoreZSet
begin

text \<open>
  The sorted set commands, \<^verbatim>\<open>internal/commands/zset.go\<close>.  The file's own \<^verbatim>\<open>formatScore\<close> has the body of
  the one in \<^verbatim>\<open>memory.go\<close>, so the model has one.

  \<^verbatim>\<open>strings.ToLower\<close> is only compared with lower-case ASCII literals; as for \<open>toUpper\<close>, the two
  non-ASCII runes whose lower case is an ASCII letter are U+0130 and U+212A.
\<close>

section \<open>Scores\<close>

definition lower_char :: "char \<Rightarrow> char" where
  "lower_char c = (let n = of_char c in if 65 \<le> n \<and> n \<le> (90 :: nat) then char_of (n + 32) else c)"

fun toLower :: "string \<Rightarrow> string" where
  "toLower (c # d # e # cs) =
     (if c = CHR 0xC4 \<and> d = CHR 0xB0 then CHR ''i'' # toLower (e # cs)
      else if c = CHR 0xE2 \<and> d = CHR 0x84 \<and> e = CHR 0xAA then CHR ''k'' # toLower cs
      else lower_char c # toLower (d # e # cs))"
| "toLower [c, d] = (if c = CHR 0xC4 \<and> d = CHR 0xB0 then ''i'' else [lower_char c, lower_char d])"
| "toLower [c] = [lower_char c]"
| "toLower [] = []"

definition parseScore :: "string \<Rightarrow> float64 option" where
  "parseScore s =
     (let l = toLower s
      in if l = ''+inf'' \<or> l = ''inf'' then Some PInf
         else if l = ''-inf'' then Some NInf
         else ParseFloat s)"

definition parseScoreBound :: "string \<Rightarrow> (float64 \<times> bool) option" where
  "parseScoreBound s =
     (if s \<noteq> [] \<and> hd s = CHR ''('' then map_option (\<lambda>f. (f, True)) (parseScore (tl s))
      else map_option (\<lambda>f. (f, False)) (parseScore s))"

definition notFloat :: Response where
  "notFloat = Error ''ERR value is not a valid float''"

definition boundError :: Response where
  "boundError = Error ''ERR min or max is not a float''"

section \<open>ZADD\<close>

record zaddFlags =
  za_nx :: bool
  za_xx :: bool
  za_gt :: bool
  za_lt :: bool
  za_ch :: bool

fun zaddOptions :: "string list \<Rightarrow> zaddFlags \<Rightarrow> zaddFlags \<times> string list" where
  "zaddOptions [] f = (f, [])"
| "zaddOptions (a # rest) f =
     (let opt = toUpper a
      in if opt = ''NX'' then zaddOptions rest (f\<lparr>za_nx := True\<rparr>)
         else if opt = ''XX'' then zaddOptions rest (f\<lparr>za_xx := True\<rparr>)
         else if opt = ''GT'' then zaddOptions rest (f\<lparr>za_gt := True\<rparr>)
         else if opt = ''LT'' then zaddOptions rest (f\<lparr>za_lt := True\<rparr>)
         else if opt = ''CH'' then zaddOptions rest (f\<lparr>za_ch := True\<rparr>)
         else (f, a # rest))"

fun zaddMembers :: "string list \<Rightarrow> ZMember list option" where
  "zaddMembers (sc # m # rest) =
     (case parseScore sc of
        None \<Rightarrow> None
      | Some score \<Rightarrow> map_option (\<lambda>ms. \<lparr>Member = m, Score = score\<rparr> # ms) (zaddMembers rest))"
| "zaddMembers _ = Some []"

definition handleZAdd :: handler where
  "handleZAdd env args s =
     (if length args < 4 then Ret (s, wrongArgs ''ZADD'')
      else
        let (f, rest) =
              zaddOptions (drop 2 args) \<lparr>za_nx = False, za_xx = False, za_gt = False, za_lt = False, za_ch = False\<rparr>
        in if za_nx f \<and> za_xx f then
             Ret (s, Error ''ERR XX and NX options at the same time are not compatible'')
           else if za_gt f \<and> za_nx f \<or> za_lt f \<and> za_nx f then
             Ret (s, Error ''ERR GT, LT, and NX options at the same time are not compatible'')
           else if length rest mod 2 \<noteq> 0 \<or> rest = [] then Ret (s, syntaxError)
           else
             case zaddMembers rest of
               None \<Rightarrow> Ret (s, notFloat)
             | Some members \<Rightarrow>
                 replyOf 0 Integer
                   (ZAdd (clock env) (args ! 1) members (za_nx f) (za_xx f) (za_gt f) (za_lt f) (za_ch f) s))"

section \<open>Single members\<close>

definition handleZRem :: handler where
  "handleZRem env args s =
     (if length args < 3 then Ret (s, wrongArgs ''ZREM'')
      else replyOf 0 Integer (ZRem (clock env) (args ! 1) (drop 2 args) s))"

definition handleZScore :: handler where
  "handleZScore env args s =
     (if length args \<noteq> 3 then Ret (s, wrongArgs ''ZSCORE'')
      else replyOf None (\<lambda>v. bulkOrNull (map_option formatScore v)) (s, ZScore (clock env) (args ! 1) (args ! 2) s))"

definition handleZCard :: handler where
  "handleZCard env args s =
     (if length args \<noteq> 2 then Ret (s, wrongArgs ''ZCARD'')
      else
        case ZCard (clock env) (args ! 1) s of
          Panic \<Rightarrow> Panic
        | Ret r \<Rightarrow> replyOf 0 Integer (s, r))"

definition rankReply :: "int option \<Rightarrow> Response" where
  "rankReply v = (case v of None \<Rightarrow> NullBulkString | Some r \<Rightarrow> Integer r)"

definition handleZRank :: handler where
  "handleZRank env args s =
     (if length args \<noteq> 3 then Ret (s, wrongArgs ''ZRANK'')
      else replyOf None rankReply (s, ZRank (clock env) (args ! 1) (args ! 2) s))"

definition handleZRevRank :: handler where
  "handleZRevRank env args s =
     (if length args \<noteq> 3 then Ret (s, wrongArgs ''ZREVRANK'')
      else replyOf None rankReply (s, ZRevRank (clock env) (args ! 1) (args ! 2) s))"

definition handleZIncrBy :: handler where
  "handleZIncrBy env args s =
     (if length args \<noteq> 4 then Ret (s, wrongArgs ''ZINCRBY'')
      else
        case parseScore (args ! 2) of
          None \<Rightarrow> Ret (s, notFloat)
        | Some incr \<Rightarrow>
            replyOf (Fin 0) (\<lambda>score. BulkString (formatScore score)) (ZIncrBy (clock env) (args ! 1) incr (args ! 3) s))"

section \<open>Ranges\<close>

record zrangeOpts =
  zr_rev :: bool
  zr_withScores :: bool
  zr_byScore :: bool
  zr_byLex :: bool
  zr_offset :: int
  zr_count :: int

definition noRangeOpts :: zrangeOpts where
  "noRangeOpts =
     \<lparr>zr_rev = False, zr_withScores = False, zr_byScore = False, zr_byLex = False, zr_offset = 0, zr_count = - 1\<rparr>"

definition setLimit :: "string \<Rightarrow> string \<Rightarrow> zrangeOpts \<Rightarrow> zrangeOpts option" where
  "setLimit off cnt z =
     (case (ParseInt off, ParseInt cnt) of
        (Some n, Some c) \<Rightarrow> Some (z\<lparr>zr_offset := n, zr_count := c\<rparr>)
      | _ \<Rightarrow> None)"

fun zrangeOptions :: "string list \<Rightarrow> zrangeOpts \<Rightarrow> Response + zrangeOpts" where
  "zrangeOptions [] z = Inr z"
| "zrangeOptions (a # rest) z =
     (let opt = toUpper a
      in if opt = ''REV'' then zrangeOptions rest (z\<lparr>zr_rev := True\<rparr>)
         else if opt = ''WITHSCORES'' then zrangeOptions rest (z\<lparr>zr_withScores := True\<rparr>)
         else if opt = ''BYSCORE'' then zrangeOptions rest (z\<lparr>zr_byScore := True\<rparr>)
         else if opt = ''BYLEX'' then zrangeOptions rest (z\<lparr>zr_byLex := True\<rparr>)
         else if opt = ''LIMIT'' then
           (case rest of
              off # cnt # rest' \<Rightarrow>
                (case setLimit off cnt z of None \<Rightarrow> Inl notInteger | Some z' \<Rightarrow> zrangeOptions rest' z')
            | _ \<Rightarrow> Inl syntaxError)
         else Inl syntaxError)"

text \<open>The loops of the other range commands skip what they do not know.\<close>

fun scoreOptions :: "string list \<Rightarrow> zrangeOpts \<Rightarrow> Response + zrangeOpts" where
  "scoreOptions [] z = Inr z"
| "scoreOptions (a # rest) z =
     (let opt = toUpper a
      in if opt = ''WITHSCORES'' then scoreOptions rest (z\<lparr>zr_withScores := True\<rparr>)
         else if opt = ''LIMIT'' then
           (case rest of
              off # cnt # rest' \<Rightarrow>
                (case setLimit off cnt z of None \<Rightarrow> Inl notInteger | Some z' \<Rightarrow> scoreOptions rest' z')
            | _ \<Rightarrow> Inl syntaxError)
         else scoreOptions rest z)"

fun lexOptions :: "string list \<Rightarrow> zrangeOpts \<Rightarrow> Response + zrangeOpts" where
  "lexOptions [] z = Inr z"
| "lexOptions (a # rest) z =
     (if toUpper a = ''LIMIT'' then
        (case rest of
           off # cnt # rest' \<Rightarrow>
             (case setLimit off cnt z of None \<Rightarrow> Inl notInteger | Some z' \<Rightarrow> lexOptions rest' z')
         | _ \<Rightarrow> Inl syntaxError)
      else lexOptions rest z)"

definition handleZRange :: handler where
  "handleZRange env args s =
     (if length args < 4 then Ret (s, wrongArgs ''ZRANGE'')
      else
        case zrangeOptions (drop 4 args) noRangeOpts of
          Inl r \<Rightarrow> Ret (s, r)
        | Inr z \<Rightarrow>
            let now = clock env; key = args ! 1; a = args ! 2; b = args ! 3
            in if zr_byLex z then
                 replyOf [] bulkArray
                   (s, if zr_rev z then ZRangeByLex now key b a (zr_offset z) (zr_count z) s
                       else ZRangeByLex now key a b (zr_offset z) (zr_count z) s)
               else if zr_byScore z then
                 (case (parseScoreBound a, parseScoreBound b) of
                    (Some (x, xExcl), Some (y, yExcl)) \<Rightarrow>
                      replyOf [] bulkArray
                        (s, if zr_rev z
                            then ZRevRangeByScore now key x y xExcl yExcl (zr_withScores z) (zr_offset z) (zr_count z) s
                            else ZRangeByScore now key x y xExcl yExcl (zr_withScores z) (zr_offset z) (zr_count z) s)
                  | _ \<Rightarrow> Ret (s, boundError))
               else
                 (case (ParseInt a, ParseInt b) of
                    (Some start, Some stop) \<Rightarrow>
                      replyOf [] bulkArray (s, ZRange now key start stop (zr_rev z) (zr_withScores z) s)
                  | _ \<Rightarrow> Ret (s, notInteger)))"

definition handleZRevRange :: handler where
  "handleZRevRange env args s =
     (if length args < 4 then Ret (s, wrongArgs ''ZREVRANGE'')
      else
        case (ParseInt (args ! 2), ParseInt (args ! 3)) of
          (Some start, Some stop) \<Rightarrow>
            let withScores = (length args = 5 \<and> toUpper (args ! 4) = ''WITHSCORES'')
            in replyOf [] bulkArray (s, ZRange (clock env) (args ! 1) start stop True withScores s)
        | _ \<Rightarrow> Ret (s, notInteger))"

definition handleZRangeByScore :: handler where
  "handleZRangeByScore env args s =
     (if length args < 4 then Ret (s, wrongArgs ''ZRANGEBYSCORE'')
      else
        case (parseScoreBound (args ! 2), parseScoreBound (args ! 3)) of
          (Some (lo, loExcl), Some (hi, hiExcl)) \<Rightarrow>
            (case scoreOptions (drop 4 args) noRangeOpts of
               Inl r \<Rightarrow> Ret (s, r)
             | Inr z \<Rightarrow>
                 replyOf [] bulkArray
                   (s, ZRangeByScore (clock env) (args ! 1) lo hi loExcl hiExcl (zr_withScores z)
                         (zr_offset z) (zr_count z) s))
        | _ \<Rightarrow> Ret (s, boundError))"

definition handleZRevRangeByScore :: handler where
  "handleZRevRangeByScore env args s =
     (if length args < 4 then Ret (s, wrongArgs ''ZREVRANGEBYSCORE'')
      else
        case (parseScoreBound (args ! 2), parseScoreBound (args ! 3)) of
          (Some (hi, hiExcl), Some (lo, loExcl)) \<Rightarrow>
            (case scoreOptions (drop 4 args) noRangeOpts of
               Inl r \<Rightarrow> Ret (s, r)
             | Inr z \<Rightarrow>
                 replyOf [] bulkArray
                   (s, ZRevRangeByScore (clock env) (args ! 1) hi lo hiExcl loExcl (zr_withScores z)
                         (zr_offset z) (zr_count z) s))
        | _ \<Rightarrow> Ret (s, boundError))"

definition handleZCount :: handler where
  "handleZCount env args s =
     (if length args \<noteq> 4 then Ret (s, wrongArgs ''ZCOUNT'')
      else
        case (parseScoreBound (args ! 2), parseScoreBound (args ! 3)) of
          (Some (lo, loExcl), Some (hi, hiExcl)) \<Rightarrow>
            replyOf 0 Integer (s, ZCount (clock env) (args ! 1) lo hi loExcl hiExcl s)
        | _ \<Rightarrow> Ret (s, boundError))"

definition handleZRangeByLex :: handler where
  "handleZRangeByLex env args s =
     (if length args < 4 then Ret (s, wrongArgs ''ZRANGEBYLEX'')
      else
        case lexOptions (drop 4 args) noRangeOpts of
          Inl r \<Rightarrow> Ret (s, r)
        | Inr z \<Rightarrow>
            replyOf [] bulkArray
              (s, ZRangeByLex (clock env) (args ! 1) (args ! 2) (args ! 3) (zr_offset z) (zr_count z) s))"

definition handleZRevRangeByLex :: handler where
  "handleZRevRangeByLex env args s =
     (if length args < 4 then Ret (s, wrongArgs ''ZREVRANGEBYLEX'')
      else
        case lexOptions (drop 4 args) noRangeOpts of
          Inl r \<Rightarrow> Ret (s, r)
        | Inr z \<Rightarrow>
            replyOf [] (\<lambda>result. bulkArray (rev result))
              (s, ZRangeByLex (clock env) (args ! 1) (args ! 3) (args ! 2) (zr_offset z) (zr_count z) s))"

definition handleZLexCount :: handler where
  "handleZLexCount env args s =
     (if length args \<noteq> 4 then Ret (s, wrongArgs ''ZLEXCOUNT'')
      else replyOf 0 Integer (s, ZLexCount (clock env) (args ! 1) (args ! 2) (args ! 3) s))"

section \<open>Pops\<close>

definition membersReply :: "ZMember list \<Rightarrow> Response" where
  "membersReply ms = bulkArray (concat (map (\<lambda>m. [Member m, formatScore (Score m)]) ms))"

definition handleZPopMin :: handler where
  "handleZPopMin env args s =
     (if length args < 2 \<or> 3 < length args then Ret (s, wrongArgs ''ZPOPMIN'')
      else
        case popCount args of
          None \<Rightarrow> Ret (s, notInteger)
        | Some cnt \<Rightarrow>
            case ZPopMin (clock env) (args ! 1) cnt s of
              Panic \<Rightarrow> Panic
            | Ret p \<Rightarrow> replyOf [] membersReply p)"

definition handleZPopMax :: handler where
  "handleZPopMax env args s =
     (if length args < 2 \<or> 3 < length args then Ret (s, wrongArgs ''ZPOPMAX'')
      else
        case popCount args of
          None \<Rightarrow> Ret (s, notInteger)
        | Some cnt \<Rightarrow>
            case ZPopMax (clock env) (args ! 1) cnt s of
              Panic \<Rightarrow> Panic
            | Ret p \<Rightarrow> replyOf [] membersReply p)"

section \<open>ZUNIONSTORE and ZINTERSTORE\<close>

text \<open>
  The inner loop of \<^verbatim>\<open>WEIGHTS\<close>: at most one weight per key, from the arguments that are left;
  \<open>None\<close> is a weight that is not a float.
\<close>

fun weightArgs :: "nat \<Rightarrow> nat \<Rightarrow> string list \<Rightarrow> float64 list \<Rightarrow> (float64 list \<times> string list) option" where
  "weightArgs (Suc n) j (a # rest) ws =
     (case ParseFloat a of None \<Rightarrow> None | Some w \<Rightarrow> weightArgs n (Suc j) rest (ws[j := w]))"
| "weightArgs _ _ rest ws = Some (ws, rest)"

lemma weightArgs_rest: "weightArgs n j rest ws = Some (ws', rest') \<Longrightarrow> length rest' \<le> length rest"
  by (induction n j rest ws rule: weightArgs.induct) (force split: option.splits)+

function zstoreOptions :: "nat \<Rightarrow> string list \<Rightarrow> float64 list \<Rightarrow> string \<Rightarrow> Response + float64 list \<times> string" where
  "zstoreOptions n [] ws agg = Inr (ws, agg)"
| "zstoreOptions n (a # rest) ws agg =
     (let opt = toUpper a
      in if opt = ''WEIGHTS'' then
           (case weightArgs n 0 rest ws of
              None \<Rightarrow> Inl (Error ''ERR weight value is not a float'')
            | Some (ws', rest') \<Rightarrow> zstoreOptions n rest' ws' agg)
         else if opt = ''AGGREGATE'' then
           (case rest of
              [] \<Rightarrow> Inl syntaxError
            | v # rest' \<Rightarrow> zstoreOptions n rest' ws (toUpper v))
         else Inl syntaxError)"
  by pat_completeness auto

termination
  by (relation "measure (\<lambda>(n, rest, ws, agg). length rest)") (auto dest!: sym [of "Some _"] weightArgs_rest)

text \<open>
  \<^verbatim>\<open>3+numkeys\<close> wraps for a count close to the largest integer; the test against \<^verbatim>\<open>len(args)\<close> then
  passes and the slice expression \<^verbatim>\<open>args[3 : 3+numkeys]\<close> panics.
\<close>

definition handleZSetStore :: "string \<Rightarrow> bool \<Rightarrow> handler" where
  "handleZSetStore cmd isInter env args s =
     (if length args < 4 then Ret (s, wrongArgs cmd)
      else
        case ParseInt (args ! 2) of
          None \<Rightarrow> Ret (s, notInteger)
        | Some numkeys \<Rightarrow>
            let stop = wrap64 (3 + numkeys); n = nat numkeys
            in if numkeys < 1 then Ret (s, notInteger)
               else if int (length args) < stop then Ret (s, syntaxError)
               else if stop < 3 then Panic
               else
                 case zstoreOptions n (drop (3 + n) args) (replicate n (Fin 1)) ''SUM'' of
                   Inl r \<Rightarrow> Ret (s, r)
                 | Inr (weights, aggregate) \<Rightarrow>
                     let keys = take n (drop 3 args)
                     in replyOf 0 Integer
                          (if isInter then ZInterStore (clock env) (args ! 1) keys weights aggregate s
                           else ZUnionStore (clock env) (args ! 1) keys weights aggregate s))"

definition handleZUnionStore :: handler where
  "handleZUnionStore = handleZSetStore ''ZUNIONSTORE'' False"

definition handleZInterStore :: handler where
  "handleZInterStore = handleZSetStore ''ZINTERSTORE'' True"

section \<open>Contracts\<close>

lemmas zset_range_defs = handleZRange_def handleZRevRange_def handleZRangeByScore_def
  handleZRevRangeByScore_def handleZCount_def handleZRangeByLex_def handleZRevRangeByLex_def
  handleZLexCount_def

lemmas zset_read_defs = handleZScore_def handleZCard_def handleZRank_def handleZRevRank_def

lemmas zset_write_defs = handleZAdd_def handleZRem_def handleZIncrBy_def handleZPopMin_def handleZPopMax_def
  handleZSetStore_def handleZUnionStore_def handleZInterStore_def

lemma not_isError_zset [simp]: "\<not> isError (rankReply v)" "\<not> isError (membersReply ms)"
  by (auto simp: rankReply_def membersReply_def split: option.split)

lemma failKeeps_storeZResult [simp]: "failKeeps s (storeZResult dst sc s)"
  by (auto simp: failKeeps_def storeZResult_def Let_def split: if_splits)

lemma failKeeps_simps [simp]: "failKeeps s (s, r)" "failKeeps s (s', Inr x)"
  by (simp_all add: failKeeps_def)

lemma failKeeps_zset [simp]:
  "failKeeps s (ZAdd now k ms nx xx gt lt ch s)" "failKeeps s (ZRem now k vs s)"
  "failKeeps s (ZIncrBy now k d m s)"
  "failKeeps s (ZUnionStore now dst ks ws agg s)" "failKeeps s (ZInterStore now dst ks ws agg s)"
  by (auto simp: ZAdd_def ZRem_def ZIncrBy_def ZUnionStore_def ZInterStore_def Let_def
      split: sum.split prod.split option.split list.split)

lemma failKeeps_zpop:
  "ZPopMin now k n s = Ret p \<Longrightarrow> failKeeps s p" "ZPopMax now k n s = Ret p \<Longrightarrow> failKeeps s p"
  by (auto simp: failKeeps_def ZPopMin_def ZPopMax_def popMembers_def Let_def split: sum.splits option.splits if_splits)

lemma readonly_zrange [readonly_intros]:
  "readonly handleZRange" "readonly handleZRevRange" "readonly handleZRangeByScore"
  "readonly handleZRevRangeByScore" "readonly handleZCount" "readonly handleZRangeByLex"
  "readonly handleZRevRangeByLex" "readonly handleZLexCount"
  by (auto intro!: readonlyI simp: zset_range_defs Let_def split: option.split sum.split)

lemma readonly_zset [readonly_intros]:
  "readonly handleZScore" "readonly handleZCard" "readonly handleZRank" "readonly handleZRevRank"
  by (auto intro!: readonlyI simp: zset_read_defs split: go.split)

lemma guarded_zset [guarded_intros]:
  "guarded handleZAdd" "guarded handleZRem" "guarded handleZIncrBy" "guarded handleZUnionStore"
  "guarded handleZInterStore"
  by (auto intro!: guardedI errKeeps_replyOf simp: zset_write_defs Let_def
      split: option.split sum.split prod.split)

lemma guarded_zpop [guarded_intros]: "guarded handleZPopMin" "guarded handleZPopMax"
  by (auto intro!: guardedI errKeeps_replyOf simp: zset_write_defs failKeeps_zpop split: option.split go.split)

lemma zpop_returns: "0 \<le> n \<Longrightarrow> returns (ZPopMin now k n s)" "0 \<le> n \<Longrightarrow> returns (ZPopMax now k n s)"
  by (auto simp: ZPopMin_def ZPopMax_def popMembers_def Let_def split: sum.split option.split)

lemma panic_zpop [panic_intros]: "panicFree handleZPopMin" "panicFree handleZPopMax"
  by (auto intro!: panicFreeI zpop_returns simp: zset_write_defs popCount_nonneg split: option.split)

lemma panic_zrange [panic_intros]:
  "panicFree handleZRange" "panicFree handleZRevRange" "panicFree handleZRangeByScore"
  "panicFree handleZRevRangeByScore" "panicFree handleZCount" "panicFree handleZRangeByLex"
  "panicFree handleZRevRangeByLex" "panicFree handleZLexCount"
  by (auto intro!: panicFreeI simp: zset_range_defs Let_def split: option.split sum.split)

lemma panic_zset [panic_intros]:
  "panicFree handleZScore" "panicFree handleZRank" "panicFree handleZRevRank"
  "panicFree handleZAdd" "panicFree handleZRem" "panicFree handleZIncrBy"
  by (auto intro!: panicFreeI simp: zset_read_defs zset_write_defs Let_def split: option.split prod.split)

end
