(* ===== verification/CmdServer.thy ===== *)
theory CmdServer
  imports CmdString CmdSet CmdZSet
begin

text \<open>
  The scan, keyspace and server commands: \<^verbatim>\<open>scan.go\<close>, \<^verbatim>\<open>server_cmds.go\<close> and \<^verbatim>\<open>server_extra.go\<close> of
  \<^verbatim>\<open>internal/commands\<close>.
\<close>

section \<open>scan.go\<close>

fun scanArgs :: "string list \<Rightarrow> string \<Rightarrow> int \<Rightarrow> Response + string \<times> int" where
  "scanArgs [] pat cnt = Inr (pat, cnt)"
| "scanArgs (a # rest) pat cnt =
     (let opt = toUpper a
      in if opt \<noteq> ''MATCH'' \<and> opt \<noteq> ''COUNT'' then Inl syntaxError
         else
           case rest of
             [] \<Rightarrow> Inl syntaxError
           | v # rest' \<Rightarrow>
               if opt = ''MATCH'' then scanArgs rest' v cnt
               else
                 (case ParseInt v of
                    None \<Rightarrow> Inl notInteger
                  | Some n \<Rightarrow> if n < 1 then Inl notInteger else scanArgs rest' pat n))"

definition parseScanArgs :: "string list \<Rightarrow> nat \<Rightarrow> Response + string \<times> int" where
  "parseScanArgs args off = scanArgs (drop off args) ''*'' 10"

definition scanReply :: "nat \<times> string list \<Rightarrow> Response" where
  "scanReply p = Array [BulkString (FormatInt (int (fst p))), bulkArray (snd p)]"

text \<open>The part the four handlers share: the cursor, the options and the pattern that matches all.\<close>

definition withScan :: "nat \<Rightarrow> string list \<Rightarrow> MemoryStore
    \<Rightarrow> (nat \<Rightarrow> string \<Rightarrow> int \<Rightarrow> error + nat \<times> string list) \<Rightarrow> (MemoryStore \<times> Response) go" where
  "withScan pos args s run =
     (case ParseUint (args ! pos) of
        None \<Rightarrow> Ret (s, notInteger)
      | Some cursor \<Rightarrow>
          (case parseScanArgs args (pos + 1) of
             Inl r \<Rightarrow> Ret (s, r)
           | Inr (pat, cnt) \<Rightarrow>
               replyOf (0, []) scanReply (s, run cursor (if pat = ''*'' then [] else pat) cnt)))"

definition handleScan :: handler where
  "handleScan env args s =
     (if length args < 2 then Ret (s, wrongArgs ''SCAN'')
      else withScan 1 args s (\<lambda>cursor pat cnt. Inr (Scan (clock env) cursor pat cnt s)))"

definition handleHScan :: handler where
  "handleHScan env args s =
     (if length args < 3 then Ret (s, wrongArgs ''HSCAN'')
      else withScan 2 args s (\<lambda>cursor pat cnt. HScan (clock env) (args ! 1) cursor pat cnt s))"

definition handleSScan :: handler where
  "handleSScan env args s =
     (if length args < 3 then Ret (s, wrongArgs ''SSCAN'')
      else withScan 2 args s (\<lambda>cursor pat cnt. SScan (clock env) (args ! 1) cursor pat cnt s))"

definition handleZScan :: handler where
  "handleZScan env args s =
     (if length args < 3 then Ret (s, wrongArgs ''ZSCAN'')
      else withScan 2 args s (\<lambda>cursor pat cnt. ZScan (clock env) (args ! 1) cursor pat cnt s))"

section \<open>server_cmds.go\<close>

text \<open>\<^verbatim>\<open>%.2f\<close> of a non-negative number: the decimal expansion rounded half to even.\<close>

definition fixed2 :: "rat \<Rightarrow> string" where
  "fixed2 r =
     (let n = nat (round_even (r * 100))
      in fmt_nat (n div 100) @ ''.'' @ [digit_char (n mod 100 div 10), digit_char (n mod 10)])"

definition infoLine :: "string \<Rightarrow> string \<Rightarrow> string" where
  "infoLine name v = name @ v @ CRLF"

definition infoServer :: "Env \<Rightarrow> string" where
  "infoServer env =
     (let uptime = wholeSeconds (timeSub (clock env) (startTime env))
      in infoLine ''# Server'' [] @
         infoLine ''redis_version:'' ''7.0.0-go-clone'' @
         infoLine ''os:'' (goos env) @
         infoLine ''arch_bits:'' ''64'' @
         infoLine ''go_version:'' (goversion env) @
         infoLine ''uptime_in_seconds:'' (FormatInt uptime) @
         infoLine ''uptime_in_days:'' (FormatInt (goQuot uptime 86400)) @
         infoLine ''connected_clients:'' ''0'' @
         CRLF)"

definition infoKeyspace :: "Env \<Rightarrow> MemoryStore \<Rightarrow> string" where
  "infoKeyspace env s =
     infoLine ''# Keyspace'' [] @
     infoLine ''db0:keys='' (FormatInt (Len (clock env) s) @ '',expires=0'') @
     CRLF"

definition infoMemory :: "Env \<Rightarrow> string" where
  "infoMemory env =
     infoLine ''# Memory'' [] @
     infoLine ''used_memory:'' (fmt_nat (msAlloc env)) @
     infoLine ''used_memory_human:'' (fixed2 (fval (fround (of_nat (msAlloc env))) / 1024) @ ''K'') @
     CRLF"

definition handleInfo :: handler where
  "handleInfo env args s =
     (if 2 < length args then Ret (s, wrongArgs ''INFO'')
      else
        let sect = (if length args = 2 then toLower (args ! 1) else ''all'');
            every = (sect = ''all'' \<or> sect = ''default'')
        in Ret (s, BulkString
             ((if sect = ''server'' \<or> every then infoServer env else []) @
              (if sect = ''keyspace'' \<or> every then infoKeyspace env s else []) @
              (if sect = ''memory'' \<or> every then infoMemory env else []))))"

definition handleDBSize :: handler where
  "handleDBSize env args s =
     (if length args \<noteq> 1 then Ret (s, wrongArgs ''DBSIZE'')
      else Ret (s, Integer (Len (clock env) s)))"

definition handleType :: handler where
  "handleType env args s =
     (if length args \<noteq> 2 then Ret (s, wrongArgs ''TYPE'')
      else Ret (s, SimpleString (Type (clock env) (args ! 1) s)))"

definition noSuchKey :: Response where
  "noSuchKey = Error ''ERR no such key''"

definition handleRename :: handler where
  "handleRename env args s =
     (if length args \<noteq> 3 then Ret (s, wrongArgs ''RENAME'')
      else if args ! 1 = args ! 2 then
        (if Type (clock env) (args ! 1) s = ''none'' then Ret (s, noSuchKey) else Ret (s, okReply))
      else
        case Rename (clock env) (args ! 1) (args ! 2) s of
          Panic \<Rightarrow> Panic
        | Ret (s, ok) \<Rightarrow> Ret (s, if ok then okReply else noSuchKey))"

definition handleFlushDB :: handler where
  "handleFlushDB env args s =
     (if 2 < length args then Ret (s, wrongArgs ''FLUSHDB'') else Ret (Flush s, okReply))"

definition handleFlushAll :: handler where
  "handleFlushAll env args s =
     (if 2 < length args then Ret (s, wrongArgs ''FLUSHALL'') else Ret (Flush s, okReply))"

definition handleSelect :: handler where
  "handleSelect env args s =
     (if length args \<noteq> 2 then Ret (s, wrongArgs ''SELECT'')
      else if args ! 1 \<noteq> ''0'' then Ret (s, Error ''ERR DB index is out of range'')
      else Ret (s, okReply))"

section \<open>server_extra.go\<close>

definition orZero :: "error + int \<Rightarrow> int" where
  "orZero r = (case r of Inl _ \<Rightarrow> 0 | Inr n \<Rightarrow> n)"

definition small :: "int \<Rightarrow> string \<Rightarrow> string \<Rightarrow> Response" where
  "small n a b = BulkString (if n \<le> 128 then a else b)"

definition objectEncoding :: "gotime \<Rightarrow> string \<Rightarrow> MemoryStore \<Rightarrow> Response go" where
  "objectEncoding now key s =
     (let t = Type now key s
      in if t = ''none'' then Ret noSuchKey
         else if t = ''string'' then
           (let val = (case Get now key s of None \<Rightarrow> [] | Some v \<Rightarrow> v)
            in Ret (BulkString
                 (if parseInt64 val \<noteq> None \<and> length val < 20 then ''int''
                  else if length val \<le> 44 then ''embstr''
                  else ''raw'')))
         else if t = ''hash'' then Ret (small (HLen now key s) ''ziplist'' ''hashtable'')
         else if t = ''list'' then Ret (small (orZero (LLen now key s)) ''listpack'' ''quicklist'')
         else if t = ''set'' then Ret (small (orZero (SCard now key s)) ''listpack'' ''hashtable'')
         else if t = ''zset'' then
           (case ZCard now key s of
              Panic \<Rightarrow> Panic
            | Ret r \<Rightarrow> Ret (small (orZero r) ''listpack'' ''skiplist''))
         else Ret (BulkString ''embstr''))"

definition objectHelp :: Response where
  "objectHelp = bulkArray
     [''OBJECT <subcommand> [<arg> [value] [opt] ...]. subcommands are:'',
      ''ENCODING <key>'',
      ''    Return the kind of internal representation the Redis object stored at <key> is using.'',
      ''FREQ <key>'',
      ''    Return the access frequency index of the key. The returned integer is proportional to the logarithm of the recent access frequency.'',
      ''HELP'',
      ''    Return subcommand help summary.'',
      ''IDLETIME <key>'',
      ''    Return the idle time of the key, that is the approximated number of seconds elapsed since the last access to the key.'',
      ''REFCOUNT <key>'',
      ''    Return the reference count of the object stored at <key>.'']"

definition onExisting :: "gotime \<Rightarrow> string \<Rightarrow> string list \<Rightarrow> MemoryStore \<Rightarrow> int \<Rightarrow> Response" where
  "onExisting now sub args s n =
     (if length args \<noteq> 3 then wrongArgs (''OBJECT|'' @ sub)
      else if Type now (args ! 2) s = ''none'' then noSuchKey
      else Integer n)"

definition unknownSub :: "string \<Rightarrow> string \<Rightarrow> Response" where
  "unknownSub sub cmd =
     Error (''ERR unknown subcommand '' @ quoted sub @ ''. Try '' @ cmd @ '' HELP.'')"

definition handleObject :: handler where
  "handleObject env args s =
     (if length args < 2 then Ret (s, wrongArgs ''OBJECT'')
      else
        let sub = toUpper (args ! 1)
        in if sub = ''ENCODING'' then
             (if length args \<noteq> 3 then Ret (s, wrongArgs ''OBJECT|ENCODING'')
              else map_go (\<lambda>r. (s, r)) (objectEncoding (clock env) (args ! 2) s))
           else if sub = ''REFCOUNT'' then Ret (s, onExisting (clock env) sub args s 1)
           else if sub = ''IDLETIME'' then Ret (s, onExisting (clock env) sub args s 0)
           else if sub = ''FREQ'' then Ret (s, onExisting (clock env) sub args s 0)
           else if sub = ''HELP'' then Ret (s, objectHelp)
           else Ret (s, unknownSub (args ! 1) ''OBJECT''))"

definition clientText :: "string \<Rightarrow> Response" where
  "clientText sub = BulkString
     (''id=1 addr=127.0.0.1:0 laddr=127.0.0.1:6379 fd=0 name= age=0 idle=0 flags=N db=0 sub=0 psub'' @
      ''=0 multi=-1 watch=0 qbuf=0 qbuf-free=0 argv-mem=0 multi-mem=0 tot-mem=0 rbs=0 rbp=0 obl=0 '' @
      ''oll=0 omem=0 events=r cmd=client|'' @
      sub @ '' user=default library-name= library-ver= resp=2'' @ [CHR 0x0A])"

definition handleClient :: handler where
  "handleClient env args s =
     (if length args < 2 then Ret (s, wrongArgs ''CLIENT'')
      else
        let sub = toUpper (args ! 1)
        in Ret (s,
             if sub = ''ID'' then Integer 1
             else if sub = ''GETNAME'' then NullBulkString
             else if sub = ''SETNAME'' then
               (if length args \<noteq> 3 then wrongArgs ''CLIENT|SETNAME'' else okReply)
             else if sub = ''LIST'' then clientText ''list''
             else if sub = ''INFO'' then clientText ''info''
             else if sub \<in> {''NO-EVICT'', ''NO-TOUCH'', ''CACHING'', ''REPLY'', ''UNPAUSE'', ''PAUSE''} then okReply
             else if sub = ''KILL'' then Integer 0
             else unknownSub (args ! 1) ''CLIENT''))"

section \<open>Contracts\<close>

lemmas scan_defs = handleScan_def handleHScan_def handleSScan_def handleZScan_def withScan_def

lemmas server_read_defs = handleInfo_def handleDBSize_def handleType_def handleSelect_def
  handleObject_def handleClient_def

lemmas server_write_defs = handleRename_def handleFlushDB_def handleFlushAll_def

lemma keeps_map_go [simp]: "keeps s (map_go (\<lambda>r. (s, r)) x)"
  by (cases x) simp_all

lemma returns_map_go [simp]: "returns (map_go f x) \<longleftrightarrow> returns x"
  by (cases x) simp_all

lemma isError_noSuchKey [simp]: "isError noSuchKey"
  by (simp add: noSuchKey_def)

lemma readonly_server [readonly_intros]:
  "readonly handleScan" "readonly handleHScan" "readonly handleSScan" "readonly handleZScan"
  "readonly handleInfo" "readonly handleDBSize" "readonly handleType" "readonly handleSelect"
  "readonly handleObject" "readonly handleClient"
  by (auto intro!: readonlyI simp: scan_defs server_read_defs Let_def split: option.split sum.split)

lemma guarded_flush [guarded_intros]: "guarded handleFlushDB" "guarded handleFlushAll"
  by (auto intro!: guardedI simp: server_write_defs)

lemma Rename_fails: "Rename now src dst s = Ret (s', False) \<Longrightarrow> s' = s"
  by (cases "renameEntry (typeOf now src s) src dst (deleteKey dst s)")
    (auto simp: Rename_def Let_def split: if_splits)

lemma guarded_rename [guarded_intros]: "guarded handleRename"
  by (auto intro!: guardedI dest: Rename_fails simp: handleRename_def split: go.split)

lemma panic_rename [panic_intros]: "panicFree handleRename"
proof (rule panicFreeI)
  fix env args s
  have "returns (Rename now src dst s)" if "src \<noteq> dst" for now src dst
    using that
    by (auto simp: Rename_def renameEntry_def typeOf_def deleteKey_def Let_def go_map
        split: tag.split option.split if_splits)
  then show "returns (handleRename env args s)"
    by (simp add: handleRename_def split: go.split prod.split) (metis returns.simps(2))
qed

lemma typeOf_ZCard: "Type now k s = ''zset'' \<Longrightarrow> returns (ZCard now k s)"
  by (auto simp: Type_def typeOf_def ZCard_def getZSet_def Let_def split: if_splits option.splits)

lemma panic_object [panic_intros]: "panicFree handleObject"
proof (rule panicFreeI)
  fix env args s
  have "returns (objectEncoding now k s)" for now k
    using typeOf_ZCard [of now k s] by (auto simp: objectEncoding_def Let_def split: go.split)
  then show "returns (handleObject env args s)" by (simp add: handleObject_def Let_def)
qed

lemma panic_server [panic_intros]:
  "panicFree handleScan" "panicFree handleHScan" "panicFree handleSScan" "panicFree handleZScan"
  "panicFree handleInfo" "panicFree handleDBSize" "panicFree handleType" "panicFree handleSelect"
  "panicFree handleClient" "panicFree handleFlushDB" "panicFree handleFlushAll"
  by (auto intro!: panicFreeI simp: scan_defs server_read_defs server_write_defs Let_def
      split: option.split sum.split)

end
