(* ===== verification/Parser.thy ===== *)
theory Parser
  imports Protocol
begin

text \<open>
  The RESP reader of \<^verbatim>\<open>internal/protocol/parser.go\<close>.

  The buffered reader over a connection or a file is the list of the bytes not yet read; the end
  of the list is the end of the stream.  A reader returns the value and the bytes after it, one of
  the code's errors, or a panic.  The error values keep what callers observe: \<^verbatim>\<open>io.EOF\<close> (which a
  wrapped error still is for \<^verbatim>\<open>errors.Is\<close>), \<^verbatim>\<open>io.ErrUnexpectedEOF\<close> and one constructor per
  \<^verbatim>\<open>fmt.Errorf\<close> of the parser.

  \<open>readValue\<close> recurses through arrays, so it takes a bound on the number of nested calls; the
  entry points \<open>ReadValue\<close> and \<open>ReadCommand\<close> pass twice the length of the stream plus two, which
  is always enough (\<open>readValue_fuel\<close>): every call reads at least one byte.
\<close>

section \<open>Errors and results\<close>

datatype proto_error =
    EOF | UnexpectedEOF
  | UnknownPrefix char | InvalidInteger string
  | InvalidBulkLength string | NegativeBulkLength int | ExpectedCRLF string
  | InvalidArrayLength string | NegativeArrayLength int
  | ExpectedArray | EmptyCommand | NotBulkString nat

datatype 'a read = Got 'a string | Fail proto_error | ReadPanic | NoFuel

section \<open>Reading bytes\<close>

fun ReadString :: "string \<Rightarrow> string read" where
  "ReadString [] = Fail EOF"
| "ReadString (c # cs) =
     (if c = CHR 0x0A then Got [c] cs
      else case ReadString cs of
             Got l r \<Rightarrow> Got (c # l) r
           | e \<Rightarrow> e)"

definition ReadFull :: "nat \<Rightarrow> string \<Rightarrow> string read" where
  "ReadFull n s =
     (if n \<le> length s then Got (take n s) (drop n s)
      else if s = [] then Fail EOF else Fail UnexpectedEOF)"

definition readLine :: "string \<Rightarrow> string read" where
  "readLine s =
     (case ReadString s of
        Got l r \<Rightarrow> Got (trimRight [CHR 0x0D, CHR 0x0A] l) r
      | e \<Rightarrow> e)"

definition consumeCRLF :: "string \<Rightarrow> unit read" where
  "consumeCRLF s =
     (case ReadFull 2 s of
        Got b r \<Rightarrow> if b ! 0 \<noteq> CHR 0x0D \<or> b ! 1 \<noteq> CHR 0x0A then Fail (ExpectedCRLF b) else Got () r
      | Fail e \<Rightarrow> Fail e
      | ReadPanic \<Rightarrow> ReadPanic
      | NoFuel \<Rightarrow> NoFuel)"

section \<open>Reading values\<close>

definition readSimpleString :: "string \<Rightarrow> Response read" where
  "readSimpleString s =
     (case readLine s of
        Got l r \<Rightarrow> Got (SimpleString l) r
      | Fail e \<Rightarrow> Fail e | ReadPanic \<Rightarrow> ReadPanic | NoFuel \<Rightarrow> NoFuel)"

definition readError :: "string \<Rightarrow> Response read" where
  "readError s =
     (case readLine s of
        Got l r \<Rightarrow> Got (Error l) r
      | Fail e \<Rightarrow> Fail e | ReadPanic \<Rightarrow> ReadPanic | NoFuel \<Rightarrow> NoFuel)"

definition readInteger :: "string \<Rightarrow> Response read" where
  "readInteger s =
     (case readLine s of
        Got l r \<Rightarrow> (case ParseInt l of None \<Rightarrow> Fail (InvalidInteger l) | Some n \<Rightarrow> Got (Integer n) r)
      | Fail e \<Rightarrow> Fail e | ReadPanic \<Rightarrow> ReadPanic | NoFuel \<Rightarrow> NoFuel)"

definition readBulkString :: "string \<Rightarrow> Response read" where
  "readBulkString s =
     (case readLine s of
        Got l r \<Rightarrow>
          (case ParseInt l of
             None \<Rightarrow> Fail (InvalidBulkLength l)
           | Some n \<Rightarrow>
               if n = -1 then Got NullBulkString r
               else if n < 0 then Fail (NegativeBulkLength n)
               else if \<not> makeslice_ok 1 n then ReadPanic
               else (case ReadFull (nat n) r of
                       Got d r' \<Rightarrow>
                         (case consumeCRLF r' of
                            Got _ r'' \<Rightarrow> Got (BulkString d) r''
                          | Fail e \<Rightarrow> Fail e | ReadPanic \<Rightarrow> ReadPanic | NoFuel \<Rightarrow> NoFuel)
                     | Fail e \<Rightarrow> Fail e | ReadPanic \<Rightarrow> ReadPanic | NoFuel \<Rightarrow> NoFuel))
      | Fail e \<Rightarrow> Fail e | ReadPanic \<Rightarrow> ReadPanic | NoFuel \<Rightarrow> NoFuel)"

text \<open>The size of a \<^verbatim>\<open>Response\<close> struct: an int, a string, an int64 and a slice.\<close>

definition sizeofResponse :: int where "sizeofResponse = 56"

fun readValue :: "nat \<Rightarrow> string \<Rightarrow> Response read"
  and readArray :: "nat \<Rightarrow> string \<Rightarrow> Response read"
  and readElems :: "nat \<Rightarrow> nat \<Rightarrow> string \<Rightarrow> Response list read" where
  "readValue 0 s = NoFuel"
| "readValue (Suc fuel) s =
     (case s of
        [] \<Rightarrow> Fail EOF
      | prefix # r \<Rightarrow>
          if prefix = CHR ''+'' then readSimpleString r
          else if prefix = CHR ''-'' then readError r
          else if prefix = CHR '':'' then readInteger r
          else if prefix = CHR ''$'' then readBulkString r
          else if prefix = CHR ''*'' then readArray fuel r
          else Fail (UnknownPrefix prefix))"
| "readArray fuel s =
     (case readLine s of
        Got l r \<Rightarrow>
          (case ParseInt l of
             None \<Rightarrow> Fail (InvalidArrayLength l)
           | Some n \<Rightarrow>
               if n = -1 then Got NullArray r
               else if n < 0 then Fail (NegativeArrayLength n)
               else if \<not> makeslice_ok sizeofResponse n then ReadPanic
               else (case readElems fuel (nat n) r of
                       Got vs r' \<Rightarrow> Got (Array vs) r'
                     | Fail e \<Rightarrow> Fail e | ReadPanic \<Rightarrow> ReadPanic | NoFuel \<Rightarrow> NoFuel))
      | Fail e \<Rightarrow> Fail e | ReadPanic \<Rightarrow> ReadPanic | NoFuel \<Rightarrow> NoFuel)"
| "readElems 0 n s = NoFuel"
| "readElems (Suc fuel) n s =
     (if n = 0 then Got [] s
      else case readValue fuel s of
             Got v r \<Rightarrow>
               (case readElems fuel (n - 1) r of
                  Got vs r' \<Rightarrow> Got (v # vs) r'
                | e \<Rightarrow> e)
           | Fail e \<Rightarrow> Fail e | ReadPanic \<Rightarrow> ReadPanic | NoFuel \<Rightarrow> NoFuel)"

declare readArray.simps [simp del]

definition ReadValue :: "string \<Rightarrow> Response read" where
  "ReadValue s = readValue (2 * length s + 2) s"

fun commandParts :: "nat \<Rightarrow> Response list \<Rightarrow> proto_error + string list" where
  "commandParts i [] = Inr []"
| "commandParts i (BulkString s # rs) = map_sum id (\<lambda>ss. s # ss) (commandParts (Suc i) rs)"
| "commandParts i (_ # rs) = Inl (NotBulkString i)"

definition ReadCommand :: "string \<Rightarrow> string list read" where
  "ReadCommand s =
     (case ReadValue s of
        Got (Array rs) r \<Rightarrow>
          (if rs = [] then Fail EmptyCommand
           else case commandParts 0 rs of Inl e \<Rightarrow> Fail e | Inr ss \<Rightarrow> Got ss r)
      | Got _ r \<Rightarrow> Fail ExpectedArray
      | Fail e \<Rightarrow> Fail e | ReadPanic \<Rightarrow> ReadPanic | NoFuel \<Rightarrow> NoFuel)"

section \<open>Well-formed values\<close>

text \<open>
  What the wire format can carry: a line holds no line feed and does not end in a carriage return
  (the reader strips every trailing CR and LF), integers are 64-bit, and lengths stay within what
  \<^verbatim>\<open>make\<close> can allocate.
\<close>

definition line_ok :: "string \<Rightarrow> bool" where
  "line_ok l \<longleftrightarrow> CHR 0x0A \<notin> set l \<and> (l = [] \<or> last l \<noteq> CHR 0x0D)"

fun wf_resp :: "Response \<Rightarrow> bool" where
  "wf_resp (SimpleString s) = line_ok s"
| "wf_resp (Error s) = line_ok s"
| "wf_resp (Integer n) = in64 n"
| "wf_resp (BulkString s) = makeslice_ok 1 (int (length s))"
| "wf_resp NullBulkString = True"
| "wf_resp NullArray = True"
| "wf_resp (Array rs) =
     (makeslice_ok sizeofResponse (int (length rs)) \<and> (\<forall>r \<in> set rs. wf_resp r))"

definition wf_command :: "string list \<Rightarrow> bool" where
  "wf_command args \<longleftrightarrow> args \<noteq> [] \<and> wf_resp (Array (map BulkString args))"

definition Encode :: "string list \<Rightarrow> string" where
  "Encode args = Serialize (Array (map BulkString args))"

section \<open>Reading what was written\<close>

lemma ReadString_line: "CHR 0x0A \<notin> set l \<Longrightarrow> ReadString (l @ CHR 0x0A # rest) = Got (l @ [CHR 0x0A]) rest"
  by (induction l) auto

lemma readLine_line [simp]: "line_ok l \<Longrightarrow> readLine (l @ CRLF @ rest) = Got l rest"
proof -
  assume l: "line_ok l"
  then have "ReadString ((l @ [CHR 0x0D]) @ CHR 0x0A # rest) = Got ((l @ [CHR 0x0D]) @ [CHR 0x0A]) rest"
    by (intro ReadString_line) (simp add: line_ok_def)
  moreover have "trimRight [CHR 0x0D, CHR 0x0A] (l @ [CHR 0x0D, CHR 0x0A]) = l"
    using l by (simp add: trimRight_def) (cases l rule: rev_cases; auto simp: line_ok_def)
  ultimately show ?thesis by (simp add: readLine_def CRLF_def)
qed

lemma digit_not_eol: "digit_val c \<noteq> None \<Longrightarrow> c \<noteq> CHR 0x0D \<and> c \<noteq> CHR 0x0A"
  by (auto simp: digit_val_def Let_def)

lemma line_ok_FormatInt [simp]: "line_ok (FormatInt i)"
proof -
  have "c \<noteq> CHR 0x0D \<and> c \<noteq> CHR 0x0A" if "c \<in> set (FormatInt i)" for c
    using FormatInt_chars [OF that] digit_not_eol [of c] by auto
  then show ?thesis by (auto simp: line_ok_def)
qed

lemma line_ok_minus1 [simp]: "line_ok ''-1''"
  by (simp add: line_ok_def)

lemma ParseInt_minus1 [simp]: "ParseInt ''-1'' = Some (-1)"
  by (simp add: ParseInt_def digit_val_def Let_def in64_bounds)

lemma consumeCRLF_CRLF [simp]: "consumeCRLF (CRLF @ rest) = Got () rest"
  by (simp add: consumeCRLF_def ReadFull_def CRLF_def)

lemma ReadFull_append [simp]: "ReadFull (length d) (d @ r) = Got d r"
  by (simp add: ReadFull_def)

lemma makeslice_ok_in64:
  "1 \<le> sz \<Longrightarrow> makeslice_ok sz n \<Longrightarrow> in64 n"
proof -
  assume "1 \<le> sz" and ok: "makeslice_ok sz n"
  then have "1 * n \<le> sz * n"
    by (intro mult_right_mono) (simp_all add: makeslice_ok_def)
  with ok show ?thesis by (simp add: makeslice_ok_def maxAlloc_def in64_bounds)
qed

lemma readBulkString_bulk:
  "makeslice_ok 1 (int (length d)) \<Longrightarrow>
     readBulkString (FormatInt (int (length d)) @ CRLF @ d @ CRLF @ rest) = Got (BulkString d) rest"
  using makeslice_ok_in64 [of 1 "int (length d)"] by (simp add: readBulkString_def)

lemma readBulkString_null: "readBulkString (''-1'' @ CRLF @ rest) = Got NullBulkString rest"
  using readLine_line [OF line_ok_minus1, of rest] by (simp add: readBulkString_def)

lemma readArray_null: "readArray f (''-1'' @ CRLF @ rest) = Got NullArray rest"
  using readLine_line [OF line_ok_minus1, of rest] by (simp add: readArray.simps)

lemma readArray_count:
  assumes "makeslice_ok sizeofResponse (int n)"
  shows "readArray f (FormatInt (int n) @ CRLF @ rest) =
     (case readElems f n rest of
        Got vs r' \<Rightarrow> Got (Array vs) r'
      | Fail e \<Rightarrow> Fail e | ReadPanic \<Rightarrow> ReadPanic | NoFuel \<Rightarrow> NoFuel)"
  using assms makeslice_ok_in64 [of sizeofResponse "int n"]
  by (simp add: sizeofResponse_def readArray.simps)

text \<open>With any fuel the reader either runs out of it or gives the value back.\<close>

lemma readElems_Serialize:
  assumes "\<And>r f rest. r \<in> set rs \<Longrightarrow> readValue f (Serialize r @ rest) \<in> {NoFuel, Got r rest}"
  shows "readElems f (length rs) (concat (map Serialize rs) @ rest) \<in> {NoFuel, Got rs rest}"
  using assms
proof (induction rs arbitrary: f)
  case Nil
  then show ?case by (cases f) auto
next
  case (Cons r rs)
  show ?case
  proof (cases f)
    case 0
    then show ?thesis by simp
  next
    case (Suc f')
    have v: "readValue f' (Serialize r @ concat (map Serialize rs) @ rest)
        \<in> {NoFuel, Got r (concat (map Serialize rs) @ rest)}"
      by (rule Cons.prems) simp
    have "readElems f' (length rs) (concat (map Serialize rs) @ rest) \<in> {NoFuel, Got rs rest}"
      by (rule Cons.IH) (rule Cons.prems, simp)
    with v Suc show ?thesis by auto
  qed
qed

lemma readValue_Serialize:
  "wf_resp r \<Longrightarrow> readValue f (Serialize r @ rest) \<in> {NoFuel, Got r rest}"
proof (induction r arbitrary: f rest)
  case (SimpleString s)
  then show ?case by (cases f) (simp_all add: readSimpleString_def)
next
  case (Error s)
  then show ?case by (cases f) (simp_all add: readError_def)
next
  case (Integer n)
  then show ?case by (cases f) (simp_all add: readInteger_def)
next
  case (BulkString s)
  then show ?case by (cases f) (simp_all add: readBulkString_bulk)
next
  case NullBulkString
  show ?case using readBulkString_null [of rest] by (cases f) simp_all
next
  case NullArray
  show ?case using readArray_null [of _ rest] by (cases f) simp_all
next
  case (Array rs)
  show ?case
  proof (cases f)
    case 0
    then show ?thesis by simp
  next
    case (Suc f')
    have elems: "readElems f' (length rs) (concat (map Serialize rs) @ rest) \<in> {NoFuel, Got rs rest}"
      by (rule readElems_Serialize) (rule Array.IH, simp_all add: Array.prems [simplified])
    from Array.prems have ok: "makeslice_ok sizeofResponse (int (length rs))" by simp
    show ?thesis
      using elems Suc by (auto simp: readArray_count [OF ok])
  qed
qed

section \<open>Enough fuel\<close>

lemma ReadString_shorter: "ReadString s = Got l r \<Longrightarrow> length r < length s"
  by (induction s arbitrary: l) (auto split: if_splits read.splits)

lemma ReadString_total: "ReadString s \<noteq> NoFuel" "ReadString s \<noteq> ReadPanic"
  by (induction s) (auto split: if_splits read.splits)

lemma readLine_shorter: "readLine s = Got l r \<Longrightarrow> length r < length s"
  by (auto simp: readLine_def split: read.splits dest: ReadString_shorter)

lemma readLine_total [simp]: "readLine s \<noteq> NoFuel" "readLine s \<noteq> ReadPanic"
  using ReadString_total [of s] by (auto simp: readLine_def split: read.splits)

lemma ReadFull_total [simp]: "ReadFull n s \<noteq> NoFuel" "ReadFull n s \<noteq> ReadPanic"
  by (simp_all add: ReadFull_def)

lemma ReadFull_length: "ReadFull n s = Got d r \<Longrightarrow> length d = n \<and> s = d @ r"
  by (auto simp: ReadFull_def split: if_splits)

lemma consumeCRLF_total [simp]: "consumeCRLF s \<noteq> NoFuel" "consumeCRLF s \<noteq> ReadPanic"
  by (auto simp: consumeCRLF_def split: read.splits)

lemma consumeCRLF_shorter: "consumeCRLF s = Got u r \<Longrightarrow> length r < length s"
  by (auto simp: consumeCRLF_def split: read.splits if_splits dest: ReadFull_length)

lemma readBulkString_total [simp]: "readBulkString s \<noteq> NoFuel"
  by (auto simp: readBulkString_def split: read.splits option.splits)

lemma readBulkString_shorter: "readBulkString s = Got v r \<Longrightarrow> length r < length s"
  by (auto simp: readBulkString_def split: read.splits option.splits if_splits
      dest!: readLine_shorter consumeCRLF_shorter ReadFull_length)

lemma readScalar_total [simp]:
  "readSimpleString s \<noteq> NoFuel" "readError s \<noteq> NoFuel" "readInteger s \<noteq> NoFuel"
  by (auto simp: readSimpleString_def readError_def readInteger_def split: read.splits option.splits)

lemma readScalar_shorter:
  "readSimpleString s = Got v r \<Longrightarrow> length r < length s"
  "readError s = Got v r \<Longrightarrow> length r < length s"
  "readInteger s = Got v r \<Longrightarrow> length r < length s"
  by (auto simp: readSimpleString_def readError_def readInteger_def
      split: read.splits option.splits dest: readLine_shorter)

lemma readArray_Got:
  assumes "readArray f s = Got w r"
  obtains (null) l where "readLine s = Got l r" "ParseInt l = Some (-1)" "w = NullArray"
  | (elems) l t n vs where "readLine s = Got l t" "ParseInt l = Some n" "0 \<le> n"
      "makeslice_ok sizeofResponse n" "readElems f (nat n) t = Got vs r" "w = Array vs"
proof (cases "readLine s")
  case (Got l t)
  show ?thesis
  proof (cases "ParseInt l")
    case None
    with Got assms show ?thesis by (simp add: readArray.simps)
  next
    case (Some n)
    with Got assms show ?thesis
      by (cases "readElems f (nat n) t")
        (auto simp: readArray.simps split: if_splits intro: null elems)
  qed
qed (use assms in \<open>simp_all add: readArray.simps\<close>)

lemma readElems_Got:
  assumes "readElems (Suc f) n s = Got vs r"
  obtains (none) "n = 0" "vs = []" "r = s"
  | (more) x t xs where "n \<noteq> 0" "readValue f s = Got x t"
      "readElems f (n - 1) t = Got xs r" "vs = x # xs"
  using assms by (auto split: if_splits read.splits)

lemma readValue_Got:
  assumes "readValue (Suc f) s = Got v r"
  obtains t where "s = CHR ''+'' # t" "readSimpleString t = Got v r"
  | t where "s = CHR ''-'' # t" "readError t = Got v r"
  | t where "s = CHR '':'' # t" "readInteger t = Got v r"
  | t where "s = CHR ''$'' # t" "readBulkString t = Got v r"
  | t where "s = CHR ''*'' # t" "readArray f t = Got v r"
  using assms by (cases s) (simp_all split: if_splits)

lemma readArray_shorter:
  assumes "\<And>n t vs r. readElems f n t = Got vs r \<Longrightarrow> length r \<le> length t"
    and "readArray f s = Got w r"
  shows "length r < length s"
  using assms(2) by (rule readArray_Got) (auto dest!: readLine_shorter assms(1))

lemma read_shorter:
  shows readValue_shorter: "readValue f s = Got v r \<Longrightarrow> length r < length s"
    and readElems_shorter: "readElems f n t = Got vs r' \<Longrightarrow> length r' \<le> length t"
proof (induction f arbitrary: s v r n t vs r')
  case 0
  { case 1 then show ?case by simp }
  { case 2 then show ?case by simp }
next
  case (Suc f)
  { case 1
    then show ?case
      by (rule readValue_Got)
        (auto dest: readScalar_shorter readBulkString_shorter
          dest!: readArray_shorter [rotated, where f = f] Suc.IH(2)) }
  { case 2
    then show ?case
    proof (cases rule: readElems_Got)
      case (more x u xs)
      from Suc.IH(1) [OF more(2)] Suc.IH(2) [OF more(3)] show ?thesis by simp
    qed simp }
qed

lemma readArray_fuel:
  assumes "\<And>n t. 2 * length t + 2 \<le> f \<Longrightarrow> readElems f n t \<noteq> NoFuel"
    and "2 * length s \<le> f"
  shows "readArray f s \<noteq> NoFuel"
proof (cases "readLine s")
  case (Got l t)
  with assms(2) readLine_shorter [OF Got] have "2 * length t + 2 \<le> f" by simp
  from assms(1) [OF this] Got show ?thesis
    by (simp add: readArray.simps split: option.splits read.splits)
qed (simp_all add: readArray.simps)

lemma read_fuel:
  shows readValue_fuel: "2 * length s + 1 \<le> f \<Longrightarrow> readValue f s \<noteq> NoFuel"
    and readElems_fuel: "2 * length t + 2 \<le> f \<Longrightarrow> readElems f n t \<noteq> NoFuel"
proof (induction f arbitrary: s n t)
  case 0
  { case 1 then show ?case by simp }
  { case 2 then show ?case by simp }
next
  case (Suc f)
  { case 1
    then show ?case
      by (cases s) (simp_all add: readArray_fuel [OF Suc.IH(2)]) }
  { case 2
    show ?case
    proof (cases "readValue f t")
      case (Got x u)
      with 2 readValue_shorter [OF Got] have "2 * length u + 2 \<le> f" by simp
      from Suc.IH(2) [OF this] Got show ?thesis
        by (simp split: read.splits)
    next
      case NoFuel
      with 2 Suc.IH(1) [of t] show ?thesis by simp
    qed simp_all }
qed

lemma ReadValue_total: "ReadValue s \<noteq> NoFuel"
  unfolding ReadValue_def by (rule readValue_fuel) simp

lemma ReadCommand_total: "ReadCommand s \<noteq> NoFuel"
  using ReadValue_total [of s] by (auto simp: ReadCommand_def split: read.splits Response.splits sum.splits)

section \<open>More fuel changes nothing\<close>

lemma readArray_mono:
  assumes "\<And>n t. readElems f n t \<noteq> NoFuel \<Longrightarrow> readElems g n t = readElems f n t"
    and "readArray f s \<noteq> NoFuel"
  shows "readArray g s = readArray f s"
proof (cases "readLine s")
  case (Got l t)
  show ?thesis
  proof (cases "ParseInt l")
    case (Some n)
    with Got assms(2) assms(1) [of "nat n" t] show ?thesis
      by (cases "readElems f (nat n) t") (auto simp: readArray.simps)
  qed (use Got in \<open>simp add: readArray.simps\<close>)
qed (simp_all add: readArray.simps)

lemma read_mono:
  shows readValue_mono: "readValue f s \<noteq> NoFuel \<Longrightarrow> readValue (f + k) s = readValue f s"
    and readElems_mono: "readElems f n t \<noteq> NoFuel \<Longrightarrow> readElems (f + k) n t = readElems f n t"
proof (induction f arbitrary: s n t)
  case 0
  { case 1 then show ?case by simp }
  { case 2 then show ?case by simp }
next
  case (Suc f)
  { case 1
    have "readArray (f + k) u = readArray f u" if "readArray f u \<noteq> NoFuel" for u
      by (rule readArray_mono [OF _ that]) (rule Suc.IH(2))
    with 1 show ?case by (cases s) auto }
  { case 2
    show ?case
    proof (cases "n = 0")
      case False
      with 2 have v: "readValue f t \<noteq> NoFuel" by auto
      show ?thesis
      proof (cases "readValue f t")
        case (Got x u)
        with 2 False have "readElems f (n - 1) u \<noteq> NoFuel" by auto
        with Got False Suc.IH(1) [OF v] Suc.IH(2) show ?thesis by simp
      qed (use False v Suc.IH(1) [OF v] in simp_all)
    qed simp }
qed

lemma readValue_eq_ReadValue: "readValue f s \<noteq> NoFuel \<Longrightarrow> readValue f s = ReadValue s"
proof -
  assume f: "readValue f s \<noteq> NoFuel"
  let ?g = "2 * length s + 2"
  have g: "readValue ?g s \<noteq> NoFuel" by (rule readValue_fuel) simp
  have "readValue (f + ?g) s = readValue f s" by (rule readValue_mono [OF f])
  moreover have "readValue (?g + f) s = readValue ?g s" by (rule readValue_mono [OF g])
  ultimately show ?thesis by (simp add: ReadValue_def add.commute)
qed

section \<open>Reading a stream that is cut short\<close>

text \<open>
  Whatever a reader gets from a stream, it gets the same from the beginning of that stream, or it
  reports the end of the input: no value is ever invented from a truncated one.
\<close>

definition cut_short :: "'a read \<Rightarrow> bool" where
  "cut_short x \<longleftrightarrow> x = Fail EOF \<or> x = Fail UnexpectedEOF"

definition agrees :: "'a read \<Rightarrow> 'a \<Rightarrow> string \<Rightarrow> string \<Rightarrow> bool" where
  "agrees x v r t \<longleftrightarrow> cut_short x \<or> (\<exists>r'. x = Got v r' \<and> r = r' @ t)"

lemma agrees_simps [simp]:
  "agrees (Fail EOF) v r t" "agrees (Fail UnexpectedEOF) v r t"
  "agrees (Got v' r') v r t \<longleftrightarrow> v' = v \<and> r = r' @ t"
  by (auto simp: agrees_def cut_short_def)

lemma agreesE:
  assumes "agrees x v r t"
  obtains "x = Fail EOF" | "x = Fail UnexpectedEOF" | r' where "x = Got v r'" "r = r' @ t"
  using assms by (auto simp: agrees_def cut_short_def)

lemma ReadString_agrees: "ReadString (s @ t) = Got l r \<Longrightarrow> agrees (ReadString s) l r t"
proof (induction s arbitrary: l)
  case (Cons c s)
  show ?case
  proof (cases "c = CHR 0x0A")
    case False
    with Cons.prems obtain l' where "ReadString (s @ t) = Got l' r" and l: "l = c # l'"
      by (auto split: read.splits)
    from Cons.IH [OF this(1)] False l show ?thesis by (auto elim: agreesE)
  qed (use Cons.prems in auto)
qed simp

lemma readLine_agrees: "readLine (s @ t) = Got l r \<Longrightarrow> agrees (readLine s) l r t"
  unfolding readLine_def
  by (auto split: read.splits dest!: ReadString_agrees elim: agreesE)

lemma ReadFull_agrees: "ReadFull n (s @ t) = Got d r \<Longrightarrow> agrees (ReadFull n s) d r t"
  by (auto simp: ReadFull_def split: if_splits)

lemma consumeCRLF_agrees: "consumeCRLF (s @ t) = Got u r \<Longrightarrow> agrees (consumeCRLF s) u r t"
  unfolding consumeCRLF_def
  by (auto split: read.splits if_splits dest!: ReadFull_agrees elim: agreesE)

lemma readScalar_agrees:
  "readSimpleString (s @ t) = Got v r \<Longrightarrow> agrees (readSimpleString s) v r t"
  "readError (s @ t) = Got v r \<Longrightarrow> agrees (readError s) v r t"
  "readInteger (s @ t) = Got v r \<Longrightarrow> agrees (readInteger s) v r t"
  unfolding readSimpleString_def readError_def readInteger_def
  by (auto split: read.splits option.splits dest!: readLine_agrees elim: agreesE)

lemma readBulkString_agrees:
  assumes "readBulkString (s @ t) = Got v r"
  shows "agrees (readBulkString s) v r t"
proof (cases "readLine (s @ t)")
  case (Got l u)
  from readLine_agrees [OF Got] show ?thesis
  proof (cases rule: agreesE)
    case (3 u')
    then show ?thesis using assms Got
      by (auto simp: readBulkString_def split: option.splits if_splits read.splits
          dest!: ReadFull_agrees consumeCRLF_agrees elim!: agreesE)
  qed (simp_all add: readBulkString_def)
qed (use assms in \<open>simp_all add: readBulkString_def\<close>)

lemma readArray_agrees:
  assumes elems: "\<And>n s vs r. readElems f n (s @ t) = Got vs r \<Longrightarrow> agrees (readElems f n s) vs r t"
    and "readArray f (s @ t) = Got v r"
  shows "agrees (readArray f s) v r t"
  using assms(2)
proof (cases rule: readArray_Got)
  case (null l)
  from readLine_agrees [OF null(1)] null show ?thesis
    by (auto simp: readArray.simps elim: agreesE)
next
  case (elems l u n vs)
  from readLine_agrees [OF elems(1)] show ?thesis
  proof (cases rule: agreesE)
    case (3 u')
    with elems assms(1) [of "nat n" u' vs r] show ?thesis
      by (auto simp: readArray.simps elim: agreesE)
  qed (simp_all add: readArray.simps)
qed

lemma read_agrees:
  shows readValue_agrees: "readValue f (s @ t) = Got v r \<Longrightarrow> agrees (readValue f s) v r t"
    and readElems_agrees: "readElems f n (s' @ t) = Got vs r' \<Longrightarrow> agrees (readElems f n s') vs r' t"
proof (induction f arbitrary: s v r n s' vs r')
  case 0
  { case 1 then show ?case by simp }
  { case 2 then show ?case by simp }
next
  case (Suc f)
  { case 1
    show ?case
    proof (cases s)
      case (Cons c u)
      have arr: "readArray f (u @ t) = Got v r \<Longrightarrow> agrees (readArray f u) v r t"
        by (rule readArray_agrees) (rule Suc.IH(2))
      from 1 Cons show ?thesis
        by (auto split: if_splits intro: readScalar_agrees readBulkString_agrees arr)
    qed simp }
  { case 2
    then show ?case
    proof (cases rule: readElems_Got)
      case (more x u xs)
      from Suc.IH(1) [OF more(2)] show ?thesis
      proof (cases rule: agreesE)
        case (3 u')
        with Suc.IH(2) [of "n - 1" u' xs r'] more show ?thesis
          by (auto elim: agreesE)
      qed (use more in simp_all)
    qed simp }
qed

section \<open>Commands on the wire\<close>

lemma ReadValue_Serialize: "wf_resp r \<Longrightarrow> ReadValue (Serialize r @ rest) = Got r rest"
  using readValue_Serialize [of r _ rest] ReadValue_total [of "Serialize r @ rest"]
  unfolding ReadValue_def by blast

lemma commandParts_bulk: "commandParts i (map BulkString ss) = Inr ss"
  by (induction ss arbitrary: i) auto

lemma ReadCommand_of_ReadValue:
  "ss \<noteq> [] \<Longrightarrow> ReadValue s = Got (Array (map BulkString ss)) r \<Longrightarrow> ReadCommand s = Got ss r"
  by (simp add: ReadCommand_def commandParts_bulk)

lemma ReadCommand_Encode: "wf_command args \<Longrightarrow> ReadCommand (Encode args @ rest) = Got args rest"
  unfolding wf_command_def Encode_def
  by (rule ReadCommand_of_ReadValue) (simp, rule ReadValue_Serialize, simp)

lemma ReadCommand_Nil: "ReadCommand [] = Fail EOF"
  by (simp add: ReadCommand_def ReadValue_def numeral_2_eq_2)

lemma ReadValue_shorter: "ReadValue s = Got v rest \<Longrightarrow> length rest < length s"
  unfolding ReadValue_def by (rule readValue_shorter)

lemma ReadCommand_shorter: "ReadCommand s = Got args rest \<Longrightarrow> length rest < length s"
  by (auto simp: ReadCommand_def dest: ReadValue_shorter split: read.splits Response.splits sum.splits if_splits)

lemma cut_short_ReadCommand: "cut_short (ReadValue s) \<Longrightarrow> cut_short (ReadCommand s)"
  by (auto simp: cut_short_def ReadCommand_def)

lemma ReadCommand_prefix:
  assumes wf: "wf_command args" and cut: "Encode args = p @ q" "q \<noteq> []"
  shows "cut_short (ReadCommand p)"
proof (rule cut_short_ReadCommand)
  let ?v = "Array (map BulkString args)"
  have "ReadValue (p @ q) = Got ?v []"
    using wf ReadValue_Serialize [of ?v "[]"] cut by (simp add: wf_command_def Encode_def)
  then have "readValue (2 * length (p @ q) + 2) (p @ q) = Got ?v []"
    by (simp only: ReadValue_def)
  then have ag: "agrees (readValue (2 * length (p @ q) + 2) p) ?v [] q"
    by (rule readValue_agrees)
  have "readValue (2 * length (p @ q) + 2) p \<noteq> NoFuel"
    by (rule readValue_fuel) simp
  then have "readValue (2 * length (p @ q) + 2) p = ReadValue p"
    by (rule readValue_eq_ReadValue)
  with ag cut show "cut_short (ReadValue p)"
    unfolding agrees_def by simp
qed

definition decodeResponse :: "string \<Rightarrow> (Response \<times> string) option" where
  "decodeResponse s = (case ReadValue s of Got v r \<Rightarrow> Some (v, r) | _ \<Rightarrow> None)"

definition decodeCommand :: "string \<Rightarrow> (string list \<times> string) option" where
  "decodeCommand s = (case ReadCommand s of Got v r \<Rightarrow> Some (v, r) | _ \<Rightarrow> None)"

interpretation resp: stream_codec Serialize decodeResponse wf_resp
  by unfold_locales (simp add: decodeResponse_def ReadValue_Serialize)

interpretation cmd: stream_codec Encode decodeCommand wf_command
  by unfold_locales (simp add: decodeCommand_def ReadCommand_Encode)

section \<open>Properties of the protocol layer\<close>

text \<open>
  C4. Every RESP value the wire format can carry is read back exactly from its serialization, with
  the bytes after it untouched: bulk strings may hold any bytes, arrays may nest to any depth.
\<close>

theorem protocol_roundtrip:
  assumes "wf_resp r"
  shows "ReadValue (Serialize r @ rest) = Got r rest"
  using assms by (rule ReadValue_Serialize)

theorem protocol_roundtrip_witness:
  "ReadValue (Serialize (Array [BulkString [CHR 0x0D, CHR 0x0A], Integer (-7), NullBulkString]) @ ''xyz'')
     = Got (Array [BulkString [CHR 0x0D, CHR 0x0A], Integer (-7), NullBulkString]) ''xyz''"
  by (rule protocol_roundtrip)
    (simp add: makeslice_ok_def maxAlloc_def sizeofResponse_def in64_bounds)



text \<open>
  C22. A torn command is never read as a command: reading any proper prefix of an encoded command
  reports the end of the input (the whole command is the only thing that decodes).
\<close>

theorem torn_command_is_eof:
  assumes "wf_command args" and "Encode args = p @ q" and "q \<noteq> []"
  shows "ReadCommand p = Fail EOF \<or> ReadCommand p = Fail UnexpectedEOF"
  using ReadCommand_prefix [OF assms] by (simp add: cut_short_def)

theorem torn_command_is_eof_witness:
  "ReadCommand (take 9 (Encode [''GET'', ''k''])) = Fail EOF
    \<or> ReadCommand (take 9 (Encode [''GET'', ''k''])) = Fail UnexpectedEOF"
proof (rule torn_command_is_eof)
  show "wf_command [''GET'', ''k'']"
    by (simp add: wf_command_def makeslice_ok_def maxAlloc_def sizeofResponse_def)
  show "Encode [''GET'', ''k''] = take 9 (Encode [''GET'', ''k'']) @ drop 9 (Encode [''GET'', ''k''])"
    by simp
  show "drop 9 (Encode [''GET'', ''k'']) \<noteq> []"
    by (simp add: Encode_def FormatInt_def fmt_nat.simps CRLF_def)
qed

text \<open>
  C24. Reading a command ends on every input: the nesting bound the model carries is never the
  reason the reader stops.
\<close>

theorem ReadCommand_terminates: "ReadCommand s \<noteq> NoFuel"
  by (rule ReadCommand_total)

text \<open>
  C35. The reader trusts the announced length: a bulk string header that announces more bytes than
  the runtime can allocate makes \<^verbatim>\<open>make([]byte, length)\<close> panic, before a single byte of it is read.
\<close>

theorem oversized_bulk_panics:
  assumes "in64 n" and "maxAlloc < n"
  shows "ReadCommand (''*1'' @ CRLF @ ''$'' @ FormatInt n @ CRLF @ rest) = ReadPanic"
proof -
  have one: "''*1'' = CHR ''*'' # FormatInt (int 1)"
    by code_simp
  have bulk: "readBulkString (FormatInt n @ CRLF @ rest) = ReadPanic"
    using assms by (simp add: readBulkString_def makeslice_ok_def maxAlloc_def)
  let ?s = "''*1'' @ CRLF @ ''$'' @ FormatInt n @ CRLF @ rest"
  have "readElems (Suc (Suc f)) 1 (''$'' @ FormatInt n @ CRLF @ rest) = ReadPanic" for f
    using bulk by simp
  then have "readValue (Suc (Suc (Suc f))) ?s = ReadPanic" for f
    unfolding one by (simp add: readArray_count makeslice_ok_def maxAlloc_def sizeofResponse_def
        del: of_nat_1 One_nat_def)
  then have "readValue (Suc (Suc (Suc 0))) ?s = ReadPanic" .
  then have "ReadValue ?s = ReadPanic"
    using readValue_eq_ReadValue [of "Suc (Suc (Suc 0))" ?s] by simp
  then show ?thesis by (simp add: ReadCommand_def)
qed

theorem oversized_bulk_panics_witness:
  "ReadCommand (''*1'' @ CRLF @ ''$'' @ FormatInt 9223372036854775807 @ CRLF @ []) = ReadPanic"
  by (rule oversized_bulk_panics) (simp_all add: in64_bounds maxAlloc_def)

end
