(* ===== verification/Aof.thy ===== *)
theory Aof
  imports Parser
begin

text \<open>
  The append-only file, \<^verbatim>\<open>internal/persistence/aof.go\<close>.

  \<open>contents\<close> is what has reached the operating system (\<^verbatim>\<open>Append\<close> and \<^verbatim>\<open>Close\<close> flush the
  \<^verbatim>\<open>bufio.Writer\<close> before they return, so nothing stays in its buffer between two calls) and
  \<open>synced\<close> is the length of the prefix that the last \<^verbatim>\<open>fsync\<close> made durable.  A crash of the machine
  leaves any prefix of \<open>contents\<close> that is at least as long as \<open>synced\<close>.  Write errors of the file system,
  whose results the router drops, are not modelled.
\<close>

datatype SyncPolicy = SyncAlways | SyncEverySec | SyncNo

record AOF =
  contents :: string
  synced :: nat
  policy :: SyncPolicy
  closed :: bool

text \<open>\<^verbatim>\<open>Open\<close> keeps what the file holds and does not sync it.\<close>

definition Open :: "string \<Rightarrow> SyncPolicy \<Rightarrow> AOF" where
  "Open file pol = \<lparr>contents = file, synced = 0, policy = pol, closed = False\<rparr>"

definition fsync :: "AOF \<Rightarrow> AOF" where
  "fsync a = a\<lparr>synced := length (contents a)\<rparr>"

definition Append :: "string list \<Rightarrow> AOF \<Rightarrow> AOF" where
  "Append args a =
     (let a = a\<lparr>contents := contents a @ Encode args\<rparr>
      in if policy a = SyncAlways then fsync a else a)"

definition Close :: "AOF \<Rightarrow> AOF" where
  "Close a = (fsync a)\<lparr>closed := True\<rparr>"

text \<open>One turn of the background loop, which runs under the \<^verbatim>\<open>everysec\<close> policy until \<^verbatim>\<open>Close\<close>.\<close>

definition syncTick :: "AOF \<Rightarrow> AOF" where
  "syncTick a = (if policy a = SyncEverySec \<and> \<not> closed a then fsync a else a)"

definition crashImage :: "AOF \<Rightarrow> string \<Rightarrow> bool" where
  "crashImage a file \<longleftrightarrow> (\<exists>n \<ge> synced a. file = take n (contents a))"

definition AppendAll :: "string list list \<Rightarrow> AOF \<Rightarrow> AOF" where
  "AppendAll recs a = fold Append recs a"

lemma contents_Append [simp]: "contents (Append args a) = contents a @ Encode args"
  by (simp add: Append_def fsync_def Let_def)

lemma policy_Append [simp]: "policy (Append args a) = policy a"
  by (simp add: Append_def fsync_def Let_def)

lemma AppendAll_simps [simp]:
  "AppendAll [] a = a" "AppendAll (r # rs) a = AppendAll rs (Append r a)"
  "AppendAll (rs @ rs') a = AppendAll rs' (AppendAll rs a)"
  by (simp_all add: AppendAll_def)

lemma policy_AppendAll [simp]: "policy (AppendAll recs a) = policy a"
  by (induction recs arbitrary: a) simp_all

lemma contents_AppendAll: "contents (AppendAll recs a) = contents a @ concat (map Encode recs)"
  by (induction recs arbitrary: a) simp_all

lemma synced_Append_always:
  "policy a = SyncAlways \<Longrightarrow> synced (Append args a) = length (contents (Append args a))"
  by (simp add: Append_def fsync_def Let_def)

lemma crashImage_always:
  "synced a = length (contents a) \<Longrightarrow> crashImage a file \<longleftrightarrow> file = contents a"
  by (auto simp: crashImage_def)

end
