(* ===== verification/Router.thy ===== *)
theory Router
  imports CmdHash CmdServer Aof
begin

text \<open>
  The command registry and the dispatcher, \<^verbatim>\<open>internal/commands/router.go\<close> and
  \<^verbatim>\<open>internal/commands/pubsub.go\<close>.

  \<^verbatim>\<open>Publisher\<close> is an interface of the source, so the publisher is a parameter: a function on the
  state \<open>'b\<close> of the broker that gives the number of receivers; \<open>None\<close> is a nil publisher.
\<close>

type_synonym 'b publisher = "string \<Rightarrow> string \<Rightarrow> 'b \<Rightarrow> 'b \<times> int"

record 'b Router =
  rstore :: MemoryStore
  raof :: "AOF option"
  rpub :: 'b

text \<open>\<^verbatim>\<open>handlers\<close> is a field of the source that \<^verbatim>\<open>register\<close> fills and nothing changes: the function \<open>handlers\<close> below.\<close>

definition NewRouter :: "MemoryStore \<Rightarrow> AOF option \<Rightarrow> 'b \<Rightarrow> 'b Router" where
  "NewRouter store aof pub = \<lparr>rstore = store, raof = aof, rpub = pub\<rparr>"

section \<open>Handlers\<close>

type_synonym 'b HandlerFunc =
  "Env \<Rightarrow> string list \<Rightarrow> MemoryStore \<times> 'b \<Rightarrow> ((MemoryStore \<times> 'b) \<times> Response) go"

definition onStore :: "handler \<Rightarrow> 'b HandlerFunc" where
  "onStore h env args st = map_go (\<lambda>(s, r). ((s, snd st), r)) (h env args (fst st))"

definition makePublishHandler :: "'b publisher option \<Rightarrow> 'b HandlerFunc" where
  "makePublishHandler pub env args st =
     (if length args \<noteq> 3 then Ret (st, wrongArgs ''publish'')
      else
        case pub of
          None \<Rightarrow> Ret (st, Integer 0)
        | Some publish \<Rightarrow>
            let (b, n) = publish (args ! 1) (args ! 2) (snd st) in Ret ((fst st, b), Integer n))"

definition storeHandlers :: "(string \<times> handler) list" where
  "storeHandlers =
    [(''PING'', handlePing), (''COMMAND'', handleCommand),
     (''SET'', handleSet), (''GET'', handleGet), (''GETEX'', handleGetEX), (''DEL'', handleDel),
     (''EXISTS'', handleExists), (''KEYS'', handleKeys), (''SETNX'', handleSetNX), (''SETEX'', handleSetEX),
     (''PSETEX'', handlePSetEX), (''MSET'', handleMSet), (''MGET'', handleMGet), (''GETSET'', handleGetSet),
     (''GETDEL'', handleGetDel), (''APPEND'', handleAppend), (''STRLEN'', handleStrLen),
     (''EXPIRE'', handleExpire), (''PEXPIRE'', handlePExpire), (''EXPIREAT'', handleExpireAt),
     (''PEXPIREAT'', handlePExpireAt), (''TTL'', handleTTL), (''PTTL'', handlePTTL), (''PERSIST'', handlePersist),
     (''INCR'', handleIncr), (''INCRBY'', handleIncrBy), (''INCRBYFLOAT'', handleIncrByFloat),
     (''DECR'', handleDecr), (''DECRBY'', handleDecrBy),
     (''HSET'', handleHSet), (''HMSET'', handleHSet), (''HGET'', handleHGet), (''HDEL'', handleHDel),
     (''HGETALL'', handleHGetAll), (''HMGET'', handleHMGet), (''HLEN'', handleHLen), (''HEXISTS'', handleHExists),
     (''HKEYS'', handleHKeys), (''HVALS'', handleHVals), (''HINCRBY'', handleHIncrBy),
     (''HINCRBYFLOAT'', handleHIncrByFloat),
     (''LPUSH'', handleLPush), (''RPUSH'', handleRPush), (''LPUSHX'', handleLPushX), (''RPUSHX'', handleRPushX),
     (''LPOP'', handleLPop), (''RPOP'', handleRPop), (''LLEN'', handleLLen), (''LRANGE'', handleLRange),
     (''LINDEX'', handleLIndex), (''LSET'', handleLSet), (''LINSERT'', handleLInsert), (''LREM'', handleLRem),
     (''LTRIM'', handleLTrim), (''LMOVE'', handleLMove), (''RPOPLPUSH'', handleRPopLPush), (''LPOS'', handleLPos),
     (''SADD'', handleSAdd), (''SREM'', handleSRem), (''SMEMBERS'', handleSMembers), (''SCARD'', handleSCard),
     (''SISMEMBER'', handleSIsMember), (''SMISMEMBER'', handleSMIsMember), (''SINTER'', handleSInter),
     (''SUNION'', handleSUnion), (''SDIFF'', handleSDiff), (''SINTERSTORE'', handleSInterStore),
     (''SUNIONSTORE'', handleSUnionStore), (''SDIFFSTORE'', handleSDiffStore),
     (''SRANDMEMBER'', handleSRandMember), (''SPOP'', handleSPop), (''SMOVE'', handleSMove),
     (''ZADD'', handleZAdd), (''ZREM'', handleZRem), (''ZSCORE'', handleZScore), (''ZCARD'', handleZCard),
     (''ZRANK'', handleZRank), (''ZREVRANK'', handleZRevRank), (''ZINCRBY'', handleZIncrBy),
     (''ZRANGE'', handleZRange), (''ZREVRANGE'', handleZRevRange), (''ZRANGEBYSCORE'', handleZRangeByScore),
     (''ZREVRANGEBYSCORE'', handleZRevRangeByScore), (''ZRANGEBYLEX'', handleZRangeByLex),
     (''ZREVRANGEBYLEX'', handleZRevRangeByLex), (''ZCOUNT'', handleZCount), (''ZLEXCOUNT'', handleZLexCount),
     (''ZPOPMIN'', handleZPopMin), (''ZPOPMAX'', handleZPopMax), (''ZUNIONSTORE'', handleZUnionStore),
     (''ZINTERSTORE'', handleZInterStore),
     (''SCAN'', handleScan), (''HSCAN'', handleHScan), (''SSCAN'', handleSScan), (''ZSCAN'', handleZScan),
     (''INFO'', handleInfo), (''DBSIZE'', handleDBSize), (''TYPE'', handleType), (''RENAME'', handleRename),
     (''FLUSHDB'', handleFlushDB), (''FLUSHALL'', handleFlushAll), (''SELECT'', handleSelect),
     (''OBJECT'', handleObject), (''CLIENT'', handleClient)]"

text \<open>\<^verbatim>\<open>r.handlers\<close> after \<^verbatim>\<open>register\<close>.\<close>

definition handlers :: "'b publisher option \<Rightarrow> string \<Rightarrow> 'b HandlerFunc option" where
  "handlers pub name =
     (if name = ''PUBLISH'' then Some (makePublishHandler pub)
      else map_option onStore (map_of storeHandlers name))"

section \<open>The records of a command\<close>

definition verbatimNames :: "string list" where
  "verbatimNames =
     [''SET'', ''DEL'', ''MSET'', ''HSET'', ''HMSET'', ''HDEL'', ''FLUSHDB'', ''FLUSHALL'', ''PERSIST'', ''APPEND'',
      ''LPUSH'', ''RPUSH'', ''LPUSHX'', ''RPUSHX'', ''LSET'', ''LINSERT'', ''LTRIM'', ''SADD'', ''SREM'',
      ''SINTERSTORE'', ''SUNIONSTORE'', ''SDIFFSTORE'', ''SMOVE'', ''ZADD'', ''ZREM'', ''ZINCRBY'',
      ''ZUNIONSTORE'', ''ZINTERSTORE'']"

definition pexpireat :: "string \<Rightarrow> int \<Rightarrow> string list" where
  "pexpireat key absMs = [''PEXPIREAT'', key, FormatInt absMs]"

text \<open>\<^verbatim>\<open>time.Now().UnixMilli() + n*unit\<close>, both operations on \<^verbatim>\<open>int64\<close>.\<close>

definition absMillis :: "gotime \<Rightarrow> int \<Rightarrow> int \<Rightarrow> int" where
  "absMillis now n unit = wrap64 (unixMilli now + wrap64 (n * unit))"

definition setThenExpire :: "gotime \<Rightarrow> string list \<Rightarrow> int \<Rightarrow> string list list" where
  "setThenExpire now args unit =
     (if length args = 4 then
        [''SET'', args ! 1, args ! 3] #
        (case ParseInt (args ! 2) of None \<Rightarrow> [] | Some n \<Rightarrow> [pexpireat (args ! 1) (absMillis now n unit)])
      else [])"

definition expireRecord :: "gotime \<Rightarrow> string list \<Rightarrow> Response \<Rightarrow> int \<Rightarrow> string list list" where
  "expireRecord now args resp unit =
     (if respInteger resp = 1 \<and> length args = 3 then
        (case ParseInt (args ! 2) of None \<Rightarrow> [] | Some n \<Rightarrow> [pexpireat (args ! 1) (absMillis now n unit)])
      else [])"

definition renameRecords :: "gotime \<Rightarrow> string list \<Rightarrow> MemoryStore \<Rightarrow> string list list" where
  "renameRecords now args s =
     (if length args = 3 \<and> args ! 1 \<noteq> args ! 2 then
        (let dst = args ! 2; t = Type now dst s
         in (if t = ''string'' then
               (case Get now dst s of None \<Rightarrow> [] | Some v \<Rightarrow> [[''SET'', dst, v]])
             else if t = ''hash'' then
               (let al = HGetAll now dst s
                in if al = [] then [] else [[''HSET'', dst] @ concat (map (\<lambda>(f, v). [f, v]) al)])
             else []) @
            [[''DEL'', args ! 1]])
      else [])"

definition appendToAOF :: "gotime \<Rightarrow> string \<Rightarrow> string list \<Rightarrow> Response \<Rightarrow> MemoryStore \<Rightarrow> string list list" where
  "appendToAOF now name args resp s =
     (if name \<in> set verbatimNames then [args]
      else if name = ''SETNX'' then (if respInteger resp = 1 then [[''SET'', args ! 1, args ! 2]] else [])
      else if name = ''GETSET'' then [[''SET'', args ! 1, args ! 2]]
      else if name = ''GETDEL'' then (if resp \<noteq> NullBulkString then [[''DEL'', args ! 1]] else [])
      else if name = ''LPOP'' \<or> name = ''RPOP'' then
        (if resp \<noteq> NullBulkString \<and> resp \<noteq> NullArray then [args] else [])
      else if name = ''LMOVE'' \<or> name = ''RPOPLPUSH'' then (if resp \<noteq> NullBulkString then [args] else [])
      else if name = ''LREM'' then (if 0 < respInteger resp then [args] else [])
      else if name = ''SPOP'' then (if resp \<noteq> NullBulkString then [args] else [])
      else if name = ''ZPOPMIN'' \<or> name = ''ZPOPMAX'' then (if respArray resp \<noteq> [] then [args] else [])
      else if name = ''SETEX'' then setThenExpire now args 1000
      else if name = ''PSETEX'' then setThenExpire now args 1
      else if name = ''EXPIRE'' then expireRecord now args resp 1000
      else if name = ''PEXPIRE'' then expireRecord now args resp 1
      else if name = ''EXPIREAT'' then
        (if respInteger resp = 1 \<and> length args = 3 then
           (case ParseInt (args ! 2) of
              None \<Rightarrow> []
            | Some secs \<Rightarrow> [pexpireat (args ! 1) (wrap64 (secs * 1000))])
         else [])
      else if name = ''PEXPIREAT'' then (if respInteger resp = 1 \<and> length args = 3 then [args] else [])
      else if name \<in> {''INCR'', ''INCRBY'', ''DECR'', ''DECRBY''} then
        [[''SET'', args ! 1, FormatInt (respInteger resp)]]
      else if name = ''INCRBYFLOAT'' then [[''SET'', args ! 1, respStr resp]]
      else if name = ''HINCRBY'' then
        (if length args = 4 then [[''HSET'', args ! 1, args ! 2, FormatInt (respInteger resp)]] else [])
      else if name = ''HINCRBYFLOAT'' then
        (if length args = 4 then [[''HSET'', args ! 1, args ! 2, respStr resp]] else [])
      else if name = ''RENAME'' then renameRecords now args s
      else [])"

section \<open>Dispatch\<close>

definition KeyVersion :: "'b Router \<Rightarrow> string \<Rightarrow> 64 word" where
  "KeyVersion r key = Version key (rstore r)"

definition unknownCommand :: "string \<Rightarrow> Response" where
  "unknownCommand name = Error (''ERR unknown command '' @ quoted name)"

definition Dispatch :: "'b publisher option \<Rightarrow> Env \<Rightarrow> string list \<Rightarrow> 'b Router \<Rightarrow> ('b Router \<times> Response) go" where
  "Dispatch pub env args r =
     (if args = [] then Ret (r, Error ''ERR empty command'')
      else
        let name = toUpper (args ! 0)
        in case handlers pub name of
             None \<Rightarrow> Ret (r, unknownCommand (args ! 0))
           | Some fn \<Rightarrow>
               case fn env args (rstore r, rpub r) of
                 Panic \<Rightarrow> Panic
               | Ret ((s, b), resp) \<Rightarrow>
                   let recs = (if isError resp then [] else appendToAOF (clock env) name args resp s)
                   in Ret (r\<lparr>rstore := s, rpub := b, raof := map_option (AppendAll recs) (raof r)\<rparr>, resp))"

section \<open>The contracts of the registry\<close>

lemmas guarded_readonly = readonly_intros [THEN readonly_guarded]

lemma guardedD: "guarded h \<Longrightarrow> h env args s = Ret (s', Error m) \<Longrightarrow> s' = s"
  unfolding guarded_def errKeeps_def by blast

lemma readonlyD: "readonly h \<Longrightarrow> h env args s = Ret (s', x) \<Longrightarrow> s' = s"
  unfolding readonly_def keeps_def by blast

lemma panicFreeD: "panicFree h \<Longrightarrow> returns (h env args s)"
  by (simp add: panicFree_def)

lemma all_guarded: "list_all (\<lambda>(n, h). guarded h) storeHandlers"
  by (simp add: storeHandlers_def guarded_intros guarded_readonly)

lemma handler_guarded: "map_of storeHandlers name = Some h \<Longrightarrow> guarded h"
  using all_guarded by (auto simp: list_all_iff dest: map_of_SomeD)

text \<open>The commands that only read, and the ones that can panic.\<close>

definition readNames :: "string list" where
  "readNames =
     [''PING'', ''COMMAND'', ''GET'', ''EXISTS'', ''KEYS'', ''MGET'', ''STRLEN'', ''TTL'', ''PTTL'', ''HGET'', ''HGETALL'',
      ''HMGET'', ''HLEN'', ''HEXISTS'', ''HKEYS'', ''HVALS'', ''LLEN'', ''LRANGE'', ''LINDEX'', ''LPOS'', ''SMEMBERS'',
      ''SCARD'', ''SISMEMBER'', ''SMISMEMBER'', ''SINTER'', ''SUNION'', ''SDIFF'', ''SRANDMEMBER'', ''ZSCORE'', ''ZCARD'',
      ''ZRANK'', ''ZREVRANK'', ''ZRANGE'', ''ZREVRANGE'', ''ZRANGEBYSCORE'', ''ZREVRANGEBYSCORE'', ''ZRANGEBYLEX'',
      ''ZREVRANGEBYLEX'', ''ZCOUNT'', ''ZLEXCOUNT'', ''SCAN'', ''HSCAN'', ''SSCAN'', ''ZSCAN'', ''INFO'', ''DBSIZE'',
      ''TYPE'', ''SELECT'', ''OBJECT'', ''CLIENT'']"

definition panicNames :: "string list" where
  "panicNames = [''ZCARD'', ''SRANDMEMBER'', ''ZUNIONSTORE'', ''ZINTERSTORE'']"

lemma all_readonly: "list_all (\<lambda>(n, h). n \<in> set readNames \<longrightarrow> readonly h) storeHandlers"
  by (simp add: storeHandlers_def readNames_def readonly_intros)

lemma all_panicFree: "list_all (\<lambda>(n, h). n \<notin> set panicNames \<longrightarrow> panicFree h) storeHandlers"
  by (simp add: storeHandlers_def panicNames_def panic_intros)

lemma handler_readonly:
  "map_of storeHandlers name = Some h \<Longrightarrow> name \<in> set readNames \<Longrightarrow> readonly h"
  using all_readonly by (auto simp: list_all_iff dest: map_of_SomeD)

lemma handler_panicFree:
  "map_of storeHandlers name = Some h \<Longrightarrow> name \<notin> set panicNames \<Longrightarrow> panicFree h"
  using all_panicFree by (auto simp: list_all_iff dest: map_of_SomeD)

section \<open>Dispatch\<close>

lemma onStore_Ret:
  "onStore h env args st = Ret (st', resp) \<longleftrightarrow>
     (\<exists>s'. h env args (fst st) = Ret (s', resp) \<and> st' = (s', snd st))"
  by (cases "h env args (fst st)") (auto simp: onStore_def split: prod.splits)

lemma returns_onStore [simp]: "returns (onStore h env args st) \<longleftrightarrow> returns (h env args (fst st))"
  by (simp add: onStore_def)

lemma handlers_cases:
  assumes "handlers pub name = Some fn"
  obtains "name = ''PUBLISH''" "fn = makePublishHandler pub"
  | h where "name \<noteq> ''PUBLISH''" "map_of storeHandlers name = Some h" "fn = onStore h"
  using assms by (auto simp: handlers_def split: if_splits)

lemma Dispatch_cases:
  assumes "Dispatch pub env args r = Ret (r', resp)"
  obtains (refused) "r' = r" "isError resp"
  | (ran) fn s b recs where
      "args \<noteq> []" "handlers pub (toUpper (args ! 0)) = Some fn" "fn env args (rstore r, rpub r) = Ret ((s, b), resp)"
      "recs = (if isError resp then [] else appendToAOF (clock env) (toUpper (args ! 0)) args resp s)"
      "r' = r\<lparr>rstore := s, rpub := b, raof := map_option (AppendAll recs) (raof r)\<rparr>"
  using assms
  by (auto simp: Dispatch_def Let_def unknownCommand_def split: if_splits option.splits go.splits prod.splits)

lemma map_option_AppendAll_Nil [simp]: "map_option (AppendAll []) a = a"
  by (cases a) simp_all

lemma publish_store: "makePublishHandler pub env args st = Ret (st', resp) \<Longrightarrow> fst st' = fst st"
  by (auto simp: makePublishHandler_def Let_def split: if_splits option.splits prod.splits)

lemma publish_error: "makePublishHandler pub env args st = Ret (st', Error m) \<Longrightarrow> st' = st"
  by (auto simp: makePublishHandler_def Let_def split: if_splits option.splits prod.splits)

lemma Dispatch_error:
  assumes "Dispatch pub env args r = Ret (r', Error m)"
  shows "r' = r"
  using assms
proof (cases rule: Dispatch_cases)
  case (ran fn s b recs)
  from ran(2) have "(s, b) = (rstore r, rpub r)"
  proof (cases rule: handlers_cases)
    case 1
    then show ?thesis using ran(3) publish_error by metis
  next
    case (2 h)
    then have "guarded h" using handler_guarded by blast
    with 2 ran(3) show ?thesis by (auto simp: onStore_Ret dest: guardedD)
  qed
  with ran(4,5) show ?thesis by simp
qed

lemma all_unlogged: "list_all (\<lambda>name. appendToAOF now name args resp s = []) readNames"
  by (simp add: readNames_def appendToAOF_def verbatimNames_def)

lemma readNames_unlogged: "name \<in> set readNames \<Longrightarrow> appendToAOF now name args resp s = []"
  using all_unlogged by (simp add: list_all_iff)

lemma readNames_not_publish: "''PUBLISH'' \<notin> set readNames"
  by (simp add: readNames_def)

lemma Dispatch_readonly:
  assumes "Dispatch pub env args r = Ret (r', resp)" and "toUpper (args ! 0) \<in> set readNames"
  shows "r' = r"
  using assms(1)
proof (cases rule: Dispatch_cases)
  case (ran fn s b recs)
  from ran(2) show ?thesis
  proof (cases rule: handlers_cases)
    case 1
    then show ?thesis using assms(2) readNames_not_publish by metis
  next
    case (2 h)
    then have "readonly h" using handler_readonly assms(2) by blast
    then have "s = rstore r" "b = rpub r" using 2 ran(3) by (auto simp: onStore_Ret dest: readonlyD)
    moreover have "recs = []" using ran(4) readNames_unlogged [OF assms(2)] by simp
    ultimately show ?thesis using ran(5) by simp
  qed
qed

lemma Dispatch_returns:
  assumes "args = [] \<or> toUpper (args ! 0) \<notin> set panicNames"
  shows "returns (Dispatch pub env args r)"
proof (cases "handlers pub (toUpper (args ! 0))")
  case None
  then show ?thesis by (simp add: Dispatch_def Let_def)
next
  case (Some fn)
  then have "returns (fn env args (rstore r, rpub r))" if "args \<noteq> []"
  proof (cases rule: handlers_cases)
    case 1
    then show ?thesis by (simp add: makePublishHandler_def Let_def split: option.split prod.split)
  next
    case (2 h)
    have "panicFree h" using handler_panicFree [OF 2(2)] assms that by blast
    with 2 show ?thesis by (simp add: panicFreeD)
  qed
  then show ?thesis using Some
    by (cases "fn env args (rstore r, rpub r)") (auto simp: Dispatch_def Let_def split: prod.split)
qed

end
