(* ===== verification/RouterProps.thy ===== *)
theory RouterProps
  imports Router
begin

text \<open>
  Properties of the dispatcher as a whole: they hold for every command of the registry.
\<close>

section \<open>Properties of the dispatcher\<close>

text \<open>A concrete router, at which the properties are instantiated.\<close>

definition demoRouter :: "unit Router" where
  "demoRouter =
     \<lparr>rstore = Set ''k'' ''abc'' NewMemoryStore, raof = Some (Open [] SyncAlways), rpub = ()\<rparr>"

text \<open>
  C17. A command that is answered with an error has had no effect: the store, the broker and the
  append-only file are what they were, for every command of the registry and every argument list.
\<close>

theorem failed_command_no_effect:
  assumes "Dispatch pub env args r = Ret (r', Error m)"
  shows "r' = r"
  using assms by (rule Dispatch_error)

theorem failed_command_no_effect_witness:
  "Dispatch None demoEnv [''incr'', ''k''] demoRouter
     = Ret (demoRouter, Error ''ERR value is not an integer or out of range'')"
proof -
  have "\<exists>r'. Dispatch None demoEnv [''incr'', ''k''] demoRouter
      = Ret (r', Error ''ERR value is not an integer or out of range'')"
    by (intro exI) code_simp
  then show ?thesis using failed_command_no_effect by blast
qed

text \<open>
  C25. The fifty commands that only read change nothing and log nothing, whatever their arguments
  and whatever they answer.
\<close>

theorem read_commands_no_effect:
  assumes "Dispatch pub env args r = Ret (r', resp)" and "toUpper (args ! 0) \<in> set readNames"
  shows "r' = r"
  using assms by (rule Dispatch_readonly)

theorem read_commands_no_effect_witness:
  "Dispatch None demoEnv [''get'', ''k''] demoRouter = Ret (demoRouter, BulkString ''abc'')"
proof -
  have "\<exists>r'. Dispatch None demoEnv [''get'', ''k''] demoRouter = Ret (r', BulkString ''abc'')"
    by (intro exI) code_simp
  moreover have "toUpper ([''get'', ''k''] ! 0) \<in> set readNames" by code_simp
  ultimately show ?thesis using read_commands_no_effect by blast
qed



text \<open>
  C33. \<^verbatim>\<open>ZCARD\<close> on a key that is missing or has expired dereferences a nil sorted set; nothing recovers
  from the panic, so one such request ends the server.
\<close>

theorem zcard_missing_key_panics:
  assumes "typeOf (clock env) key (rstore r) = NoKey"
  shows "Dispatch pub env [''ZCARD'', key] r = Panic"
proof -
  have "map_of storeHandlers ''ZCARD'' = Some handleZCard" by (simp add: storeHandlers_def)
  moreover have "toUpper ''ZCARD'' = ''ZCARD''" by code_simp
  ultimately show ?thesis using assms
    by (simp add: Dispatch_def handlers_def onStore_def handleZCard_def ZCard_def getZSet_def)
qed

theorem zcard_missing_key_panics_witness: "Dispatch None demoEnv [''ZCARD'', ''z''] demoRouter = Panic"
  by (rule zcard_missing_key_panics) code_simp

text \<open>
  C34. \<^verbatim>\<open>ZUNIONSTORE\<close> with a key count among the last three 64-bit integers passes the length test,
  because \<^verbatim>\<open>3+numkeys\<close> wraps around, and panics on the slice of the keys.
\<close>

theorem zunionstore_numkeys_overflow:
  assumes "maxInt64 - 3 < n" and "n \<le> maxInt64"
  shows "Dispatch pub env ([''ZUNIONSTORE'', dst, FormatInt n, key] @ rest) r = Panic"
proof -
  have "map_of storeHandlers ''ZUNIONSTORE'' = Some handleZUnionStore" by (simp add: storeHandlers_def)
  moreover have "toUpper ''ZUNIONSTORE'' = ''ZUNIONSTORE''" by code_simp
  moreover have "ParseInt (FormatInt n) = Some n"
    using assms by (simp add: in64_def minInt64_def maxInt64_def)
  moreover have "wrap64 (3 + n) < 0"
  proof -
    have "9223372036854775804 < n" "n \<le> 9223372036854775807" using assms by (simp_all add: maxInt64_def)
    then have "n = 9223372036854775805 \<or> n = 9223372036854775806 \<or> n = 9223372036854775807"
      by presburger
    then show ?thesis by (auto simp: wrap64_def)
  qed
  moreover have "\<not> n < 1" using assms(1) by (simp add: maxInt64_def)
  ultimately show ?thesis
    by (simp add: Dispatch_def handlers_def onStore_def handleZUnionStore_def handleZSetStore_def Let_def)
qed

theorem zunionstore_numkeys_overflow_witness:
  "Dispatch None demoEnv [''ZUNIONSTORE'', ''d'', FormatInt maxInt64, ''z''] demoRouter = Panic"
  using zunionstore_numkeys_overflow [of maxInt64 None demoEnv "''d''" "''z''" "[]" demoRouter] by simp

end
