(* ===== verification/Server.thy ===== *)
theory Server
  imports GoPrelude
begin

text \<open>
  The TCP server, \<^verbatim>\<open>internal/server/server.go\<close>: the accept loop with its client limit, the tracking of
  connections, the goroutine of each connection and the shutdown sequence.

  Several goroutines share the server: the accept loop (\<open>acceptor\<close>), one goroutine per connection
  (\<open>workers\<close>) and the one that waits for the context (\<open>closer\<close>).  A step is one atomic action of one of
  them: a call that takes the mutex or an atomic operation.  Connections are numbers, given out in the
  order in which they are accepted (a transient error of \<^verbatim>\<open>Accept\<close> changes nothing and is no step); \<open>shut\<close> are the ones whose socket the server has closed.  What
  \<^verbatim>\<open>serve\<close> does on a connection is the subject of the theory of the connection handler; here only that it
  returns when its socket is closed or its peer hangs up.
\<close>

section \<open>State\<close>

datatype acceptPc =
    Accepting
  | Accepted nat
  | Admitted nat
  | Tracked nat
  | Counted nat
  | Added nat
  | Waiting
  | Stopped

datatype workerPc = NotStarted | Serving | Returned | Untracked | Uncounted | Finished

datatype closerPc = BeforeCancel | Cancelled | ListenerClosed | AllClosed

record Server =
  MaxClients :: int
  listening :: bool
  acceptor :: acceptPc
  nextConn :: nat
  connCount :: int
  wg :: int
  conns :: "nat set"
  shut :: "nat set"
  workers :: "nat \<Rightarrow> workerPc"
  closer :: closerPc

definition New :: "int \<Rightarrow> Server" where
  "New maxClients =
     \<lparr>MaxClients = maxClients, listening = True, acceptor = Accepting, nextConn = 0, connCount = 0, wg = 0,
      conns = {}, shut = {}, workers = (\<lambda>_. NotStarted), closer = BeforeCancel\<rparr>"

section \<open>Operations\<close>

definition full :: "Server \<Rightarrow> bool" where
  "full s \<longleftrightarrow> 0 < MaxClients s \<and> MaxClients s \<le> connCount s"

definition trackConn :: "nat \<Rightarrow> Server \<Rightarrow> Server" where
  "trackConn c s = s\<lparr>conns := insert c (conns s)\<rparr>"

definition untrackConn :: "nat \<Rightarrow> Server \<Rightarrow> Server" where
  "untrackConn c s = s\<lparr>conns := conns s - {c}\<rparr>"

definition closeAllConns :: "Server \<Rightarrow> Server" where
  "closeAllConns s = s\<lparr>shut := shut s \<union> conns s\<rparr>"

definition setWorker :: "nat \<Rightarrow> workerPc \<Rightarrow> Server \<Rightarrow> Server" where
  "setWorker c p s = s\<lparr>workers := (workers s)(c := p)\<rparr>"

section \<open>Steps\<close>

text \<open>What the outside does: a client connects, a peer hangs up, the context is cancelled.\<close>

inductive outside :: "Server \<Rightarrow> Server \<Rightarrow> bool" where
  client: "acceptor s = Accepting \<Longrightarrow> listening s \<Longrightarrow>
    outside s (s\<lparr>acceptor := Accepted (nextConn s), nextConn := nextConn s + 1\<rparr>)"
| hangup: "workers s c = Serving \<Longrightarrow> outside s (setWorker c Returned (s\<lparr>shut := insert c (shut s)\<rparr>))"
| cancel: "closer s = BeforeCancel \<Longrightarrow> outside s (s\<lparr>closer := Cancelled\<rparr>)"

text \<open>
  What the server does by itself.  The accept loop (\<^verbatim>\<open>acceptLoop\<close> and the end of \<^verbatim>\<open>Serve\<close>), the deferred
  calls of a connection's goroutine in their order, and the shutdown goroutine of \<^verbatim>\<open>Serve\<close>.
\<close>

inductive acceptLoop :: "Server \<Rightarrow> Server \<Rightarrow> bool" where
  closed: "acceptor s = Accepting \<Longrightarrow> \<not> listening s \<Longrightarrow> acceptLoop s (s\<lparr>acceptor := Waiting\<rparr>)"
| reject: "acceptor s = Accepted c \<Longrightarrow> full s \<Longrightarrow> acceptLoop s (s\<lparr>shut := insert c (shut s), acceptor := Accepting\<rparr>)"
| admit: "acceptor s = Accepted c \<Longrightarrow> \<not> full s \<Longrightarrow> acceptLoop s (s\<lparr>acceptor := Admitted c\<rparr>)"
| track: "acceptor s = Admitted c \<Longrightarrow> acceptLoop s (trackConn c (s\<lparr>acceptor := Tracked c\<rparr>))"
| count: "acceptor s = Tracked c \<Longrightarrow> acceptLoop s (s\<lparr>connCount := connCount s + 1, acceptor := Counted c\<rparr>)"
| add: "acceptor s = Counted c \<Longrightarrow> acceptLoop s (s\<lparr>wg := wg s + 1, acceptor := Added c\<rparr>)"
| spawn: "acceptor s = Added c \<Longrightarrow> acceptLoop s (setWorker c Serving (s\<lparr>acceptor := Accepting\<rparr>))"
| stop: "acceptor s = Waiting \<Longrightarrow> wg s = 0 \<Longrightarrow> acceptLoop s (s\<lparr>acceptor := Stopped\<rparr>)"

inductive workerStep :: "Server \<Rightarrow> Server \<Rightarrow> bool" where
  kicked: "workers s c = Serving \<Longrightarrow> c \<in> shut s \<Longrightarrow> workerStep s (setWorker c Returned s)"
| untrack: "workers s c = Returned \<Longrightarrow> workerStep s (setWorker c Untracked (untrackConn c s))"
| uncount: "workers s c = Untracked \<Longrightarrow> workerStep s (setWorker c Uncounted (s\<lparr>connCount := connCount s - 1\<rparr>))"
| finish: "workers s c = Uncounted \<Longrightarrow> workerStep s (setWorker c Finished (s\<lparr>wg := wg s - 1\<rparr>))"

inductive closerStep :: "Server \<Rightarrow> Server \<Rightarrow> bool" where
  close_listener: "closer s = Cancelled \<Longrightarrow> closerStep s (s\<lparr>listening := False, closer := ListenerClosed\<rparr>)"
| close_conns: "closer s = ListenerClosed \<Longrightarrow> closerStep s (closeAllConns (s\<lparr>closer := AllClosed\<rparr>))"

definition inside :: "Server \<Rightarrow> Server \<Rightarrow> bool" where
  "inside s s' \<longleftrightarrow> acceptLoop s s' \<or> workerStep s s' \<or> closerStep s s'"

inductive Serve :: "int \<Rightarrow> Server \<Rightarrow> bool" for m where
  start: "Serve m (New m)"
| outer: "Serve m s \<Longrightarrow> outside s s' \<Longrightarrow> Serve m s'"
| inner: "Serve m s \<Longrightarrow> inside s s' \<Longrightarrow> Serve m s'"

lemmas server_defs = trackConn_def untrackConn_def closeAllConns_def setWorker_def

inductive_cases acceptLoopE: "acceptLoop s s'"
inductive_cases workerStepE: "workerStep s s'"
inductive_cases closerStepE: "closerStep s s'"

section \<open>Counting\<close>

definition counted :: "Server \<Rightarrow> nat set" where
  "counted s = {c. workers s c = Serving \<or> workers s c = Returned \<or> workers s c = Untracked}"

definition waited :: "Server \<Rightarrow> nat set" where
  "waited s = {c. workers s c \<noteq> NotStarted \<and> workers s c \<noteq> Finished}"

text \<open>The connection the accept loop has in hand, and how far it has counted it.\<close>

fun inHand :: "acceptPc \<Rightarrow> nat option" where
  "inHand (Accepted c) = Some c"
| "inHand (Admitted c) = Some c"
| "inHand (Tracked c) = Some c"
| "inHand (Counted c) = Some c"
| "inHand (Added c) = Some c"
| "inHand _ = None"

fun handCount :: "acceptPc \<Rightarrow> int" where
  "handCount (Counted c) = 1"
| "handCount (Added c) = 1"
| "handCount _ = 0"

fun handWait :: "acceptPc \<Rightarrow> int" where
  "handWait (Added c) = 1"
| "handWait _ = 0"

fun handClaim :: "acceptPc \<Rightarrow> int" where
  "handClaim (Admitted c) = 1"
| "handClaim (Tracked c) = 1"
| "handClaim _ = 0"

definition serverInv :: "int \<Rightarrow> Server \<Rightarrow> bool" where
  "serverInv m s \<longleftrightarrow> MaxClients s = m \<and> (\<forall>c. nextConn s \<le> c \<longrightarrow> workers s c = NotStarted) \<and>
     (\<forall>c. inHand (acceptor s) = Some c \<longrightarrow> c < nextConn s \<and> workers s c = NotStarted) \<and>
     connCount s = int (card (counted s)) + handCount (acceptor s) \<and>
     wg s = int (card (waited s)) + handWait (acceptor s) \<and>
     (acceptor s = Stopped \<longrightarrow> waited s = {}) \<and>
     (0 < m \<longrightarrow> connCount s + handClaim (acceptor s) \<le> m)"

lemma card_remove_int: "finite A \<Longrightarrow> c \<in> A \<Longrightarrow> int (card (A - {c})) = int (card A) - 1"
  using card_Suc_Diff1 [of A c] by linarith

lemma finite_support:
  assumes "\<forall>c. n \<le> c \<longrightarrow> workers s c = NotStarted"
  shows "finite (counted s)" "finite (waited s)"
proof -
  have "counted s \<subseteq> {..<n}" "waited s \<subseteq> {..<n}"
    using assms by (auto simp: counted_def waited_def not_le [symmetric])
  then show "finite (counted s)" "finite (waited s)" by (auto intro: finite_subset)
qed

lemma counted_setWorker:
  "counted (setWorker c p s) = (if p = Serving \<or> p = Returned \<or> p = Untracked then insert c (counted s) else counted s - {c})"
  by (auto simp: counted_def setWorker_def)

lemma waited_setWorker:
  "waited (setWorker c p s) = (if p \<noteq> NotStarted \<and> p \<noteq> Finished then insert c (waited s) else waited s - {c})"
  by (auto simp: waited_def setWorker_def)

lemma serverInv_outside: "outside s s' \<Longrightarrow> serverInv m s \<Longrightarrow> serverInv m s'"
proof (induction rule: outside.induct)
  case (hangup s c)
  then have "c \<in> counted s" "c \<in> waited s" by (simp_all add: counted_def waited_def)
  then have "counted (setWorker c Returned s) = counted s" "waited (setWorker c Returned s) = waited s"
    by (auto simp: counted_setWorker waited_setWorker)
  then show ?case using hangup by (auto simp: serverInv_def counted_def waited_def setWorker_def)
qed (auto simp: serverInv_def counted_def waited_def)

lemma serverInv_acceptLoop: "acceptLoop s s' \<Longrightarrow> serverInv m s \<Longrightarrow> serverInv m s'"
proof (induction rule: acceptLoop.induct)
  case (spawn s c)
  then have c: "workers s c = NotStarted" "c < nextConn s" and fin: "finite (counted s)" "finite (waited s)"
    using finite_support [of "nextConn s" s] by (auto simp: serverInv_def)
  then have "c \<notin> counted s" "c \<notin> waited s" by (simp_all add: counted_def waited_def)
  moreover let ?t = "setWorker c Serving (s\<lparr>acceptor := Accepting\<rparr>)"
  have "counted ?t = insert c (counted s)" "waited ?t = insert c (waited s)"
    by (auto simp: counted_def waited_def setWorker_def)
  ultimately show ?case using spawn c fin by (auto simp: serverInv_def setWorker_def)
next
  case (stop s)
  then have "finite (waited s)" "card (waited s) = 0"
    using finite_support(2) [of "nextConn s" s] by (auto simp: serverInv_def)
  then have "waited s = {}" by simp
  then show ?case using stop by (auto simp: serverInv_def counted_def waited_def)
qed (auto simp: serverInv_def counted_def waited_def full_def trackConn_def)

lemma serverInv_workerStep: "workerStep s s' \<Longrightarrow> serverInv m s \<Longrightarrow> serverInv m s'"
proof (induction rule: workerStep.induct)
  case (kicked s c)
  then have "counted (setWorker c Returned s) = counted s" "waited (setWorker c Returned s) = waited s"
    by (auto simp: counted_setWorker waited_setWorker, auto simp: counted_def waited_def)
  then show ?case using kicked by (auto simp: serverInv_def setWorker_def)
next
  case (untrack s c)
  let ?t = "setWorker c Untracked (untrackConn c s)"
  have "counted ?t = counted s" "waited ?t = waited s"
    using untrack(1) by (auto simp: counted_def waited_def setWorker_def untrackConn_def)
  then show ?case using untrack by (auto simp: serverInv_def setWorker_def untrackConn_def)
next
  case (uncount s c)
  let ?t = "setWorker c Uncounted (s\<lparr>connCount := connCount s - 1\<rparr>)"
  have "c \<in> counted s" "counted ?t = counted s - {c}" "waited ?t = waited s"
    using uncount(1) by (auto simp: counted_def waited_def setWorker_def)
  moreover have "finite (counted s)" using uncount finite_support(1) [of "nextConn s" s] by (auto simp: serverInv_def)
  ultimately have "int (card (counted ?t)) = int (card (counted s)) - 1" "waited ?t = waited s"
    by (simp_all add: card_remove_int del: card_Diff_insert card_Diff_singleton)
  then show ?case using uncount by (auto simp: serverInv_def setWorker_def)
next
  case (finish s c)
  let ?t = "setWorker c Finished (s\<lparr>wg := wg s - 1\<rparr>)"
  have "c \<in> waited s" "waited ?t = waited s - {c}" "counted ?t = counted s"
    using finish(1) by (auto simp: counted_def waited_def setWorker_def)
  moreover have "finite (waited s)" using finish finite_support(2) [of "nextConn s" s] by (auto simp: serverInv_def)
  ultimately have "int (card (waited ?t)) = int (card (waited s)) - 1" "counted ?t = counted s"
    by (simp_all add: card_remove_int del: card_Diff_insert card_Diff_singleton)
  then show ?case using finish by (auto simp: serverInv_def setWorker_def)
qed

lemma serverInv_closerStep: "closerStep s s' \<Longrightarrow> serverInv m s \<Longrightarrow> serverInv m s'"
  by (induction rule: closerStep.induct) (auto simp: serverInv_def counted_def waited_def closeAllConns_def)

lemma serverInv_New: "serverInv m (New m)"
  by (simp add: serverInv_def New_def counted_def waited_def)

lemma Serve_inv: "Serve m s \<Longrightarrow> serverInv m s"
  by (induction rule: Serve.induct)
    (auto simp: inside_def intro: serverInv_New serverInv_outside serverInv_acceptLoop serverInv_workerStep serverInv_closerStep)

section \<open>Shutdown\<close>

fun handTracked :: "acceptPc \<Rightarrow> nat option" where
  "handTracked (Tracked c) = Some c"
| "handTracked (Counted c) = Some c"
| "handTracked (Added c) = Some c"
| "handTracked _ = None"

definition trackInv :: "Server \<Rightarrow> bool" where
  "trackInv s \<longleftrightarrow> (\<forall>c. workers s c = Serving \<longrightarrow> c \<in> conns s) \<and>
     (\<forall>c. handTracked (acceptor s) = Some c \<longrightarrow> c \<in> conns s) \<and>
     (closer s = ListenerClosed \<or> closer s = AllClosed \<longrightarrow> \<not> listening s)"

lemma handTracked_inHand: "handTracked p = Some c \<Longrightarrow> inHand p = Some c"
  by (cases p) simp_all

lemma trackInv_step:
  assumes "outside s s' \<or> inside s s'" and "serverInv m s" and "trackInv s"
  shows "trackInv s'"
proof -
  have hand: "workers s c = NotStarted" if "handTracked (acceptor s) = Some c" for c
    using assms(2) handTracked_inHand [OF that] by (simp add: serverInv_def)
  have "outside s s' \<Longrightarrow> trackInv s'" using assms(3)
    by (auto elim!: outside.cases simp: trackInv_def setWorker_def split: if_splits)
  moreover have "acceptLoop s s' \<Longrightarrow> trackInv s'" using assms(3)
    by (auto elim!: acceptLoopE simp: trackInv_def server_defs split: if_splits)
  moreover have "workerStep s s' \<Longrightarrow> trackInv s'" using assms(3) hand
    by (auto elim!: workerStepE simp: trackInv_def server_defs split: if_splits)
  moreover have "closerStep s s' \<Longrightarrow> trackInv s'" using assms(3)
    by (auto elim!: closerStepE simp: trackInv_def server_defs)
  ultimately show ?thesis using assms(1) by (auto simp: inside_def)
qed

lemma Serve_track: "Serve m s \<Longrightarrow> trackInv s"
proof (induction rule: Serve.induct)
  case start
  show ?case by (simp add: trackInv_def New_def)
next
  case (outer s s')
  then show ?case using trackInv_step Serve_inv by blast
next
  case (inner s s')
  then show ?case using trackInv_step Serve_inv by blast
qed

text \<open>
  The shutdown is under way and orderly: the accept loop has no connection in hand, and once the
  connections have been closed every connection still served is among them.
\<close>

definition orderly :: "int \<Rightarrow> Server \<Rightarrow> bool" where
  "orderly m s \<longleftrightarrow> serverInv m s \<and> trackInv s \<and> closer s \<noteq> BeforeCancel \<and> inHand (acceptor s) = None \<and>
     (closer s = AllClosed \<longrightarrow> (\<forall>c. workers s c = Serving \<longrightarrow> c \<in> shut s))"

text \<open>Every run of the server's own steps ends with \<^verbatim>\<open>Serve\<close> returning and no goroutine left.\<close>

inductive returnsSoon :: "Server \<Rightarrow> bool" where
  now: "acceptor s = Stopped \<Longrightarrow> waited s = {} \<Longrightarrow> returnsSoon s"
| later: "inside s s1 \<Longrightarrow> (\<And>s'. inside s s' \<Longrightarrow> returnsSoon s') \<Longrightarrow> returnsSoon s"

fun workerLeft :: "workerPc \<Rightarrow> nat" where
  "workerLeft Serving = 4"
| "workerLeft Returned = 3"
| "workerLeft Untracked = 2"
| "workerLeft Uncounted = 1"
| "workerLeft _ = 0"

fun closerLeft :: "closerPc \<Rightarrow> nat" where
  "closerLeft BeforeCancel = 3"
| "closerLeft Cancelled = 2"
| "closerLeft ListenerClosed = 1"
| "closerLeft AllClosed = 0"

fun acceptLeft :: "acceptPc \<Rightarrow> nat" where
  "acceptLeft Stopped = 0"
| "acceptLeft Waiting = 1"
| "acceptLeft _ = 2"

definition stepsLeft :: "Server \<Rightarrow> nat" where
  "stepsLeft s = closerLeft (closer s) + acceptLeft (acceptor s) + (\<Sum>c < nextConn s. workerLeft (workers s c))"

lemma stepsLeft_worker:
  assumes "c < nextConn s" and "workerLeft p < workerLeft (workers s c)" and "nextConn s' = nextConn s"
    and "closer s' = closer s" "acceptor s' = acceptor s" and "workers s' = (workers s)(c := p)"
  shows "stepsLeft s' < stepsLeft s"
proof -
  have "(\<Sum>d < nextConn s. workerLeft (workers s' d)) < (\<Sum>d < nextConn s. workerLeft (workers s d))"
    using assms(1,2,6) by (intro sum_strict_mono_ex1) auto
  then show ?thesis using assms by (simp add: stepsLeft_def)
qed

lemma orderly_step:
  assumes o: "orderly m s" and step: "inside s s'"
  shows "orderly m s' \<and> stepsLeft s' < stepsLeft s"
proof -
  have inv: "serverInv m s" "trackInv s" using o by (simp_all add: orderly_def)
  have inv': "serverInv m s'" "trackInv s'"
    using step inv trackInv_step [of s s' m] serverInv_acceptLoop serverInv_workerStep serverInv_closerStep
    unfolding inside_def by blast+
  have low: "c < nextConn s" if "workers s c \<noteq> NotStarted" for c
    using inv(1) that by (auto simp: serverInv_def not_le [symmetric])
  consider "acceptLoop s s'" | "workerStep s s'" | "closerStep s s'" using step by (auto simp: inside_def)
  then show ?thesis
  proof cases
    case 1
    then show ?thesis using o inv' by cases (auto simp: orderly_def stepsLeft_def)
  next
    case 2
    then have "orderly m s'" using o inv' by cases (auto simp: orderly_def server_defs split: if_splits)
    moreover have "stepsLeft s' < stepsLeft s"
      using 2 by cases (rule stepsLeft_worker [OF low]; simp add: server_defs)+
    ultimately show ?thesis by simp
  next
    case 3
    then show ?thesis using o inv' inv(2) by cases (auto simp: orderly_def stepsLeft_def server_defs trackInv_def)
  qed
qed

lemma orderly_progress:
  assumes o: "orderly m s" and "acceptor s \<noteq> Stopped"
  shows "\<exists>s'. inside s s'"
proof (cases "closer s")
  case AllClosed
  have inv: "serverInv m s" "trackInv s" using o by (simp_all add: orderly_def)
  show ?thesis
  proof (cases "waited s = {}")
    case False
    then obtain c where "workers s c \<noteq> NotStarted" "workers s c \<noteq> Finished" by (auto simp: waited_def)
    moreover have "workers s c = Serving \<Longrightarrow> c \<in> shut s" using o AllClosed by (simp add: orderly_def)
    ultimately have "\<exists>s'. workerStep s s'" by (cases "workers s c") (auto intro: workerStep.intros)
    then show ?thesis by (auto simp: inside_def)
  next
    case True
    have "\<not> listening s" using inv(2) AllClosed by (simp add: trackInv_def)
    moreover have "wg s = 0" if "acceptor s = Waiting" using inv(1) True that by (simp add: serverInv_def)
    ultimately have "\<exists>s'. acceptLoop s s'"
      using assms by (cases "acceptor s") (auto simp: orderly_def intro: acceptLoop.intros)
    then show ?thesis by (auto simp: inside_def)
  qed
qed (use o in \<open>auto simp: orderly_def inside_def intro: closerStep.intros\<close>)

lemma orderly_returns: "orderly m s \<Longrightarrow> returnsSoon s"
proof (induction "stepsLeft s" arbitrary: s rule: less_induct)
  case less
  show ?case
  proof (cases "acceptor s = Stopped")
    case False
    then obtain s1 where "inside s s1" using orderly_progress [OF less.prems] by blast
    moreover have "returnsSoon s'" if "inside s s'" for s'
      using orderly_step [OF less.prems that] less.hyps [of s'] by blast
    ultimately show ?thesis by (rule later)
  qed (use less.prems in \<open>auto simp: orderly_def serverInv_def intro: now\<close>)
qed

section \<open>Properties\<close>

text \<open>
  C13. The client limit: however the accept loop and the connections interleave, a server started with
  a positive limit never serves more clients than the limit, and a server without limit never counts
  a client twice or forgets one: the counter is the number of goroutines that have not yet given up
  their place, plus the one about to be started.
\<close>

theorem client_limit:
  assumes "Serve m s"
  shows "connCount s = int (card (counted s)) + handCount (acceptor s) \<and>
    (0 < m \<longrightarrow> int (card {c. workers s c = Serving}) \<le> m)"
proof -
  have inv: "serverInv m s" using assms by (rule Serve_inv)
  have "finite (counted s)" using inv finite_support(1) [of "nextConn s" s] by (simp add: serverInv_def)
  then have "card {c. workers s c = Serving} \<le> card (counted s)"
    by (rule card_mono) (auto simp: counted_def)
  moreover have "0 \<le> handCount (acceptor s)" "0 \<le> handClaim (acceptor s)" by (cases "acceptor s"; simp)+
  moreover have "0 < m \<Longrightarrow> connCount s + handClaim (acceptor s) \<le> m" using inv by (simp add: serverInv_def)
  ultimately show ?thesis using inv by (auto simp: serverInv_def)
qed

lemma Serve_steps:
  "Serve m s \<Longrightarrow> acceptLoop s s' \<Longrightarrow> Serve m s'" "Serve m s \<Longrightarrow> workerStep s s' \<Longrightarrow> Serve m s'"
  "Serve m s \<Longrightarrow> closerStep s s' \<Longrightarrow> Serve m s'"
  by (auto intro: Serve.inner simp: inside_def)

text \<open>The accept loop takes in a connection it has just accepted.\<close>

definition takeIn :: "nat \<Rightarrow> Server \<Rightarrow> Server" where
  "takeIn c s =
     setWorker c Serving
       (s\<lparr>conns := insert c (conns s), connCount := connCount s + 1, wg := wg s + 1, acceptor := Accepting\<rparr>)"

lemma Serve_takeIn:
  assumes "Serve m s" and "acceptor s = Accepted c" and "\<not> full s"
  shows "Serve m (takeIn c s)"
proof -
  let ?s1 = "s\<lparr>acceptor := Admitted c\<rparr>"
  let ?s2 = "trackConn c (?s1\<lparr>acceptor := Tracked c\<rparr>)"
  let ?s3 = "?s2\<lparr>connCount := connCount ?s2 + 1, acceptor := Counted c\<rparr>"
  let ?s4 = "?s3\<lparr>wg := wg ?s3 + 1, acceptor := Added c\<rparr>"
  have "Serve m ?s1" using assms by (intro Serve_steps(1) [OF assms(1)] acceptLoop.admit)
  then have "Serve m ?s2" by (rule Serve_steps(1)) (rule acceptLoop.track, simp)
  then have "Serve m ?s3" by (rule Serve_steps(1)) (rule acceptLoop.count, simp add: trackConn_def)
  then have "Serve m ?s4" by (rule Serve_steps(1)) (rule acceptLoop.add, simp)
  then have "Serve m (setWorker c Serving (?s4\<lparr>acceptor := Accepting\<rparr>))"
    by (rule Serve_steps(1)) (rule acceptLoop.spawn, simp)
  moreover have "setWorker c Serving (?s4\<lparr>acceptor := Accepting\<rparr>) = takeIn c s" by (simp add: takeIn_def server_defs)
  ultimately show ?thesis by simp
qed

text \<open>The first client, and the state in which it is served.\<close>

definition firstClient :: "int \<Rightarrow> Server" where
  "firstClient m = (New m)\<lparr>acceptor := Accepted 0, nextConn := 1\<rparr>"

lemma firstClient_reach: "Serve m (firstClient m)"
proof -
  have "Serve m ((New m)\<lparr>acceptor := Accepted (nextConn (New m)), nextConn := nextConn (New m) + 1\<rparr>)"
    by (rule Serve.outer [OF Serve.start outside.client]) (simp_all add: New_def)
  then show ?thesis by (simp add: firstClient_def New_def)
qed

lemma firstClient_admitted: "acceptor (firstClient m) = Accepted 0" "\<not> full (firstClient m)"
  by (simp_all add: firstClient_def New_def full_def)

theorem client_limit_witness:
  "Serve 1 (takeIn 0 (firstClient 1)) \<and> workers (takeIn 0 (firstClient 1)) 0 = Serving \<and>
    int (card {c. workers (takeIn 0 (firstClient 1)) c = Serving}) \<le> 1"
proof -
  have "Serve 1 (takeIn 0 (firstClient 1))" by (rule Serve_takeIn [OF firstClient_reach firstClient_admitted])
  moreover have "workers (takeIn 0 (firstClient 1)) 0 = Serving" by (simp add: takeIn_def setWorker_def)
  ultimately show ?thesis using client_limit [of 1 "takeIn 0 (firstClient 1)"] by simp
qed

text \<open>
  C14. An orderly shutdown ends: once the context is cancelled, if the accept loop has no connection in
  hand and no further client arrives, then every run of the server's own steps, in whatever order
  its goroutines are scheduled, leads to \<^verbatim>\<open>Serve\<close> returning, and no goroutine is left when it does.
\<close>

theorem shutdown_completes:
  assumes "Serve m s" and "closer s \<noteq> BeforeCancel" and "closer s \<noteq> AllClosed" and "inHand (acceptor s) = None"
  shows "returnsSoon s"
proof -
  have "serverInv m s" "trackInv s" using assms(1) by (rule Serve_inv, rule Serve_track)
  then have "orderly m s" using assms by (simp add: orderly_def)
  then show ?thesis by (rule orderly_returns)
qed

theorem shutdown_completes_witness: "returnsSoon ((takeIn 0 (firstClient 1))\<lparr>closer := Cancelled\<rparr>)"
proof -
  have "Serve 1 (takeIn 0 (firstClient 1))" by (rule Serve_takeIn [OF firstClient_reach firstClient_admitted])
  then have run: "Serve 1 ((takeIn 0 (firstClient 1))\<lparr>closer := Cancelled\<rparr>)"
    by (rule Serve.outer [OF _ outside.cancel]) (simp add: takeIn_def setWorker_def firstClient_def New_def)
  then show ?thesis using shutdown_completes [OF run] by (simp add: takeIn_def setWorker_def)
qed

text \<open>
  C39. The shutdown can hang: a client accepted just before the listener is closed may be tracked only
  after all tracked connections have been closed.  Its socket stays open, its goroutine keeps
  serving, and in the state reached there is nothing left that the server itself would do, although
  \<^verbatim>\<open>Serve\<close> has not returned; it waits for as long as the client stays.
\<close>

theorem shutdown_can_hang:
  "\<exists>s. Serve m s \<and> closer s = AllClosed \<and> acceptor s = Waiting \<and> workers s 0 = Serving \<and> \<not> (\<exists>s'. inside s s')"
proof -
  let ?s1 = "(firstClient m)\<lparr>closer := Cancelled\<rparr>"
  let ?s2 = "?s1\<lparr>listening := False, closer := ListenerClosed\<rparr>"
  let ?s3 = "closeAllConns (?s2\<lparr>closer := AllClosed\<rparr>)"
  let ?s = "(takeIn 0 ?s3)\<lparr>acceptor := Waiting\<rparr>"
  have "Serve m ?s1" by (rule Serve.outer [OF firstClient_reach outside.cancel]) (simp add: firstClient_def New_def)
  then have "Serve m ?s2" by (rule Serve_steps(3)) (rule closerStep.close_listener, simp)
  then have "Serve m ?s3" by (rule Serve_steps(3)) (rule closerStep.close_conns, simp)
  then have "Serve m (takeIn 0 ?s3)"
    by (rule Serve_takeIn) (simp_all add: closeAllConns_def full_def firstClient_def New_def)
  then have run: "Serve m ?s"
    by (rule Serve_steps(1)) (rule acceptLoop.closed, simp_all add: takeIn_def server_defs)
  have workers: "workers ?s = (\<lambda>_. NotStarted)(0 := Serving)" "0 \<notin> shut ?s" "wg ?s = 1" "closer ?s = AllClosed" "acceptor ?s = Waiting"
    by (simp_all add: takeIn_def server_defs firstClient_def New_def)
  then have "\<not> inside ?s s'" for s'
    unfolding inside_def by (auto elim!: acceptLoopE workerStepE closerStepE split: if_splits)
  with run workers show ?thesis by (intro exI [of _ ?s]) simp
qed

end
