(* ===== verification/Config.thy ===== *)
theory Config
  imports GoLib
begin

text \<open>
  The settings of \<^verbatim>\<open>internal/config/config.go\<close> and the command line \<^verbatim>\<open>Load\<close> reads them from.  \<^verbatim>\<open>Load\<close> registers
  seven flags and calls \<^verbatim>\<open>flag.Parse\<close>, whose loop over the arguments is \<open>parseFlags\<close>: one or two dashes, a
  value after an equals sign or in the next argument, a Boolean flag without value, \<^verbatim>\<open>--\<close> and the first
  argument that is no flag end the flags.  An error prints the usage and ends the process with status 2,
  a request for help with status 0.
\<close>

section \<open>Settings\<close>

record Config =
  Host :: string
  Port :: int
  AOFEnabled :: bool
  AOFPath :: string
  AOFSync :: string
  LogLevel :: string
  MaxClientsCfg :: int

definition Addr :: "Config \<Rightarrow> string" where
  "Addr c = Host c @ '':'' @ FormatInt (Port c)"

text \<open>The values \<^verbatim>\<open>Load\<close> registers, which stand where the command line gives none.\<close>

definition defaultConfig :: Config where
  "defaultConfig =
     \<lparr>Host = ''0.0.0.0'', Port = 6379, AOFEnabled = True, AOFPath = ''appendonly.aof'', AOFSync = ''everysec'',
      LogLevel = ''info'', MaxClientsCfg = 0\<rparr>"

section \<open>Values of flags\<close>

text \<open>
  \<^verbatim>\<open>strconv.ParseInt(s, 0, 64)\<close>: the prefix gives the base, and single underscores may stand between
  digits.
\<close>

definition baseDigit :: "char \<Rightarrow> nat option" where
  "baseDigit c =
     (let n = of_char c
      in if 48 \<le> n \<and> n \<le> 57 then Some (n - 48)
         else if 97 \<le> n \<and> n \<le> 122 then Some (n - 87)
         else if 65 \<le> n \<and> n \<le> 90 then Some (n - 55)
         else None)"

fun baseDigits :: "nat \<Rightarrow> nat \<Rightarrow> string \<Rightarrow> nat option" where
  "baseDigits b acc [] = Some acc"
| "baseDigits b acc (c # cs) =
     (if c = CHR ''_'' then baseDigits b acc cs
      else
        case baseDigit c of
          None \<Rightarrow> None
        | Some d \<Rightarrow> if b \<le> d then None else baseDigits b (b * acc + d) cs)"

definition prefixBase :: "char \<Rightarrow> nat option" where
  "prefixBase c =
     (if c = CHR ''b'' \<or> c = CHR ''B'' then Some 2
      else if c = CHR ''o'' \<or> c = CHR ''O'' then Some 8
      else if c = CHR ''x'' \<or> c = CHR ''X'' then Some 16
      else None)"

definition splitBase :: "string \<Rightarrow> nat \<times> string" where
  "splitBase s =
     (case s of
        c # cs \<Rightarrow>
          if c \<noteq> CHR ''0'' then (10, s)
          else (case cs of
                  d # e # r \<Rightarrow> (case prefixBase d of Some b \<Rightarrow> (b, e # r) | None \<Rightarrow> (8, cs))
                | _ \<Rightarrow> (8, cs))
      | [] \<Rightarrow> (10, []))"

datatype saw = SawStart | SawDigit | SawUnderscore | SawOther

fun underscoreLoop :: "bool \<Rightarrow> saw \<Rightarrow> string \<Rightarrow> bool" where
  "underscoreLoop hex w [] \<longleftrightarrow> w \<noteq> SawUnderscore"
| "underscoreLoop hex w (c # cs) \<longleftrightarrow>
     (if (case baseDigit c of None \<Rightarrow> False | Some d \<Rightarrow> d < 10 \<or> hex \<and> d < 16) then underscoreLoop hex SawDigit cs
      else if c = CHR ''_'' then w = SawDigit \<and> underscoreLoop hex SawUnderscore cs
      else w \<noteq> SawUnderscore \<and> underscoreLoop hex SawOther cs)"

definition underscoreOK :: "string \<Rightarrow> bool" where
  "underscoreOK s \<longleftrightarrow>
     (case s of
        c # d # r \<Rightarrow>
          (if c = CHR ''0'' \<and> prefixBase d \<noteq> None then underscoreLoop (prefixBase d = Some 16) SawDigit r
           else underscoreLoop False SawStart s)
      | _ \<Rightarrow> underscoreLoop False SawStart s)"

definition ParseInt0 :: "string \<Rightarrow> int option" where
  "ParseInt0 s =
     (case s of
        [] \<Rightarrow> None
      | c # cs \<Rightarrow>
          let neg = (c = CHR ''-'');
              ds = (if c = CHR ''-'' \<or> c = CHR ''+'' then cs else s);
              (b, r) = splitBase ds
          in if ds = [] \<or> CHR ''_'' \<in> set r \<and> \<not> underscoreOK ds then None
             else case baseDigits b 0 r of
                    None \<Rightarrow> None
                  | Some n \<Rightarrow>
                      let v = (if neg then - int n else int n)
                      in if in64 v then Some v else None)"

definition ParseBool :: "string \<Rightarrow> bool option" where
  "ParseBool s =
     (if s \<in> set [''1'', ''t'', ''T'', ''TRUE'', ''true'', ''True''] then Some True
      else if s \<in> set [''0'', ''f'', ''F'', ''FALSE'', ''false'', ''False''] then Some False
      else None)"

section \<open>The command line\<close>

datatype loaded = Loaded Config | Exit nat

definition flagNames :: "string list" where
  "flagNames = [''host'', ''port'', ''aof'', ''aof-path'', ''aof-sync'', ''log-level'', ''max-clients'']"

definition setFlag :: "string \<Rightarrow> string \<Rightarrow> Config \<Rightarrow> Config option" where
  "setFlag name v cfg =
     (if name = ''host'' then Some (cfg\<lparr>Host := v\<rparr>)
      else if name = ''port'' then map_option (\<lambda>i. cfg\<lparr>Port := i\<rparr>) (ParseInt0 v)
      else if name = ''aof'' then map_option (\<lambda>b. cfg\<lparr>AOFEnabled := b\<rparr>) (ParseBool v)
      else if name = ''aof-path'' then Some (cfg\<lparr>AOFPath := v\<rparr>)
      else if name = ''aof-sync'' then Some (cfg\<lparr>AOFSync := v\<rparr>)
      else if name = ''log-level'' then Some (cfg\<lparr>LogLevel := v\<rparr>)
      else if name = ''max-clients'' then map_option (\<lambda>i. cfg\<lparr>MaxClientsCfg := i\<rparr>) (ParseInt0 v)
      else None)"

definition splitFlag :: "string \<Rightarrow> string \<times> string option" where
  "splitFlag s =
     (let name = takeWhile (\<lambda>c. c \<noteq> CHR ''='') s
      in (name, if length name < length s then Some (drop (Suc (length name)) s) else None))"

fun parseFlags :: "string list \<Rightarrow> Config \<Rightarrow> loaded" where
  "parseFlags [] cfg = Loaded cfg"
| "parseFlags (s # rest) cfg =
     (if length s < 2 \<or> hd s \<noteq> CHR ''-'' \<or> s = ''--'' then Loaded cfg
      else
        let body = drop (if s ! 1 = CHR ''-'' then 2 else 1) s;
            (name, val) = splitFlag body
        in if hd body = CHR ''-'' \<or> hd body = CHR ''='' then Exit 2
           else if name \<notin> set flagNames then Exit (if name = ''help'' \<or> name = ''h'' then 0 else 2)
           else
             case (val, rest) of
               (Some v, _) \<Rightarrow> (case setFlag name v cfg of None \<Rightarrow> Exit 2 | Some cfg \<Rightarrow> parseFlags rest cfg)
             | (None, []) \<Rightarrow>
                 if name = ''aof'' then (case setFlag name ''true'' cfg of None \<Rightarrow> Exit 2 | Some cfg \<Rightarrow> Loaded cfg)
                 else Exit 2
             | (None, v # rest') \<Rightarrow>
                 if name = ''aof'' then (case setFlag name ''true'' cfg of None \<Rightarrow> Exit 2 | Some cfg \<Rightarrow> parseFlags rest cfg)
                 else (case setFlag name v cfg of None \<Rightarrow> Exit 2 | Some cfg \<Rightarrow> parseFlags rest' cfg))"

definition Load :: "string list \<Rightarrow> loaded" where
  "Load args = parseFlags args defaultConfig"

section \<open>Round trip\<close>

text \<open>On the text of a number the base-0 parser reads base ten.\<close>

lemma baseDigit_digit: "digit_val c = Some d \<Longrightarrow> baseDigit c = Some d \<and> d < 10 \<and> c \<noteq> CHR ''_''"
  by (auto simp: digit_val_def baseDigit_def Let_def split: if_splits)

lemma baseDigits_decimal: "parse_digits acc s = Some n \<Longrightarrow> baseDigits 10 acc s = Some n"
  by (induction acc s rule: parse_digits.induct) (auto dest: baseDigit_digit split: option.splits)

lemma parse_digits_no_underscore: "parse_digits acc s \<noteq> None \<Longrightarrow> CHR ''_'' \<notin> set s"
  by (induction acc s rule: parse_digits.induct) (auto dest: baseDigit_digit split: option.splits)

lemma fmt_nat_leading: "0 < n \<Longrightarrow> hd (fmt_nat n) \<noteq> CHR ''0''"
proof (induction n rule: fmt_nat.induct)
  case (1 n)
  show ?case
  proof (cases "n < 10")
    case True
    then have "of_char (digit_char n) \<noteq> (48 :: nat)" using "1.prems" by (simp add: digit_char_def)
    then show ?thesis using True by (auto simp: fmt_nat.simps [of n])
  next
    case False
    then show ?thesis using "1.IH" by (simp add: fmt_nat.simps [of n])
  qed
qed

lemma char_of_zero: "char_of (48 :: nat) = CHR ''0''"
  by code_simp

lemma ParseInt0_nat:
  assumes "ds = fmt_nat n"
  shows "splitBase ds = (if n = 0 then (8, []) else (10, ds))"
    and "baseDigits (fst (splitBase ds)) 0 (snd (splitBase ds)) = Some n" and "CHR ''_'' \<notin> set (snd (splitBase ds))"
proof -
  show split: "splitBase ds = (if n = 0 then (8, []) else (10, ds))"
  proof (cases "n = 0")
    case True
    then show ?thesis using assms by (simp add: fmt_nat.simps digit_char_def splitBase_def char_of_zero)
  next
    case False
    then show ?thesis using assms fmt_nat_leading [of n] fmt_nat_not_Nil [of n]
      by (cases "fmt_nat n") (auto simp: splitBase_def)
  qed
  show "baseDigits (fst (splitBase ds)) 0 (snd (splitBase ds)) = Some n"
    unfolding split using baseDigits_decimal [of 0 ds n] assms by simp
  show "CHR ''_'' \<notin> set (snd (splitBase ds))"
    unfolding split using parse_digits_no_underscore [of 0 ds] assms by simp
qed

lemma ParseInt0_FormatInt: "in64 i \<Longrightarrow> ParseInt0 (FormatInt i) = Some i"
proof (cases "i < 0")
  case True
  assume "in64 i"
  with True ParseInt0_nat [OF refl, of "nat (- i)"] show ?thesis
    by (auto simp: ParseInt0_def FormatInt_def Let_def case_prod_beta)
next
  case False
  assume "in64 i"
  obtain c cs where c: "fmt_nat (nat i) = c # cs" "c \<noteq> CHR ''-''" "c \<noteq> CHR ''+''"
    by (rule fmt_nat_Cons)
  show ?thesis using \<open>in64 i\<close> False c ParseInt0_nat [OF c(1) [symmetric]]
    by (auto simp: ParseInt0_def FormatInt_def Let_def case_prod_beta)
qed

text \<open>The command line that spells out a configuration.\<close>

definition flagsOf :: "Config \<Rightarrow> string list" where
  "flagsOf cfg =
     [''-host='' @ Host cfg, ''-port='' @ FormatInt (Port cfg), ''-aof='' @ (if AOFEnabled cfg then ''true'' else ''false''),
      ''-aof-path='' @ AOFPath cfg, ''-aof-sync='' @ AOFSync cfg, ''-log-level='' @ LogLevel cfg,
      ''-max-clients='' @ FormatInt (MaxClientsCfg cfg)]"

lemma parse_flag:
  assumes "CHR ''='' \<notin> set name" and "name \<in> set flagNames"
  shows "parseFlags ((CHR ''-'' # name @ CHR ''='' # v) # rest) cfg =
    (case setFlag name v cfg of None \<Rightarrow> Exit 2 | Some cfg' \<Rightarrow> parseFlags rest cfg')"
proof -
  have "takeWhile (\<lambda>c. c \<noteq> CHR ''='') (name @ CHR ''='' # v) = name"
    using assms(1) by (subst takeWhile_append2) auto
  then have "splitFlag (name @ CHR ''='' # v) = (name, Some v)" by (simp add: splitFlag_def)
  moreover have "name \<noteq> []" "hd name \<noteq> CHR ''-''" "hd name \<noteq> CHR ''=''" using assms(2) by (auto simp: flagNames_def)
  ultimately show ?thesis using assms(2) by (cases name) (auto simp: Let_def)
qed

text \<open>
  C29. The command line can express every configuration, and is read back as it was meant: the seven
  flags written with the values of any configuration, whatever its strings contain and for every
  64-bit port and client limit, load as exactly that configuration.
\<close>

theorem flags_roundtrip:
  assumes "in64 (Port cfg)" and "in64 (MaxClientsCfg cfg)"
  shows "Load (flagsOf cfg) = Loaded cfg"
proof -
  have flag: "parseFlags ((''-'' @ name @ ''='' @ v) # rest) c =
      (case setFlag name v c of None \<Rightarrow> Exit 2 | Some c' \<Rightarrow> parseFlags rest c')"
    if "name \<in> set flagNames" for name v rest c
    using parse_flag [of name v rest c] that by (auto simp: flagNames_def simp del: parseFlags.simps)
  have line: "flagsOf cfg =
      [''-'' @ ''host'' @ ''='' @ Host cfg, ''-'' @ ''port'' @ ''='' @ FormatInt (Port cfg),
       ''-'' @ ''aof'' @ ''='' @ (if AOFEnabled cfg then ''true'' else ''false''), ''-'' @ ''aof-path'' @ ''='' @ AOFPath cfg,
       ''-'' @ ''aof-sync'' @ ''='' @ AOFSync cfg, ''-'' @ ''log-level'' @ ''='' @ LogLevel cfg,
       ''-'' @ ''max-clients'' @ ''='' @ FormatInt (MaxClientsCfg cfg)]"
    by (simp add: flagsOf_def)
  have names: "''host'' \<in> set flagNames" "''port'' \<in> set flagNames" "''aof'' \<in> set flagNames" "''aof-path'' \<in> set flagNames"
    "''aof-sync'' \<in> set flagNames" "''log-level'' \<in> set flagNames" "''max-clients'' \<in> set flagNames"
    by (simp_all add: flagNames_def)
  have "ParseBool (if AOFEnabled cfg then ''true'' else ''false'') = Some (AOFEnabled cfg)" by (simp add: ParseBool_def)
  then show ?thesis
    unfolding Load_def line names [THEN flag]
    by (simp only: setFlag_def ParseInt0_FormatInt [OF assms(1)] ParseInt0_FormatInt [OF assms(2)] names [THEN flag]) simp
qed

theorem flags_roundtrip_witness:
  "Load (flagsOf (defaultConfig\<lparr>Host := ''::1'', AOFEnabled := False, MaxClientsCfg := -7\<rparr>)) =
     Loaded (defaultConfig\<lparr>Host := ''::1'', AOFEnabled := False, MaxClientsCfg := -7\<rparr>)"
  by (rule flags_roundtrip) (simp_all add: defaultConfig_def in64_bounds)

end
