(* ===== verification/PubSub.thy ===== *)
theory PubSub
  imports Parser GoGlob
begin

text \<open>
  The publish/subscribe broker: \<^verbatim>\<open>message.go\<close>, \<^verbatim>\<open>subscriber.go\<close> and \<^verbatim>\<open>broker.go\<close> of
  \<^verbatim>\<open>internal/pubsub\<close>.

  A \<^verbatim>\<open>*Subscriber\<close> is an address; the subscribers themselves live in a heap, so that the broker's
  registry and the connection that owns the subscriber see the same mailbox.  The mailbox is the
  buffered channel \<^verbatim>\<open>inbox\<close> of 256 places and the flag that the channel \<^verbatim>\<open>done\<close> is closed.
\<close>

section \<open>message.go\<close>

definition bulkFrame :: "string \<Rightarrow> string" where
  "bulkFrame s = ''$'' @ FormatInt (int (length s)) @ CRLF @ s @ CRLF"

definition EncodePubSubMessage :: "string \<Rightarrow> string \<Rightarrow> string" where
  "EncodePubSubMessage channel payload =
     ''*3'' @ CRLF @ ''$7'' @ CRLF @ ''message'' @ CRLF @ bulkFrame channel @ bulkFrame payload"

definition EncodePMessage :: "string \<Rightarrow> string \<Rightarrow> string \<Rightarrow> string" where
  "EncodePMessage pattern channel payload =
     ''*4'' @ CRLF @ ''$8'' @ CRLF @ ''pmessage'' @ CRLF @ bulkFrame pattern @ bulkFrame channel @ bulkFrame payload"

definition EncodeSubscribeAck :: "string \<Rightarrow> int \<Rightarrow> string" where
  "EncodeSubscribeAck channel active =
     ''*3'' @ CRLF @ ''$9'' @ CRLF @ ''subscribe'' @ CRLF @ bulkFrame channel @ '':'' @ FormatInt active @ CRLF"

definition EncodeUnsubscribeAck :: "string \<Rightarrow> int \<Rightarrow> string" where
  "EncodeUnsubscribeAck channel remaining =
     ''*3'' @ CRLF @ ''$11'' @ CRLF @ ''unsubscribe'' @ CRLF @ bulkFrame channel @ '':'' @ FormatInt remaining @ CRLF"

definition EncodePSubscribeAck :: "string \<Rightarrow> int \<Rightarrow> string" where
  "EncodePSubscribeAck pattern active =
     ''*3'' @ CRLF @ ''$10'' @ CRLF @ ''psubscribe'' @ CRLF @ bulkFrame pattern @ '':'' @ FormatInt active @ CRLF"

definition EncodePUnsubscribeAck :: "string \<Rightarrow> int \<Rightarrow> string" where
  "EncodePUnsubscribeAck pattern remaining =
     ''*3'' @ CRLF @ ''$12'' @ CRLF @ ''punsubscribe'' @ CRLF @ bulkFrame pattern @ '':'' @ FormatInt remaining @ CRLF"

section \<open>subscriber.go\<close>

definition inboxSize :: nat where "inboxSize = 256"

record Subscriber =
  inbox :: "string list"
  closedSub :: bool

type_synonym subAddr = nat

definition NewSubscriber :: Subscriber where
  "NewSubscriber = \<lparr>inbox = [], closedSub = False\<rparr>"

definition SendTo :: "string \<Rightarrow> Subscriber \<Rightarrow> Subscriber \<times> bool" where
  "SendTo msg sub =
     (if closedSub sub then (sub, False)
      else if length (inbox sub) < inboxSize then (sub\<lparr>inbox := inbox sub @ [msg]\<rparr>, True)
      else (sub, False))"

definition CloseSub :: "Subscriber \<Rightarrow> Subscriber" where
  "CloseSub sub = sub\<lparr>closedSub := True\<rparr>"

section \<open>broker.go\<close>

type_synonym registry = "(string, subAddr list) gomap"

record Broker =
  channels :: registry
  patterns :: registry
  heap :: "subAddr \<Rightarrow> Subscriber"
  nextSub :: subAddr

definition NewBroker :: Broker where
  "NewBroker = \<lparr>channels = [], patterns = [], heap = (\<lambda>_. NewSubscriber), nextSub = 0\<rparr>"

definition subsOf :: "registry \<Rightarrow> string \<Rightarrow> subAddr list" where
  "subsOf m key = (case map_of m key of None \<Rightarrow> [] | Some subs \<Rightarrow> subs)"

definition addTo :: "string \<Rightarrow> subAddr \<Rightarrow> registry \<Rightarrow> registry" where
  "addTo key sub m =
     (let subs = subsOf m key in mput key (if sub \<in> set subs then subs else subs @ [sub]) m)"

definition removeFromMap :: "string \<Rightarrow> subAddr \<Rightarrow> registry \<Rightarrow> registry" where
  "removeFromMap key sub m =
     (case map_of m key of
        None \<Rightarrow> m
      | Some subs \<Rightarrow>
          let subs = removeAll sub subs in if subs = [] then mdel key m else mput key subs m)"

text \<open>
  Go allows deletion of the current entry during a \<^verbatim>\<open>range\<close>, so the loop visits the entries the map
  has when it starts.
\<close>

definition removeSubFromAllChannels :: "subAddr \<Rightarrow> registry \<Rightarrow> registry \<times> string list" where
  "removeSubFromAllChannels sub m =
     (let removed = map fst (filter (\<lambda>(key, subs). sub \<in> set subs) m)
      in (fold (\<lambda>key. removeFromMap key sub) removed m, removed))"

definition Subscribe :: "string \<Rightarrow> subAddr \<Rightarrow> Broker \<Rightarrow> Broker" where
  "Subscribe channel sub b = b\<lparr>channels := addTo channel sub (channels b)\<rparr>"

definition Unsubscribe :: "string \<Rightarrow> subAddr \<Rightarrow> Broker \<Rightarrow> Broker" where
  "Unsubscribe channel sub b = b\<lparr>channels := removeFromMap channel sub (channels b)\<rparr>"

definition UnsubscribeAll :: "subAddr \<Rightarrow> Broker \<Rightarrow> Broker \<times> string list" where
  "UnsubscribeAll sub b =
     (let (m, removed) = removeSubFromAllChannels sub (channels b) in (b\<lparr>channels := m\<rparr>, removed))"

definition PSubscribe :: "string \<Rightarrow> subAddr \<Rightarrow> Broker \<Rightarrow> Broker" where
  "PSubscribe pattern sub b = b\<lparr>patterns := addTo pattern sub (patterns b)\<rparr>"

definition PUnsubscribe :: "string \<Rightarrow> subAddr \<Rightarrow> Broker \<Rightarrow> Broker" where
  "PUnsubscribe pattern sub b = b\<lparr>patterns := removeFromMap pattern sub (patterns b)\<rparr>"

definition PUnsubscribeAll :: "subAddr \<Rightarrow> Broker \<Rightarrow> Broker \<times> string list" where
  "PUnsubscribeAll sub b =
     (let (m, removed) = removeSubFromAllChannels sub (patterns b) in (b\<lparr>patterns := m\<rparr>, removed))"

definition Send :: "subAddr \<Rightarrow> string \<Rightarrow> Broker \<Rightarrow> Broker \<times> bool" where
  "Send sub msg b =
     (let (x, ok) = SendTo msg (heap b sub) in (b\<lparr>heap := (heap b)(sub := x)\<rparr>, ok))"

fun deliver :: "(subAddr \<times> string) list \<Rightarrow> Broker \<Rightarrow> int \<Rightarrow> Broker \<times> int" where
  "deliver [] b n = (b, n)"
| "deliver ((sub, msg) # rest) b n =
     (let (b', ok) = Send sub msg b in deliver rest b' (if ok then n + 1 else n))"

definition patternMatches :: "string \<Rightarrow> Broker \<Rightarrow> (string \<times> subAddr) list" where
  "patternMatches channel b =
     concat (map (\<lambda>(pat, subs). map (\<lambda>sub. (pat, sub)) subs) (filter (\<lambda>(pat, subs). Match pat channel) (patterns b)))"

definition Publish :: "string \<Rightarrow> string \<Rightarrow> Broker \<Rightarrow> Broker \<times> int" where
  "Publish channel message b =
     (let exact = map (\<lambda>sub. (sub, EncodePubSubMessage channel message)) (subsOf (channels b) channel);
          matches = map (\<lambda>(pat, sub). (sub, EncodePMessage pat channel message)) (patternMatches channel b)
      in deliver (exact @ matches) b 0)"

section \<open>Frames\<close>

lemma FormatInt_small:
  "FormatInt 3 = ''3''" "FormatInt 4 = ''4''" "FormatInt 7 = ''7''" "FormatInt 8 = ''8''" "FormatInt 9 = ''9''"
  "FormatInt 10 = ''10''" "FormatInt 11 = ''11''" "FormatInt 12 = ''12''"
  by code_simp+

lemmas frame_defs = EncodePubSubMessage_def EncodePMessage_def EncodeSubscribeAck_def EncodeUnsubscribeAck_def
  EncodePSubscribeAck_def EncodePUnsubscribeAck_def bulkFrame_def

lemma frames_Serialize:
  "EncodePubSubMessage c p = Serialize (Array [BulkString ''message'', BulkString c, BulkString p])"
  "EncodePMessage t c p = Serialize (Array [BulkString ''pmessage'', BulkString t, BulkString c, BulkString p])"
  "EncodeSubscribeAck c n = Serialize (Array [BulkString ''subscribe'', BulkString c, Integer n])"
  "EncodeUnsubscribeAck c n = Serialize (Array [BulkString ''unsubscribe'', BulkString c, Integer n])"
  "EncodePSubscribeAck c n = Serialize (Array [BulkString ''psubscribe'', BulkString c, Integer n])"
  "EncodePUnsubscribeAck c n = Serialize (Array [BulkString ''punsubscribe'', BulkString c, Integer n])"
  by (simp_all add: frame_defs FormatInt_small)

section \<open>Interface: a registry of listeners\<close>

text \<open>
  What a connection relies on when it manages its subscriptions.  Channels and patterns both provide
  it; the laws below it are used for both.
\<close>

locale topic_registry =
  fixes subscribe unsubscribe :: "string \<Rightarrow> subAddr \<Rightarrow> 'b \<Rightarrow> 'b"
    and unsubscribeAll :: "subAddr \<Rightarrow> 'b \<Rightarrow> 'b \<times> string list"
    and listens :: "'b \<Rightarrow> string \<Rightarrow> subAddr \<Rightarrow> bool"
    and ok :: "'b \<Rightarrow> bool"
  assumes listens_subscribe: "listens (subscribe c x b) d y \<longleftrightarrow> c = d \<and> x = y \<or> listens b d y"
    and listens_unsubscribe: "listens (unsubscribe c x b) d y \<longleftrightarrow> listens b d y \<and> \<not> (c = d \<and> x = y)"
    and listens_unsubscribeAll: "ok b \<Longrightarrow> listens (fst (unsubscribeAll x b)) d y \<longleftrightarrow> listens b d y \<and> x \<noteq> y"
    and removed_topics: "ok b \<Longrightarrow> set (snd (unsubscribeAll x b)) = {c. listens b c x}"
    and ok_subscribe: "ok b \<Longrightarrow> ok (subscribe c x b)"
    and ok_unsubscribe: "ok b \<Longrightarrow> ok (unsubscribe c x b)"
    and ok_unsubscribeAll: "ok b \<Longrightarrow> ok (fst (unsubscribeAll x b))"
begin

lemma resubscribe:
  "\<not> listens b c x \<Longrightarrow> listens (unsubscribe c x (subscribe c x b)) d y \<longleftrightarrow> listens b d y"
  by (auto simp: listens_subscribe listens_unsubscribe)

lemma subscribe_fold:
  "listens (fold (\<lambda>c. subscribe c x) cs b) d y \<longleftrightarrow> x = y \<and> d \<in> set cs \<or> listens b d y"
  by (induction cs arbitrary: b) (auto simp: listens_subscribe)

lemma unsubscribe_fold:
  "listens (fold (\<lambda>c. unsubscribe c x) cs b) d y \<longleftrightarrow> listens b d y \<and> \<not> (x = y \<and> d \<in> set cs)"
  by (induction cs arbitrary: b) (auto simp: listens_unsubscribe)

lemma left_alone:
  "ok b \<Longrightarrow> \<not> listens (fst (unsubscribeAll x b)) d x"
  by (simp add: listens_unsubscribeAll)

end

definition wf_registry :: "registry \<Rightarrow> bool" where
  "wf_registry m \<longleftrightarrow> wf_map m \<and> (\<forall>k subs. map_of m k = Some subs \<longrightarrow> subs \<noteq> [] \<and> distinct subs)"

definition wf_broker :: "Broker \<Rightarrow> bool" where
  "wf_broker b \<longleftrightarrow> wf_registry (channels b) \<and> wf_registry (patterns b)"

definition listensOn :: "registry \<Rightarrow> string \<Rightarrow> subAddr \<Rightarrow> bool" where
  "listensOn m c x \<longleftrightarrow> x \<in> set (subsOf m c)"

lemma subsOf_mput: "subsOf (mput c subs m) d = (if c = d then subs else subsOf m d)"
  by (simp add: subsOf_def)

lemma subsOf_mdel: "subsOf (mdel c m) d = (if c = d then [] else subsOf m d)"
  by (simp add: subsOf_def)

lemma subsOf_removeFromMap:
  "subsOf (removeFromMap c x m) d = (if c = d then removeAll x (subsOf m d) else subsOf m d)"
proof (cases "map_of m c")
  case None
  then show ?thesis by (auto simp: removeFromMap_def subsOf_def)
next
  case (Some subs)
  then show ?thesis
    by (cases "removeAll x subs = []")
      (auto simp: removeFromMap_def Let_def subsOf_mput subsOf_mdel, auto simp: subsOf_def)
qed

lemma listensOn_addTo: "listensOn (addTo c x m) d y \<longleftrightarrow> c = d \<and> x = y \<or> listensOn m d y"
  by (auto simp: listensOn_def addTo_def subsOf_mput Let_def)

lemma listensOn_removeFromMap:
  "listensOn (removeFromMap c x m) d y \<longleftrightarrow> listensOn m d y \<and> \<not> (c = d \<and> x = y)"
  by (auto simp: listensOn_def subsOf_removeFromMap)

lemma wf_registry_addTo: "wf_registry m \<Longrightarrow> wf_registry (addTo c x m)"
  by (auto simp: wf_registry_def addTo_def subsOf_def Let_def split: option.splits if_splits)

lemma wf_registry_removeFromMap: "wf_registry m \<Longrightarrow> wf_registry (removeFromMap c x m)"
  by (auto simp: wf_registry_def removeFromMap_def Let_def distinct_removeAll split: option.splits if_splits)

lemma fold_removeFromMap:
  "listensOn (fold (\<lambda>c. removeFromMap c x) cs m) d y \<longleftrightarrow> listensOn m d y \<and> \<not> (x = y \<and> d \<in> set cs)"
  by (induction cs arbitrary: m) (auto simp: listensOn_removeFromMap)

lemma wf_registry_fold: "wf_registry m \<Longrightarrow> wf_registry (fold (\<lambda>c. removeFromMap c x) cs m)"
  by (induction cs arbitrary: m) (auto simp: wf_registry_removeFromMap)

lemma removed_listens:
  assumes "wf_registry m"
  shows "set (snd (removeSubFromAllChannels x m)) = {c. listensOn m c x}"
proof (rule set_eqI)
  fix c
  have "wf_map m" using assms by (simp add: wf_registry_def)
  have "c \<in> set (snd (removeSubFromAllChannels x m)) \<longleftrightarrow> (\<exists>subs. (c, subs) \<in> set m \<and> x \<in> set subs)"
    by (force simp: removeSubFromAllChannels_def Let_def)
  also have "\<dots> \<longleftrightarrow> (\<exists>subs. map_of m c = Some subs \<and> x \<in> set subs)"
    using \<open>wf_map m\<close> by (simp add: wf_map_in_set)
  also have "\<dots> \<longleftrightarrow> listensOn m c x"
    by (cases "map_of m c") (simp_all add: listensOn_def subsOf_def)
  finally show "c \<in> set (snd (removeSubFromAllChannels x m)) \<longleftrightarrow> c \<in> {c. listensOn m c x}" by simp
qed

lemma listensOn_removeAll:
  "wf_registry m \<Longrightarrow> listensOn (fst (removeSubFromAllChannels x m)) d y \<longleftrightarrow> listensOn m d y \<and> x \<noteq> y"
  using removed_listens [of m x]
  by (auto simp: removeSubFromAllChannels_def Let_def fold_removeFromMap)

lemma wf_registry_removeAll: "wf_registry m \<Longrightarrow> wf_registry (fst (removeSubFromAllChannels x m))"
  by (simp add: removeSubFromAllChannels_def Let_def wf_registry_fold)

lemma UnsubscribeAll_eq:
  "UnsubscribeAll x b =
     (b\<lparr>channels := fst (removeSubFromAllChannels x (channels b))\<rparr>, snd (removeSubFromAllChannels x (channels b)))"
  "PUnsubscribeAll x b =
     (b\<lparr>patterns := fst (removeSubFromAllChannels x (patterns b))\<rparr>, snd (removeSubFromAllChannels x (patterns b)))"
  by (simp_all add: UnsubscribeAll_def PUnsubscribeAll_def split: prod.split)

lemmas broker_defs = Subscribe_def Unsubscribe_def PSubscribe_def PUnsubscribe_def UnsubscribeAll_eq wf_broker_def

interpretation chan: topic_registry Subscribe Unsubscribe UnsubscribeAll "\<lambda>b. listensOn (channels b)" wf_broker
  by unfold_locales (auto simp: broker_defs listensOn_addTo listensOn_removeFromMap listensOn_removeAll
      removed_listens wf_registry_addTo wf_registry_removeFromMap wf_registry_removeAll)

interpretation pat: topic_registry PSubscribe PUnsubscribe PUnsubscribeAll "\<lambda>b. listensOn (patterns b)" wf_broker
  by unfold_locales (auto simp: broker_defs listensOn_addTo listensOn_removeFromMap listensOn_removeAll
      removed_listens wf_registry_addTo wf_registry_removeFromMap wf_registry_removeAll)

section \<open>Delivery\<close>

definition room :: "Subscriber \<Rightarrow> nat" where
  "room sub = (if closedSub sub then 0 else inboxSize - length (inbox sub))"

definition framesFor :: "subAddr \<Rightarrow> (subAddr \<times> string) list \<Rightarrow> string list" where
  "framesFor x ms = map snd (filter (\<lambda>m. fst m = x) ms)"

lemma Send_registry [simp]:
  "channels (fst (Send x m b)) = channels b" "patterns (fst (Send x m b)) = patterns b"
  "nextSub (fst (Send x m b)) = nextSub b"
  by (simp_all add: Send_def split: prod.split)

lemma Send_heap: "heap (fst (Send x m b)) = (heap b)(x := fst (SendTo m (heap b x)))"
  by (simp add: Send_def split: prod.split)

lemma deliver_Cons:
  "deliver ((x, m) # rest) b n = deliver rest (fst (Send x m b)) (if snd (Send x m b) then n + 1 else n)"
  by (simp add: split: prod.split)

lemma deliver_registry [simp]:
  "channels (fst (deliver ms b n)) = channels b" "patterns (fst (deliver ms b n)) = patterns b"
  "nextSub (fst (deliver ms b n)) = nextSub b"
  by (induction ms arbitrary: b n) (auto simp: deliver_Cons simp del: deliver.simps(2) simp add: case_prod_beta)

lemma SendTo_inbox:
  "inbox (fst (SendTo m sub)) = inbox sub @ take (room sub) [m]"
  "closedSub (fst (SendTo m sub)) = closedSub sub"
  "room (fst (SendTo m sub)) = room sub - 1"
  by (auto simp: SendTo_def room_def)

lemma deliver_inbox:
  "inbox (heap (fst (deliver ms b n)) x) = inbox (heap b x) @ take (room (heap b x)) (framesFor x ms)"
proof (induction ms arbitrary: b n)
  case (Cons p ms)
  obtain y m where p: "p = (y, m)" by (cases p)
  show ?case
  proof (cases "y = x")
    case True
    then show ?thesis
      by (simp add: p deliver_Cons Cons.IH Send_heap SendTo_inbox framesFor_def take_Cons' del: deliver.simps(2))
  next
    case False
    then show ?thesis by (simp add: p deliver_Cons Cons.IH Send_heap framesFor_def del: deliver.simps(2))
  qed
qed (simp add: framesFor_def)

lemma Send_count:
  assumes "finite S" and "x \<in> S"
  shows "(\<Sum>y \<in> S. int (length (inbox (heap (fst (Send x m b)) y))))
    = (\<Sum>y \<in> S. int (length (inbox (heap b y)))) + (if snd (Send x m b) then 1 else 0)"
proof -
  have "int (length (inbox (fst (SendTo m (heap b x)))))
      = int (length (inbox (heap b x))) + (if snd (Send x m b) then 1 else 0)"
    by (simp add: SendTo_def Send_def)
  then show ?thesis
    by (simp add: Send_heap sum.remove [OF assms])
qed

lemma deliver_count:
  "finite S \<Longrightarrow> fst ` set ms \<subseteq> S \<Longrightarrow>
     snd (deliver ms b n) =
       n + (\<Sum>y \<in> S. int (length (inbox (heap (fst (deliver ms b n)) y))) - int (length (inbox (heap b y))))"
proof (induction ms arbitrary: b n)
  case (Cons p ms)
  obtain x m where p: "p = (x, m)" by (cases p)
  have "x \<in> S" "fst ` set ms \<subseteq> S" using Cons.prems p by auto
  with Cons.IH [OF Cons.prems(1) this(2)] Send_count [OF Cons.prems(1) this(1), of m b] show ?case
    by (simp add: p deliver_Cons sum_subtractf del: deliver.simps(2))
qed simp

lemma heap_bounded:
  assumes "length (inbox (heap b x)) \<le> inboxSize"
  shows "length (inbox (heap (fst (deliver ms b n)) x)) \<le> inboxSize"
  using assms by (auto simp: deliver_inbox room_def)

lemma framesFor_append [simp]: "framesFor x (ms @ ns) = framesFor x ms @ framesFor x ns"
  by (simp add: framesFor_def)

lemma framesFor_one: "distinct subs \<Longrightarrow> framesFor x (map (\<lambda>y. (y, f)) subs) = (if x \<in> set subs then [f] else [])"
  by (induction subs) (auto simp: framesFor_def)

lemma framesFor_topics:
  "(\<And>p subs. (p, subs) \<in> set m \<Longrightarrow> distinct subs) \<Longrightarrow>
   framesFor x (map (\<lambda>(p, y). (y, g p)) (concat (map (\<lambda>(p, subs). map (\<lambda>y. (p, y)) subs) m)))
     = map g (map fst (filter (\<lambda>(p, subs). x \<in> set subs) m))"
proof (induction m)
  case (Cons e m)
  obtain p subs where e: "e = (p, subs)" by (cases e)
  have "distinct subs" using Cons.prems [of p subs] e by simp
  moreover have "map (\<lambda>(p, y). (y, g p)) (map (\<lambda>y. (p, y)) subs) = map (\<lambda>y. (y, g p)) subs" by simp
  moreover have "framesFor x (map (\<lambda>(p, y). (y, g p)) (concat (map (\<lambda>(p, subs). map (\<lambda>y. (p, y)) subs) m)))
      = map g (map fst (filter (\<lambda>(p, subs). x \<in> set subs) m))"
    using Cons.prems by (intro Cons.IH) (meson list.set_intros(2))
  ultimately show ?case by (simp add: e framesFor_one comp_def)
qed (simp add: framesFor_def)

lemma topics_of_listener:
  assumes "wf_registry m"
  shows "map fst (filter (\<lambda>(p, subs). x \<in> set subs) (filter (\<lambda>(p, subs). P p) m))
    = filter (\<lambda>p. P p \<and> listensOn m p x) (mkeys m)"
proof -
  have "x \<in> set subs \<longleftrightarrow> listensOn m p x" if "(p, subs) \<in> set m" for p subs
    using assms that by (simp add: wf_registry_def wf_map_in_set listensOn_def subsOf_def)
  then have "filter (\<lambda>(p, subs). x \<in> set subs) (filter (\<lambda>(p, subs). P p) m)
      = filter ((\<lambda>p. P p \<and> listensOn m p x) \<circ> fst) m"
    by (auto intro!: filter_cong)
  then show ?thesis by (simp add: filter_map)
qed

lemma wf_registry_distinct: "wf_registry m \<Longrightarrow> distinct (subsOf m c)"
  by (simp add: wf_registry_def subsOf_def split: option.split)

lemma wf_registry_entry: "wf_registry m \<Longrightarrow> (p, subs) \<in> set m \<Longrightarrow> distinct subs"
  by (auto simp: wf_registry_def wf_map_in_set)

text \<open>What a subscriber is owed for one published message: specification of \<^verbatim>\<open>Publish\<close>.\<close>

definition owed :: "string \<Rightarrow> string \<Rightarrow> Broker \<Rightarrow> subAddr \<Rightarrow> Response list" where
  "owed channel message b x =
     (if listensOn (channels b) channel x
      then [Array [BulkString ''message'', BulkString channel, BulkString message]] else []) @
     map (\<lambda>p. Array [BulkString ''pmessage'', BulkString p, BulkString channel, BulkString message])
       (filter (\<lambda>p. Match p channel \<and> listensOn (patterns b) p x) (mkeys (patterns b)))"

lemma Publish_inbox:
  assumes "wf_broker b"
  shows "inbox (heap (fst (Publish c m b)) x) = inbox (heap b x) @ take (room (heap b x)) (map Serialize (owed c m b x))"
proof -
  have wf: "wf_registry (channels b)" "wf_registry (patterns b)" using assms by (simp_all add: wf_broker_def)
  define pats where "pats = filter (\<lambda>(p, subs). Match p c) (patterns b)"
  have "distinct subs" if "(p, subs) \<in> set pats" for p subs
    using that wf(2) by (auto simp: pats_def intro: wf_registry_entry)
  then have "framesFor x (map (\<lambda>(p, y). (y, EncodePMessage p c m)) (patternMatches c b))
      = map (\<lambda>p. EncodePMessage p c m) (map fst (filter (\<lambda>(p, subs). x \<in> set subs) pats))"
    unfolding patternMatches_def pats_def [symmetric] by (rule framesFor_topics)
  also have "map fst (filter (\<lambda>(p, subs). x \<in> set subs) pats)
      = filter (\<lambda>p. Match p c \<and> listensOn (patterns b) p x) (mkeys (patterns b))"
    unfolding pats_def by (rule topics_of_listener [OF wf(2)])
  finally have "framesFor x (map (\<lambda>(p, y). (y, EncodePMessage p c m)) (patternMatches c b))
      = map (\<lambda>p. EncodePMessage p c m) (filter (\<lambda>p. Match p c \<and> listensOn (patterns b) p x) (mkeys (patterns b)))" .
  moreover have "framesFor x (map (\<lambda>y. (y, EncodePubSubMessage c m)) (subsOf (channels b) c))
      = (if listensOn (channels b) c x then [EncodePubSubMessage c m] else [])"
    using framesFor_one [OF wf_registry_distinct [OF wf(1)]] by (simp add: listensOn_def)
  ultimately show ?thesis
    by (simp add: Publish_def Let_def deliver_inbox owed_def frames_Serialize comp_def del: Serialize.simps)
qed

lemma Publish_registry [simp]:
  "channels (fst (Publish c m b)) = channels b" "patterns (fst (Publish c m b)) = patterns b"
  "nextSub (fst (Publish c m b)) = nextSub b"
  by (simp_all add: Publish_def Let_def)

section \<open>Properties of the broker\<close>

text \<open>A broker with one subscriber on a channel and on a pattern, and another on the pattern only.\<close>

definition demoBroker :: Broker where
  "demoBroker = PSubscribe ''n*'' 1 (PSubscribe ''n*'' 0 (Subscribe ''news'' 0 NewBroker))"

lemma wf_broker_New: "wf_broker NewBroker"
  by (simp add: wf_broker_def wf_registry_def NewBroker_def)

lemma wf_demoBroker: "wf_broker demoBroker"
  by (simp add: demoBroker_def chan.ok_subscribe pat.ok_subscribe wf_broker_New)

text \<open>
  C15. \<^verbatim>\<open>Publish\<close> appends to the mailbox of every subscriber exactly what it is owed: one message frame
  if it listens to the channel, then one pattern frame for each of its patterns that matches the
  channel, in this order, as far as the mailbox has room and the subscriber is open; nobody else's
  mailbox and no subscription changes.
\<close>

theorem publish_delivers:
  assumes "wf_broker b"
  shows "inbox (heap (fst (Publish c m b)) x) = inbox (heap b x) @ take (room (heap b x)) (map Serialize (owed c m b x))
    \<and> channels (fst (Publish c m b)) = channels b \<and> patterns (fst (Publish c m b)) = patterns b"
  using Publish_inbox [OF assms] by simp

theorem publish_delivers_witness:
  "inbox (heap (fst (Publish ''news'' ''hi'' demoBroker)) 0) =
     [EncodePubSubMessage ''news'' ''hi'', EncodePMessage ''n*'' ''news'' ''hi'']"
proof -
  have "inbox (heap demoBroker 0) @ take (room (heap demoBroker 0)) (map Serialize (owed ''news'' ''hi'' demoBroker 0))
      = [EncodePubSubMessage ''news'' ''hi'', EncodePMessage ''n*'' ''news'' ''hi'']"
    by code_simp
  then show ?thesis using publish_delivers [OF wf_demoBroker, of "''news''" "''hi''" 0] by simp
qed



end
