(* ===== verification/Handler.thy ===== *)
theory Handler
  imports Router PubSub
begin

text \<open>
  The per-connection handler, \<^verbatim>\<open>internal/server/handler.go\<close>.

  \<open>Conn\<close> is the struct \<^verbatim>\<open>handler\<close>; its shared parts, the router and the broker, are passed beside it as a
  \<open>Broker Router\<close>.  \<open>written\<close> is what has been written to the TCP connection and \<open>broken\<close> says that
  writes to it fail; \<open>sub\<close> is the address of the connection's mailbox in the broker's heap,
  \<open>hasBroker\<close> that \<^verbatim>\<open>h.broker\<close> is not nil and \<open>writerDone\<close> that the write loop has returned.

  A handler runs one command at a time.  The queued commands of \<^verbatim>\<open>EXEC\<close> are dispatched one after the
  other, each with its own reading of the clock: \<open>envs i\<close> serves the \<open>i\<close>-th.
\<close>

section \<open>State\<close>

record Conn =
  sub :: "subAddr option"
  subChans :: "goset"
  subPatterns :: "goset"
  inMulti :: bool
  txQueue :: "string list list"
  txErrors :: int
  watchedKeys :: "(string, 64 word) gomap"
  hasBroker :: bool
  written :: string
  broken :: bool
  writerDone :: bool

type_synonym world = "Broker Router"
type_synonym hstate = "Conn \<times> world"

definition newHandler :: "bool \<Rightarrow> Conn" where
  "newHandler brk =
     \<lparr>sub = None, subChans = [], subPatterns = [], inMulti = False, txQueue = [], txErrors = 0,
      watchedKeys = [], hasBroker = brk, written = [], broken = False, writerDone = False\<rparr>"

definition onBroker :: "(Broker \<Rightarrow> Broker) \<Rightarrow> world \<Rightarrow> world" where
  "onBroker f w = w\<lparr>rpub := f (rpub w)\<rparr>"

definition sendSub :: "subAddr \<Rightarrow> string \<Rightarrow> world \<Rightarrow> world" where
  "sendSub x msg = onBroker (\<lambda>b. fst (Send x msg b))"

section \<open>Writing\<close>

text \<open>The last component is whether the write succeeded.\<close>

definition respond :: "string \<Rightarrow> hstate \<Rightarrow> hstate \<times> bool" where
  "respond s st =
     (let (h, w) = st
      in case sub h of
           Some x \<Rightarrow> ((h, sendSub x s w), True)
         | None \<Rightarrow> if broken h then (st, False) else ((h\<lparr>written := written h @ s\<rparr>, w), True))"

fun respondMany :: "string list \<Rightarrow> hstate \<Rightarrow> hstate \<times> bool" where
  "respondMany [] st = (st, True)"
| "respondMany (p # ps) st =
     (let (st', ok) = respond p st in if ok then respondMany ps st' else (st', False))"

function itoaLoop :: "int \<Rightarrow> string \<Rightarrow> string" where
  "itoaLoop n buf =
     (if 0 < n then itoaLoop (n div 10) (digit_char (nat (n mod 10)) # buf) else buf)"
  by pat_completeness auto

termination
  by (relation "measure (\<lambda>(n, buf). nat n)") auto

declare itoaLoop.simps [simp del]

definition itoa :: "int \<Rightarrow> string" where
  "itoa n =
     (if n = 0 then ''0''
      else
        let neg = (n < 0);
            m = (if neg then wrap64 (- n) else n);
            buf = itoaLoop m []
        in if neg then CHR ''-'' # buf else buf)"

section \<open>Transactions\<close>

definition handleMulti :: "Conn \<Rightarrow> Conn \<times> Response" where
  "handleMulti h =
     (if inMulti h then (h, Error ''ERR MULTI calls can not be nested'')
      else (h\<lparr>inMulti := True, txQueue := [], txErrors := 0\<rparr>, okReply))"

definition endTx :: "Conn \<Rightarrow> Conn" where
  "endTx h = h\<lparr>inMulti := False, txQueue := [], txErrors := 0, watchedKeys := []\<rparr>"

definition watchDirty :: "Conn \<Rightarrow> world \<Rightarrow> bool" where
  "watchDirty h w \<longleftrightarrow> (\<exists>(k, ver) \<in> set (watchedKeys h). KeyVersion w k \<noteq> ver)"

fun execLoop :: "(nat \<Rightarrow> Env) \<Rightarrow> nat \<Rightarrow> string list list \<Rightarrow> world \<Rightarrow> (world \<times> Response list) go" where
  "execLoop envs i [] w = Ret (w, [])"
| "execLoop envs i (cmd # cmds) w =
     (case Dispatch (Some Publish) (envs i) cmd w of
        Panic \<Rightarrow> Panic
      | Ret (w', resp) \<Rightarrow> map_go (\<lambda>(w, rs). (w, resp # rs)) (execLoop envs (Suc i) cmds w'))"

definition execFrame :: "Response list \<Rightarrow> string" where
  "execFrame rs = ''*'' @ itoa (int (length rs)) @ CRLF @ concat (map Serialize rs)"

definition handleExec :: "(nat \<Rightarrow> Env) \<Rightarrow> hstate \<Rightarrow> (hstate \<times> string list) go" where
  "handleExec envs st =
     (let (h, w) = st
      in if \<not> inMulti h then Ret (st, [Serialize (Error ''ERR EXEC without MULTI'')])
         else if 0 < txErrors h then
           Ret ((endTx h, w),
             [Serialize (Error ''EXECABORT Transaction discarded because of previous errors.'')])
         else if watchDirty h w then Ret ((endTx h, w), [Serialize NullArray])
         else
           map_go (\<lambda>(w', rs). ((endTx h, w'), [execFrame rs])) (execLoop envs 0 (txQueue h) w))"

definition handleDiscard :: "Conn \<Rightarrow> Conn \<times> Response" where
  "handleDiscard h =
     (if \<not> inMulti h then (h, Error ''ERR DISCARD without MULTI'') else (endTx h, okReply))"

definition handleWatch :: "string list \<Rightarrow> hstate \<Rightarrow> Conn \<times> Response" where
  "handleWatch keys st =
     (let (h, w) = st
      in if inMulti h then (h, Error ''ERR WATCH inside MULTI is not allowed'')
         else if keys = [] then (h, wrongArgs ''watch'')
         else (h\<lparr>watchedKeys := fold (\<lambda>k. mput k (KeyVersion w k)) keys (watchedKeys h)\<rparr>, okReply))"

section \<open>Subscriptions\<close>

definition totalSubscriptions :: "Conn \<Rightarrow> int" where
  "totalSubscriptions h = int (length (subChans h)) + int (length (subPatterns h))"

definition ensureSubscriber :: "hstate \<Rightarrow> hstate" where
  "ensureSubscriber st =
     (let (h, w) = st
      in case sub h of
           Some _ \<Rightarrow> st
         | None \<Rightarrow>
             let x = nextSub (rpub w)
             in (h\<lparr>sub := Some x\<rparr>,
                 onBroker (\<lambda>b. b\<lparr>heap := (heap b)(x := NewSubscriber), nextSub := x + 1\<rparr>) w))"

definition subscribeOne :: "subAddr \<Rightarrow> string \<Rightarrow> hstate \<Rightarrow> hstate" where
  "subscribeOne x ch st =
     (let (h, w) = st
      in if map_of (subChans h) ch \<noteq> None then st
         else
           let w = onBroker (Subscribe ch x) w; h = h\<lparr>subChans := mput ch () (subChans h)\<rparr>
           in (h, sendSub x (EncodeSubscribeAck ch (totalSubscriptions h)) w))"

definition unsubscribeOne :: "subAddr \<Rightarrow> string \<Rightarrow> hstate \<Rightarrow> hstate" where
  "unsubscribeOne x ch st =
     (let (h, w) = st
      in if map_of (subChans h) ch = None then st
         else
           let w = onBroker (Unsubscribe ch x) w; h = h\<lparr>subChans := mdel ch (subChans h)\<rparr>
           in (h, sendSub x (EncodeUnsubscribeAck ch (totalSubscriptions h)) w))"

definition psubscribeOne :: "subAddr \<Rightarrow> string \<Rightarrow> hstate \<Rightarrow> hstate" where
  "psubscribeOne x pat st =
     (let (h, w) = st
      in if map_of (subPatterns h) pat \<noteq> None then st
         else
           let w = onBroker (PSubscribe pat x) w; h = h\<lparr>subPatterns := mput pat () (subPatterns h)\<rparr>
           in (h, sendSub x (EncodePSubscribeAck pat (totalSubscriptions h)) w))"

definition punsubscribeOne :: "subAddr \<Rightarrow> string \<Rightarrow> hstate \<Rightarrow> hstate" where
  "punsubscribeOne x pat st =
     (let (h, w) = st
      in if map_of (subPatterns h) pat = None then st
         else
           let w = onBroker (PUnsubscribe pat x) w; h = h\<lparr>subPatterns := mdel pat (subPatterns h)\<rparr>
           in (h, sendSub x (EncodePUnsubscribeAck pat (totalSubscriptions h)) w))"

definition handleSubscribe :: "string list \<Rightarrow> hstate \<Rightarrow> hstate" where
  "handleSubscribe chs st =
     (if \<not> hasBroker (fst st) then fst (respond (Serialize (Error ''ERR pub/sub not available'')) st)
      else if chs = [] then fst (respond (Serialize (wrongArgs ''subscribe'')) st)
      else let st = ensureSubscriber st in fold (subscribeOne (the (sub (fst st)))) chs st)"

text \<open>
  Without arguments the loop ranges over \<^verbatim>\<open>h.subChans\<close>, all of which are subscribed, so the two
  branches of the code differ in the list of channels only.
\<close>

definition handleUnsubscribe :: "string list \<Rightarrow> hstate \<Rightarrow> hstate" where
  "handleUnsubscribe chs st =
     (case sub (fst st) of
        None \<Rightarrow> st
      | Some x \<Rightarrow> fold (unsubscribeOne x) (if chs = [] then mkeys (subChans (fst st)) else chs) st)"

definition handlePSubscribe :: "string list \<Rightarrow> hstate \<Rightarrow> hstate" where
  "handlePSubscribe pats st =
     (if \<not> hasBroker (fst st) then fst (respond (Serialize (Error ''ERR pub/sub not available'')) st)
      else if pats = [] then fst (respond (Serialize (wrongArgs ''psubscribe'')) st)
      else let st = ensureSubscriber st in fold (psubscribeOne (the (sub (fst st)))) pats st)"

definition handlePUnsubscribe :: "string list \<Rightarrow> hstate \<Rightarrow> hstate" where
  "handlePUnsubscribe pats st =
     (case sub (fst st) of
        None \<Rightarrow> st
      | Some x \<Rightarrow> fold (punsubscribeOne x) (if pats = [] then mkeys (subPatterns (fst st)) else pats) st)"

definition cleanupSubscriptions :: "hstate \<Rightarrow> hstate" where
  "cleanupSubscriptions st =
     (let (h, w) = st
      in case sub h of
           None \<Rightarrow> st
         | Some x \<Rightarrow>
             (h, onBroker
                   (\<lambda>b. let b = (if hasBroker h then fst (PUnsubscribeAll x (fst (UnsubscribeAll x b))) else b)
                        in b\<lparr>heap := (heap b)(x := CloseSub (heap b x))\<rparr>) w))"

section \<open>The write loop\<close>

text \<open>
  One turn of \<^verbatim>\<open>writeLoop\<close>: the oldest message of the mailbox goes to the connection.  The loop
  returns when a write fails, or when the subscriber is closed and the mailbox is empty; while it
  drains a closed subscriber, write errors are ignored.
\<close>

definition writeTurn :: "hstate \<Rightarrow> hstate" where
  "writeTurn st =
     (let (h, w) = st
      in case sub h of
           None \<Rightarrow> st
         | Some x \<Rightarrow>
             let box = heap (rpub w) x
             in if writerDone h then st
                else
                  case inbox box of
                    [] \<Rightarrow> (if closedSub box then (h\<lparr>writerDone := True\<rparr>, w) else st)
                  | msg # rest \<Rightarrow>
                      (if \<not> broken h then h\<lparr>written := written h @ msg\<rparr>
                       else if closedSub box then h
                       else h\<lparr>writerDone := True\<rparr>,
                       onBroker (\<lambda>b. b\<lparr>heap := (heap b)(x := box\<lparr>inbox := rest\<rparr>)\<rparr>) w))"

section \<open>One command\<close>

text \<open>The result: the new state and whether the loop of \<^verbatim>\<open>serve\<close> goes on.\<close>

definition notAllowed :: Response where
  "notAllowed = Error ''ERR Command not allowed in subscription mode''"

definition serveCommand :: "(nat \<Rightarrow> Env) \<Rightarrow> string list \<Rightarrow> hstate \<Rightarrow> (hstate \<times> bool) go" where
  "serveCommand envs args st =
     (let (h, w) = st; name = toUpper (args ! 0)
      in if name = ''SUBSCRIBE'' then Ret (handleSubscribe (drop 1 args) st, True)
         else if name = ''UNSUBSCRIBE'' then Ret (handleUnsubscribe (drop 1 args) st, True)
         else if name = ''PSUBSCRIBE'' then Ret (handlePSubscribe (drop 1 args) st, True)
         else if name = ''PUNSUBSCRIBE'' then Ret (handlePUnsubscribe (drop 1 args) st, True)
         else if name = ''MULTI'' then
           (let (h, r) = handleMulti h in Ret (respond (Serialize r) (h, w)))
         else if name = ''EXEC'' then
           map_go (\<lambda>(st, parts). respondMany parts st) (handleExec envs st)
         else if name = ''DISCARD'' then
           (let (h, r) = handleDiscard h in Ret (respond (Serialize r) (h, w)))
         else if name = ''WATCH'' then
           (let (h, r) = handleWatch (drop 1 args) st in Ret (respond (Serialize r) (h, w)))
         else if name = ''UNWATCH'' then
           Ret (respond (Serialize okReply) (h\<lparr>watchedKeys := []\<rparr>, w))
         else if sub h \<noteq> None then Ret (fst (respond (Serialize notAllowed) st), True)
         else if inMulti h then
           Ret (respond (Serialize (SimpleString ''QUEUED'')) (h\<lparr>txQueue := txQueue h @ [args]\<rparr>, w))
         else
           case Dispatch (Some Publish) (envs 0) args w of
             Panic \<Rightarrow> Panic
           | Ret (w, resp) \<Rightarrow> Ret (respond (Serialize resp) (h, w)))"

section \<open>The command loop\<close>

text \<open>
  \<^verbatim>\<open>serve\<close> on the bytes the client sends before it closes its side: the loop ends on the first read
  error, and the deferred cleanup runs.  \<open>envs n\<close> is what the runtime supplies to the \<open>n\<close>-th command.
\<close>

function serve :: "(nat \<Rightarrow> nat \<Rightarrow> Env) \<Rightarrow> nat \<Rightarrow> string \<Rightarrow> hstate \<Rightarrow> hstate go" where
  "serve envs n stream st =
     (case ReadCommand stream of
        ReadPanic \<Rightarrow> Panic
      | Got args rest \<Rightarrow>
          (case serveCommand (envs n) args st of
             Panic \<Rightarrow> Panic
           | Ret (st', go_on) \<Rightarrow>
               if go_on then serve envs (Suc n) rest st' else Ret (cleanupSubscriptions st'))
      | _ \<Rightarrow> Ret (cleanupSubscriptions st))"
  by pat_completeness auto

termination
  by (relation "measure (\<lambda>(envs, n, stream, st). length stream)") (auto dest: ReadCommand_shorter)

declare serve.simps [simp del]

end
