(* ===== verification/Replay.thy ===== *)
theory Replay
  imports Router
begin

text \<open>
  Reconstruction of the store from the append-only file, \<^verbatim>\<open>internal/persistence/replay.go\<close>.

  \<open>applyCommand\<close> gives \<open>None\<close> where the code returns an error (always before it touches the store);
  the text of the error, which is only logged, is not modelled.  The errors of the store operations are
  ignored, as in the code.
\<close>

section \<open>One command\<close>

text \<open>\<^verbatim>\<open>count := 1; if len(args) == 3 { if n, err := Atoi(args[2]); err == nil { count = n } }\<close>\<close>

definition replayCount :: "string list \<Rightarrow> int" where
  "replayCount args =
     (if length args = 3 then (case ParseInt (args ! 2) of None \<Rightarrow> 1 | Some n \<Rightarrow> n) else 1)"

definition replayPExpireAt :: "gotime \<Rightarrow> string list \<Rightarrow> MemoryStore \<Rightarrow> MemoryStore option" where
  "replayPExpireAt now args s =
     (if length args \<noteq> 3 then None
      else
        case ParseInt (args ! 2) of
          None \<Rightarrow> None
        | Some absMs \<Rightarrow>
            let remaining = timeUntil now (timeUnixMilli absMs)
            in if remaining \<le> 0 then Some (fst (Del now [args ! 1] s))
               else Some (fst (Expire now (args ! 1) remaining s)))"

fun replayMembers :: "string list \<Rightarrow> ZMember list option" where
  "replayMembers (sc # m # rest) =
     (case ParseFloat sc of
        None \<Rightarrow> None
      | Some score \<Rightarrow> map_option (\<lambda>ms. \<lparr>Member = m, Score = score\<rparr> # ms) (replayMembers rest))"
| "replayMembers _ = Some []"

definition replayZAdd :: "gotime \<Rightarrow> string list \<Rightarrow> MemoryStore \<Rightarrow> MemoryStore option" where
  "replayZAdd now args s =
     (if length args < 4 then None
      else
        let (f, rest) =
              zaddOptions (drop 2 args) \<lparr>za_nx = False, za_xx = False, za_gt = False, za_lt = False, za_ch = False\<rparr>
        in if length rest mod 2 \<noteq> 0 then None
           else
             map_option
               (\<lambda>members. fst (ZAdd now (args ! 1) members (za_nx f) (za_xx f) (za_gt f) (za_lt f) (za_ch f) s))
               (replayMembers rest))"

definition replayZStore :: "bool \<Rightarrow> gotime \<Rightarrow> string list \<Rightarrow> MemoryStore \<Rightarrow> MemoryStore option go" where
  "replayZStore isInter now args s =
     (if length args < 4 then Ret None
      else
        case ParseInt (args ! 2) of
          None \<Rightarrow> Ret None
        | Some numkeys \<Rightarrow>
            let stop = wrap64 (3 + numkeys); keys = take (nat numkeys) (drop 3 args)
            in if numkeys < 1 \<or> int (length args) < stop then Ret None
               else if stop < 3 then Panic
               else Ret (Some (fst (if isInter then ZInterStore now (args ! 1) keys [] ''SUM'' s
                                    else ZUnionStore now (args ! 1) keys [] ''SUM'' s))))"

definition keepStore :: "(MemoryStore \<times> 'a) go \<Rightarrow> MemoryStore option go" where
  "keepStore = map_go (\<lambda>p. Some (fst p))"

definition applyStrings :: "gotime \<Rightarrow> string \<Rightarrow> string list \<Rightarrow> MemoryStore \<Rightarrow> MemoryStore option option" where
  "applyStrings now name args s =
     (if name = ''SET'' then
        Some (if length args \<noteq> 3 then None else Some (Set (args ! 1) (args ! 2) s))
      else if name = ''DEL'' then
        Some (if length args < 2 then None else Some (fst (Del now (drop 1 args) s)))
      else if name = ''MSET'' then
        Some (if length args < 3 \<or> length args mod 2 = 0 then None else Some (msetLoop (drop 1 args) s))
      else if name = ''APPEND'' then
        Some (if length args \<noteq> 3 then None
              else Some (Set (args ! 1)
                     ((case Get now (args ! 1) s of None \<Rightarrow> [] | Some v \<Rightarrow> v) @ args ! 2) s))
      else if name = ''PEXPIREAT'' then Some (replayPExpireAt now args s)
      else if name = ''PERSIST'' then
        Some (if length args \<noteq> 2 then None else Some (fst (Persist now (args ! 1) s)))
      else if name = ''HSET'' \<or> name = ''HMSET'' then
        Some (if length args < 4 \<or> (length args - 2) mod 2 \<noteq> 0 then None
              else Some (fst (HSet (args ! 1) (pairFields (drop 2 args) []) s)))
      else if name = ''HDEL'' then
        Some (if length args < 3 then None else Some (fst (HDel now (args ! 1) (drop 2 args) s)))
      else None)"

definition applyLists :: "gotime \<Rightarrow> string \<Rightarrow> string list \<Rightarrow> MemoryStore \<Rightarrow> MemoryStore option go option" where
  "applyLists now name args s =
     (let key = args ! 1
      in if name = ''LPUSH'' then
           Some (if length args < 3 then Ret None else Ret (Some (fst (LPush now key (drop 2 args) s))))
         else if name = ''RPUSH'' then
           Some (if length args < 3 then Ret None else Ret (Some (fst (RPush now key (drop 2 args) s))))
         else if name = ''LPUSHX'' then
           Some (if length args < 3 then Ret None
                 else if Type now key s = ''list'' then Ret (Some (fst (LPush now key (drop 2 args) s)))
                 else Ret (Some s))
         else if name = ''RPUSHX'' then
           Some (if length args < 3 then Ret None
                 else if Type now key s = ''list'' then Ret (Some (fst (RPush now key (drop 2 args) s)))
                 else Ret (Some s))
         else if name = ''LPOP'' then
           Some (if length args < 2 then Ret None else keepStore (LPop now key (replayCount args) s))
         else if name = ''RPOP'' then
           Some (if length args < 2 then Ret None else keepStore (RPop now key (replayCount args) s))
         else if name = ''LSET'' then
           Some (if length args \<noteq> 4 then Ret None
                 else case ParseInt (args ! 2) of
                        None \<Rightarrow> Ret None
                      | Some idx \<Rightarrow> Ret (Some (fst (LSet now key idx (args ! 3) s))))
         else if name = ''LINSERT'' then
           Some (if length args \<noteq> 5 then Ret None
                 else Ret (Some (fst (LInsert now key (toUpper (args ! 2) = ''BEFORE'') (args ! 3) (args ! 4) s))))
         else if name = ''LTRIM'' then
           Some (if length args \<noteq> 4 then Ret None
                 else case (ParseInt (args ! 2), ParseInt (args ! 3)) of
                        (Some start, Some stop) \<Rightarrow> Ret (Some (fst (LTrim now key start stop s)))
                      | _ \<Rightarrow> Ret None)
         else if name = ''LREM'' then
           Some (if length args \<noteq> 4 then Ret None
                 else case ParseInt (args ! 2) of
                        None \<Rightarrow> Ret None
                      | Some cnt \<Rightarrow> Ret (Some (fst (LRem now key cnt (args ! 3) s))))
         else if name = ''LMOVE'' then
           Some (if length args \<noteq> 5 then Ret None
                 else Ret (Some (fst (LMove now key (args ! 2)
                        (toUpper (args ! 3) = ''LEFT'') (toUpper (args ! 4) = ''LEFT'') s))))
         else if name = ''RPOPLPUSH'' then
           Some (if length args \<noteq> 3 then Ret None
                 else Ret (Some (fst (LMove now key (args ! 2) False True s))))
         else None)"

definition applySets :: "(nat \<Rightarrow> nat) \<Rightarrow> gotime \<Rightarrow> string \<Rightarrow> string list \<Rightarrow> MemoryStore
    \<Rightarrow> MemoryStore option go option" where
  "applySets rnd now name args s =
     (let key = args ! 1
      in if name = ''SADD'' then
           Some (if length args < 3 then Ret None else Ret (Some (fst (SAdd now key (drop 2 args) s))))
         else if name = ''SREM'' then
           Some (if length args < 3 then Ret None else Ret (Some (fst (SRem now key (drop 2 args) s))))
         else if name = ''SINTERSTORE'' then
           Some (if length args < 3 then Ret None else Ret (Some (fst (SInterStore now key (drop 2 args) s))))
         else if name = ''SUNIONSTORE'' then
           Some (if length args < 3 then Ret None else Ret (Some (fst (SUnionStore now key (drop 2 args) s))))
         else if name = ''SDIFFSTORE'' then
           Some (if length args < 3 then Ret None else Ret (Some (fst (SDiffStore now key (drop 2 args) s))))
         else if name = ''SMOVE'' then
           Some (if length args \<noteq> 4 then Ret None
                 else Ret (Some (fst (SMove now key (args ! 2) (args ! 3) s))))
         else if name = ''SPOP'' then
           Some (if length args < 2 then Ret None else keepStore (SPop rnd now key (replayCount args) s))
         else None)"

definition applyZSets :: "gotime \<Rightarrow> string \<Rightarrow> string list \<Rightarrow> MemoryStore \<Rightarrow> MemoryStore option go option" where
  "applyZSets now name args s =
     (let key = args ! 1
      in if name = ''ZADD'' then Some (Ret (replayZAdd now args s))
         else if name = ''ZREM'' then
           Some (if length args < 3 then Ret None else Ret (Some (fst (ZRem now key (drop 2 args) s))))
         else if name = ''ZINCRBY'' then
           Some (if length args \<noteq> 4 then Ret None
                 else Ret (map_option (\<lambda>incr. fst (ZIncrBy now key incr (args ! 3) s)) (ParseFloat (args ! 2))))
         else if name = ''ZUNIONSTORE'' then Some (replayZStore False now args s)
         else if name = ''ZINTERSTORE'' then Some (replayZStore True now args s)
         else if name = ''ZPOPMIN'' then
           Some (if length args < 2 then Ret None else keepStore (ZPopMin now key (replayCount args) s))
         else if name = ''ZPOPMAX'' then
           Some (if length args < 2 then Ret None else keepStore (ZPopMax now key (replayCount args) s))
         else None)"

definition applyCommand :: "(nat \<Rightarrow> nat) \<Rightarrow> gotime \<Rightarrow> string list \<Rightarrow> MemoryStore \<Rightarrow> MemoryStore option go" where
  "applyCommand rnd now args s =
     (if args = [] then Ret None
      else
        let name = toUpper (args ! 0)
        in case applyStrings now name args s of
             Some r \<Rightarrow> Ret r
           | None \<Rightarrow>
               case applyLists now name args s of
                 Some r \<Rightarrow> r
               | None \<Rightarrow>
                   case applySets rnd now name args s of
                     Some r \<Rightarrow> r
                   | None \<Rightarrow>
                       case applyZSets now name args s of
                         Some r \<Rightarrow> r
                       | None \<Rightarrow>
                           if name = ''FLUSHDB'' \<or> name = ''FLUSHALL'' then Ret (Some (Flush s))
                           else Ret None)"

section \<open>The whole file\<close>

text \<open>
  The result: the store, the number of commands replayed and whether it ended without an error.
  The clock and the random source are read anew for each command: \<open>env i\<close> serves the \<open>i\<close>-th.
\<close>

function replayLoop :: "(nat \<Rightarrow> Env) \<Rightarrow> nat \<Rightarrow> string \<Rightarrow> MemoryStore \<Rightarrow> (MemoryStore \<times> nat \<times> bool) go" where
  "replayLoop env n file s =
     (case ReadCommand file of
        Fail e \<Rightarrow> Ret (s, n, e = EOF)
      | ReadPanic \<Rightarrow> Panic
      | NoFuel \<Rightarrow> Ret (s, n, False)
      | Got args rest \<Rightarrow>
          (case applyCommand (draws (env n)) (clock (env n)) args s of
             Panic \<Rightarrow> Panic
           | Ret None \<Rightarrow> Ret (s, n, False)
           | Ret (Some s') \<Rightarrow> replayLoop env (Suc n) rest s'))"
  by pat_completeness auto

termination
  by (relation "measure (\<lambda>(env, n, file, s). length file)") (auto dest: ReadCommand_shorter)

declare replayLoop.simps [simp del]

text \<open>\<open>None\<close> is a file that does not exist.\<close>

definition Replay :: "(nat \<Rightarrow> Env) \<Rightarrow> string option \<Rightarrow> MemoryStore \<Rightarrow> (MemoryStore \<times> nat \<times> bool) go" where
  "Replay env file s =
     (case file of
        None \<Rightarrow> Ret (s, 0, True)
      | Some f \<Rightarrow> replayLoop env 0 f (Flush s))"

end
