(* ===== verification/Durability.thy ===== *)
theory Durability
  imports Replay
begin

text \<open>
  What a restart restores: the store after a sequence of commands against the store that
  \<^verbatim>\<open>Replay\<close> rebuilds from the records \<^verbatim>\<open>appendToAOF\<close> has written for them.

  A store is \<open>timeless\<close> when no key has a deadline.  On such a store no operation depends on the clock,
  so a record means the same when it is replayed later.
\<close>

named_theorems timeless_ops "operations of a timeless store, at the time 0"
named_theorems timeless_intros "operations that keep a store timeless"

section \<open>Stores without deadlines\<close>

definition timeless :: "MemoryStore \<Rightarrow> bool" where
  "timeless s \<longleftrightarrow>
     keyExpiry s = [] \<and> (\<forall>k e. map_of (strings s) k = Some e \<longrightarrow> expiresAt e = zeroTime)"

definition tagAt :: "string \<Rightarrow> MemoryStore \<Rightarrow> tag" where
  "tagAt key s =
     (if map_of (strings s) key \<noteq> None then TString
      else if map_of (hashes s) key \<noteq> None then THash
      else if map_of (lists s) key \<noteq> None then TList
      else if map_of (sets s) key \<noteq> None then TSet
      else if map_of (zsets s) key \<noteq> None then TZSet
      else NoKey)"

lemma typeOf_timeless: "timeless s \<Longrightarrow> typeOf now k s = tagAt k s"
  by (auto simp: timeless_def typeOf_def tagAt_def expired_def keyExpiredNonStr_def split: option.split)

lemma hashOf_timeless: "timeless s \<Longrightarrow> hashOf now k s = map_of (hashes s) k"
  by (simp add: timeless_def hashOf_def keyExpiredNonStr_def split: option.split)

lemma Get_timeless: "timeless s \<Longrightarrow> Get now k s = map_option str_value (map_of (strings s) k)"
  by (auto simp: timeless_def Get_def expired_def split: option.split)

lemma Type_timeless: "timeless s \<Longrightarrow> Type now k s = (if tagAt k s = NoKey then ''none'' else tagName (tagAt k s))"
  by (simp add: Type_def typeOf_timeless)

lemma HGet_timeless: "timeless s \<Longrightarrow> HGet now k f s = Option.bind (map_of (hashes s) k) (\<lambda>h. map_of h f)"
  by (simp add: HGet_def hashOf_timeless split: option.split)

lemmas timeless_reads = typeOf_timeless hashOf_timeless Get_timeless Type_timeless HGet_timeless

lemma timeless_bump [simp]: "timeless (bumpVersion k s) \<longleftrightarrow> timeless s"
  by (simp add: timeless_def bumpVersion_def)

lemma timeless_deleteKey [simp, timeless_intros]: "timeless s \<Longrightarrow> timeless (deleteKey k s)"
  by (auto simp: timeless_def deleteKey_def split: if_splits)

lemma timeless_updates [simp]:
  "timeless (s\<lparr>hashes := a\<rparr>) \<longleftrightarrow> timeless s" "timeless (s\<lparr>lists := b\<rparr>) \<longleftrightarrow> timeless s"
  "timeless (s\<lparr>sets := c\<rparr>) \<longleftrightarrow> timeless s" "timeless (s\<lparr>zsets := d\<rparr>) \<longleftrightarrow> timeless s"
  "timeless (s\<lparr>keyVersion := v\<rparr>) \<longleftrightarrow> timeless s"
  "timeless s \<Longrightarrow> timeless (s\<lparr>keyExpiry := mdel k (keyExpiry s)\<rparr>)"
  "timeless s \<Longrightarrow> timeless (s\<lparr>lists := b, keyExpiry := mdel k (keyExpiry s)\<rparr>)"
  by (simp_all add: timeless_def)

lemma timeless_Set [simp, timeless_intros]: "timeless s \<Longrightarrow> timeless (Set k v s)"
  by (auto simp: timeless_def Set_def deleteKey_def bumpVersion_def Let_def split: if_splits)

lemma timeless_Flush [simp, timeless_intros]: "timeless (Flush s)"
  by (simp add: timeless_def Flush_def)

lemma timeless_empty [simp]: "timeless NewMemoryStore"
  by (simp add: timeless_def NewMemoryStore_def)

section \<open>Operations on a timeless store\<close>

lemma Del_timeless [timeless_ops]: "NO_MATCH 0 now \<Longrightarrow> timeless s \<Longrightarrow> Del now ks s = Del 0 ks s"
proof -
  have "timeless s \<Longrightarrow> Del now ks s = Del 0 ks s" for now
    by (induction ks arbitrary: s) (simp_all add: typeOf_timeless)
  then show "timeless s \<Longrightarrow> ?thesis" .
qed

lemma timeless_Del [timeless_intros]: "timeless s \<Longrightarrow> timeless (fst (Del now ks s))"
  by (induction ks arbitrary: s) (simp_all add: typeOf_timeless case_prod_beta)

lemma hash_timeless [timeless_ops]:
  "NO_MATCH 0 now \<Longrightarrow> timeless s \<Longrightarrow> HDel now k fs s = HDel 0 k fs s"
  "NO_MATCH 0 now \<Longrightarrow> timeless s \<Longrightarrow> Persist now k s = Persist 0 k s"
  by (auto simp: HDel_def Persist_def timeless_reads expired_def timeless_def split: option.split)

lemma list_timeless [timeless_ops]:
  "NO_MATCH 0 now \<Longrightarrow> timeless s \<Longrightarrow> LPush now k vs s = LPush 0 k vs s"
  "NO_MATCH 0 now \<Longrightarrow> timeless s \<Longrightarrow> RPush now k vs s = RPush 0 k vs s"
  "NO_MATCH 0 now \<Longrightarrow> timeless s \<Longrightarrow> LPop now k n s = LPop 0 k n s"
  "NO_MATCH 0 now \<Longrightarrow> timeless s \<Longrightarrow> RPop now k n s = RPop 0 k n s"
  "NO_MATCH 0 now \<Longrightarrow> timeless s \<Longrightarrow> LSet now k i v s = LSet 0 k i v s"
  "NO_MATCH 0 now \<Longrightarrow> timeless s \<Longrightarrow> LInsert now k b p v s = LInsert 0 k b p v s"
  "NO_MATCH 0 now \<Longrightarrow> timeless s \<Longrightarrow> LRem now k n v s = LRem 0 k n v s"
  "NO_MATCH 0 now \<Longrightarrow> timeless s \<Longrightarrow> LTrim now k i j s = LTrim 0 k i j s"
  "NO_MATCH 0 now \<Longrightarrow> timeless s \<Longrightarrow> LMove now k d a b s = LMove 0 k d a b s"
  by (simp_all add: LPush_def RPush_def LPop_def RPop_def LSet_def LInsert_def LRem_def LTrim_def LMove_def
      getList_def typeOf_timeless)

lemma unionLoop_timeless: "timeless s \<Longrightarrow> unionLoop now ks s acc = unionLoop 0 ks s acc"
  by (induction ks arbitrary: acc) (simp_all add: getSet_def typeOf_timeless Let_def split: sum.split)

lemma inAll_timeless: "timeless s \<Longrightarrow> inAll now m ks s = inAll 0 m ks s"
  by (induction ks) (simp_all add: getSet_def typeOf_timeless Let_def split: sum.split)

lemma inOther_timeless: "timeless s \<Longrightarrow> inOther now m ks s = inOther 0 m ks s"
  by (induction ks) (simp_all add: getSet_def typeOf_timeless Let_def split: sum.split)

lemma setalg_timeless:
  assumes "timeless s"
  shows "setUnion now ks s = setUnion 0 ks s" "setInter now ks s = setInter 0 ks s" "setDiff now ks s = setDiff 0 ks s"
  unfolding setUnion_def setInter_def setDiff_def getSet_def typeOf_timeless [OF assms]
    unionLoop_timeless [OF assms, of now] inAll_timeless [OF assms, of now] inOther_timeless [OF assms, of now]
  by (rule refl)+

lemma set_timeless [timeless_ops]:
  "NO_MATCH 0 now \<Longrightarrow> timeless s \<Longrightarrow> SAdd now k vs s = SAdd 0 k vs s"
  "NO_MATCH 0 now \<Longrightarrow> timeless s \<Longrightarrow> SRem now k vs s = SRem 0 k vs s"
  "NO_MATCH 0 now \<Longrightarrow> timeless s \<Longrightarrow> SMove now k d m s = SMove 0 k d m s"
  by (simp_all add: SAdd_def SRem_def SMove_def getSet_def typeOf_timeless)

lemma setstore_timeless [timeless_ops]:
  "NO_MATCH 0 now \<Longrightarrow> timeless s \<Longrightarrow> SInterStore now k ks s = SInterStore 0 k ks s"
  "NO_MATCH 0 now \<Longrightarrow> timeless s \<Longrightarrow> SUnionStore now k ks s = SUnionStore 0 k ks s"
  "NO_MATCH 0 now \<Longrightarrow> timeless s \<Longrightarrow> SDiffStore now k ks s = SDiffStore 0 k ks s"
  unfolding SInterStore_def SUnionStore_def SDiffStore_def
  using setalg_timeless [of s now ks] by simp_all

lemma zset_timeless [timeless_ops]:
  "NO_MATCH 0 now \<Longrightarrow> timeless s \<Longrightarrow> ZAdd now k ms nx xx gt lt ch s = ZAdd 0 k ms nx xx gt lt ch s"
  "NO_MATCH 0 now \<Longrightarrow> timeless s \<Longrightarrow> ZRem now k vs s = ZRem 0 k vs s"
  "NO_MATCH 0 now \<Longrightarrow> timeless s \<Longrightarrow> ZIncrBy now k d m s = ZIncrBy 0 k d m s"
  "NO_MATCH 0 now \<Longrightarrow> timeless s \<Longrightarrow> ZPopMin now k n s = ZPopMin 0 k n s"
  "NO_MATCH 0 now \<Longrightarrow> timeless s \<Longrightarrow> ZPopMax now k n s = ZPopMax 0 k n s"
  by (simp_all add: ZAdd_def ZRem_def ZIncrBy_def ZPopMin_def ZPopMax_def getZSet_def typeOf_timeless)

lemma timeless_helpers [simp]:
  "timeless s \<Longrightarrow> timeless (storeList k l s)" "timeless s \<Longrightarrow> timeless (storeSet k st s)"
  "timeless s \<Longrightarrow> timeless (storeScores k sc s)" "timeless s \<Longrightarrow> timeless (fst (storeResult k r s))"
  by (auto simp: storeList_def storeSet_def storeScores_def storeResult_def timeless_def deleteKey_def bumpVersion_def Let_def
      split: if_splits sum.split)

lemma timeless_hash [timeless_intros]:
  "timeless s \<Longrightarrow> timeless (fst (HSet k fs s))" "timeless s \<Longrightarrow> timeless (fst (HDel now k gs s))"
  "timeless s \<Longrightarrow> timeless (fst (Persist now k s))"
  by (auto simp: HSet_def HDel_def Persist_def timeless_def bumpVersion_def Let_def
      split: if_splits option.splits prod.splits)

lemma timeless_list [timeless_intros]:
  "timeless s \<Longrightarrow> timeless (fst (LPush now k vs s))" "timeless s \<Longrightarrow> timeless (fst (RPush now k vs s))"
  "timeless s \<Longrightarrow> timeless (fst (LSet now k i v s))" "timeless s \<Longrightarrow> timeless (fst (LInsert now k b p v s))"
  "timeless s \<Longrightarrow> timeless (fst (LRem now k n v s))" "timeless s \<Longrightarrow> timeless (fst (LTrim now k i j s))"
  "timeless s \<Longrightarrow> timeless (fst (LMove now k d a c s))"
  by (auto simp: LPush_def RPush_def LSet_def LInsert_def LRem_def LTrim_def LMove_def Let_def
      split: if_splits option.splits prod.splits sum.splits)

lemma timeless_pop [timeless_intros]:
  "timeless s \<Longrightarrow> LPop now k n s = Ret p \<Longrightarrow> timeless (fst p)"
  "timeless s \<Longrightarrow> RPop now k n s = Ret p \<Longrightarrow> timeless (fst p)"
  "timeless s \<Longrightarrow> ZPopMin now k n s = Ret q \<Longrightarrow> timeless (fst q)"
  "timeless s \<Longrightarrow> ZPopMax now k n s = Ret q \<Longrightarrow> timeless (fst q)"
  by (auto simp: LPop_def RPop_def ZPopMin_def ZPopMax_def popMembers_def Let_def
      split: if_splits option.splits sum.splits)

lemma timeless_set [timeless_intros]:
  "timeless s \<Longrightarrow> timeless (fst (SAdd now k vs s))" "timeless s \<Longrightarrow> timeless (fst (SRem now k vs s))"
  "timeless s \<Longrightarrow> timeless (fst (SMove now k d m s))" "timeless s \<Longrightarrow> timeless (fst (SInterStore now k ks s))"
  "timeless s \<Longrightarrow> timeless (fst (SUnionStore now k ks s))" "timeless s \<Longrightarrow> timeless (fst (SDiffStore now k ks s))"
  by (auto simp: SAdd_def SRem_def SMove_def SInterStore_def SUnionStore_def SDiffStore_def Let_def
      split: if_splits option.splits prod.splits sum.splits)

lemma timeless_zset [timeless_intros]:
  "timeless s \<Longrightarrow> timeless (fst (ZAdd now k ms nx xx gt lt ch s))" "timeless s \<Longrightarrow> timeless (fst (ZRem now k vs s))"
  "timeless s \<Longrightarrow> timeless (fst (ZIncrBy now k d m s))"
  by (auto simp: ZAdd_def ZRem_def ZIncrBy_def Let_def split: if_splits option.splits prod.splits sum.splits)

lemma timeless_mset [timeless_intros]: "timeless s \<Longrightarrow> timeless (msetLoop kvs s)"
  by (induction kvs s rule: msetLoop.induct) auto

section \<open>Records that replay exactly\<close>

text \<open>
  A successful run of the handler on a timeless store either logs nothing and changes nothing, or
  logs one record whose replay, at any time and with any random source, gives the same store.
\<close>

definition redoes :: "(string list \<Rightarrow> bool) \<Rightarrow> string \<Rightarrow> handler \<Rightarrow> bool" where
  "redoes P name h \<longleftrightarrow>
     (\<forall>env args s s' r rnd now.
        args \<noteq> [] \<longrightarrow> toUpper (args ! 0) = name \<longrightarrow> P args \<longrightarrow> timeless s \<longrightarrow>
        h env args s = Ret (s', r) \<longrightarrow> \<not> isError r \<longrightarrow>
        timeless s' \<and>
        (appendToAOF (clock env) name args r s' = [] \<and> s' = s \<or>
         (\<exists>rec. appendToAOF (clock env) name args r s' = [rec] \<and> applyCommand rnd now rec s = Ret (Some s'))))"

lemma redoesI:
  assumes "\<And>env args s s' r rnd now.
      \<lbrakk>args \<noteq> []; toUpper (args ! 0) = name; P args; timeless s; h env args s = Ret (s', r); \<not> isError r\<rbrakk>
      \<Longrightarrow> timeless s' \<and>
        (appendToAOF (clock env) name args r s' = [] \<and> s' = s \<or>
         (\<exists>rec. appendToAOF (clock env) name args r s' = [rec] \<and> applyCommand rnd now rec s = Ret (Some s')))"
  shows "redoes P name h"
  unfolding redoes_def using assms by blast

lemma redoes_verbatim:
  assumes "name \<in> set verbatimNames"
    and "\<And>env args s s' r rnd now.
      \<lbrakk>args \<noteq> []; toUpper (args ! 0) = name; P args; timeless s; h env args s = Ret (s', r); \<not> isError r\<rbrakk>
      \<Longrightarrow> timeless s' \<and> applyCommand rnd now args s = Ret (Some s')"
  shows "redoes P name h"
  using assms by (simp add: redoes_def appendToAOF_def)

lemma redoes_read: "name \<in> set readNames \<Longrightarrow> readonly h \<Longrightarrow> redoes P name h"
  by (auto simp: redoes_def readNames_unlogged dest: readonlyD)

lemma replyOf_Ret: "replyOf z f p = Ret (s', r) \<longleftrightarrow> s' = fst p \<and> r = orWrongType z f (snd p)"
  by (auto simp: replyOf_def)

lemmas apply_defs = applyCommand_def applyStrings_def applyLists_def applySets_def applyZSets_def Let_def

lemmas redo_simps = verbatimNames_def replyOf_Ret apply_defs timeless_ops timeless_intros timeless_reads

lemma redoes_strings:
  "redoes P ''DEL'' handleDel" "redoes P ''MSET'' handleMSet" "redoes P ''APPEND'' handleAppend"
  "redoes P ''PERSIST'' handlePersist" "redoes P ''FLUSHDB'' handleFlushDB" "redoes P ''FLUSHALL'' handleFlushAll"
  by (rule redoes_verbatim;
      auto simp: string_write_defs server_write_defs redo_simps case_prod_beta split: if_splits option.splits)+

lemma redoes_hashes:
  "redoes P ''HSET'' handleHSet" "redoes P ''HMSET'' handleHSet" "redoes P ''HDEL'' handleHDel"
  by (rule redoes_verbatim; auto simp: hash_write_defs redo_simps case_prod_beta split: if_splits)+

lemma redoes_lists:
  "redoes P ''LPUSH'' handleLPush" "redoes P ''RPUSH'' handleRPush" "redoes P ''LPUSHX'' handleLPushX"
  "redoes P ''RPUSHX'' handleRPushX"
  by (rule redoes_verbatim; auto simp: list_write_defs redo_simps split: if_splits)+

lemma redoes_list_edits:
  "redoes P ''LSET'' handleLSet" "redoes P ''LINSERT'' handleLInsert" "redoes P ''LTRIM'' handleLTrim"
  by (rule redoes_verbatim; auto simp: list_write_defs redo_simps case_prod_beta split: if_splits option.splits sum.splits)+

lemma redoes_sets:
  "redoes P ''SADD'' handleSAdd" "redoes P ''SREM'' handleSRem" "redoes P ''SINTERSTORE'' handleSInterStore"
  "redoes P ''SUNIONSTORE'' handleSUnionStore" "redoes P ''SDIFFSTORE'' handleSDiffStore" "redoes P ''SMOVE'' handleSMove"
  by (rule redoes_verbatim; auto simp: set_write_defs redo_simps split: if_splits)+

lemma redoes_ZREM: "redoes P ''ZREM'' handleZRem"
  by (rule redoes_verbatim) (auto simp: zset_write_defs redo_simps split: if_splits)

text \<open>Commands with an argument condition, or logged in another form than they are given.\<close>

lemma apply_records:
  "applyCommand rnd now [''SET'', k, v] s = Ret (Some (Set k v s))"
  "applyCommand rnd now [''DEL'', k] s = Ret (Some (fst (Del now [k] s)))"
  "applyCommand rnd now [''HSET'', k, f, v] s = Ret (Some (fst (HSet k [(f, v)] s)))"
proof -
  have up: "toUpper ''SET'' = ''SET''" "toUpper ''DEL'' = ''DEL''" "toUpper ''HSET'' = ''HSET''" by code_simp+
  show "applyCommand rnd now [''SET'', k, v] s = Ret (Some (Set k v s))"
    "applyCommand rnd now [''DEL'', k] s = Ret (Some (fst (Del now [k] s)))"
    "applyCommand rnd now [''HSET'', k, f, v] s = Ret (Some (fst (HSet k [(f, v)] s)))"
    by (simp_all add: applyCommand_def applyStrings_def up del: toUpper.simps Del.simps)
qed

lemma SetAdv_plain:
  "fst (SetAdv now k v 0 noOpts s) = Set k v s" "snd (snd (snd (SetAdv now k v 0 noOpts s)))"
  by (auto simp: SetAdv_def Set_def noOpts_def Let_def split: prod.split option.split)

lemma redoes_SET: "redoes (\<lambda>args. length args = 3) ''SET'' handleSet"
  by (rule redoes_verbatim)
    (auto simp: verbatimNames_def handleSet_def apply_defs case_prod_beta SetAdv_plain split: if_splits)

lemmas record_simps = appendToAOF_def verbatimNames_def apply_records timeless_ops timeless_intros timeless_reads Let_def

lemma redoes_SETNX: "redoes P ''SETNX'' handleSetNX"
  by (rule redoesI) (auto simp: handleSetNX_def record_simps split: if_splits option.splits)

lemma redoes_GETSET: "redoes P ''GETSET'' handleGetSet"
  by (rule redoesI) (auto simp: handleGetSet_def record_simps split: if_splits option.splits)

lemma redoes_GETDEL: "redoes P ''GETDEL'' handleGetDel"
  by (rule redoesI) (auto simp: handleGetDel_def record_simps simp del: Del.simps split: if_splits option.splits)

lemma incrBy_Ret:
  "incrBy env k d s = Ret (s', r) \<Longrightarrow> \<not> isError r \<Longrightarrow> s' = Set k (FormatInt (respInteger r)) s"
  by (auto simp: incrBy_def Let_def split: option.splits if_splits)

lemma redoes_counters:
  "redoes P ''INCR'' handleIncr" "redoes P ''INCRBY'' handleIncrBy" "redoes P ''DECR'' handleDecr"
  "redoes P ''DECRBY'' handleDecrBy"
  by (rule redoesI; auto simp: handleIncr_def handleIncrBy_def handleDecr_def handleDecrBy_def record_simps
      dest!: incrBy_Ret split: if_splits option.splits)+

lemma redoes_floats:
  "redoes P ''INCRBYFLOAT'' handleIncrByFloat" "redoes P ''HINCRBYFLOAT'' handleHIncrByFloat"
  "redoes P ''HINCRBY'' handleHIncrBy"
  by (rule redoesI; auto simp: handleIncrByFloat_def handleHIncrByFloat_def handleHIncrBy_def formatInt64_def record_simps
      split: if_splits option.splits)+

lemma popCount_replay: "popCount args = Some n \<Longrightarrow> replayCount args = n"
  by (auto simp: popCount_def replayCount_def split: if_splits option.splits)

text \<open>A pop that is answered with a null reply has taken nothing.\<close>

lemma LPop_null:
  "LPop now k n s = Ret (s', Inr v) \<Longrightarrow> v = None \<or> v = Some [] \<and> n = 1 \<Longrightarrow> s' = s"
  "RPop now k n s = Ret (s', Inr v) \<Longrightarrow> v = None \<or> v = Some [] \<and> n = 1 \<Longrightarrow> s' = s"
  by (auto simp: LPop_def RPop_def Let_def split: sum.splits if_splits)

lemma popReply_null:
  "popReply (length args = 3) v = NullBulkString \<Longrightarrow> popCount args = Some n \<Longrightarrow> v = None \<or> v = Some [] \<and> n = 1"
  by (auto simp: popReply_def oneOrAll_def popCount_def bulkArray_def split: option.splits if_splits)

lemma popReply_not_NullArray: "popReply c v \<noteq> NullArray"
  by (auto simp: popReply_def oneOrAll_def bulkArray_def split: option.splits)

lemma pop_errors:
  "LPop now k n s \<noteq> Ret (s', Inl (Errorf m))" "RPop now k n s \<noteq> Ret (s', Inl (Errorf m))"
  by (auto simp: LPop_def RPop_def getList_def Let_def split: if_splits)

lemma pop_redo:
  assumes "\<not> isError (orWrongType None (popReply (length args = 3)) res)" and "popCount args = Some n"
    and "\<And>m. res \<noteq> Inl (Errorf m)"
  obtains v where "res = Inr v" "orWrongType None (popReply (length args = 3)) res = popReply (length args = 3) v"
  using assms by (auto simp: orWrongType_def split: sum.splits error.splits)

lemma redoes_LPOP: "redoes P ''LPOP'' handleLPop"
proof (rule redoesI)
  fix env args s s' r rnd now
  assume args: "args \<noteq> []" "toUpper (args ! 0) = ''LPOP''" and s: "timeless s"
    and run: "handleLPop env args s = Ret (s', r)" and ok: "\<not> isError r"
  then obtain n res where n: "popCount args = Some n" and len: "2 \<le> length args"
    and pop: "LPop (clock env) (args ! 1) n s = Ret (s', res)" and r: "r = orWrongType None (popReply (length args = 3)) res"
    by (auto simp: handleLPop_def replyOf_def split: if_splits option.splits go.splits)
  obtain v where v: "res = Inr v" "r = popReply (length args = 3) v"
    using pop_redo [of args res n] n ok pop pop_errors r by metis
  have redo: "applyCommand rnd now args s = Ret (Some s')"
    using args len s pop popCount_replay [OF n] by (simp add: apply_defs timeless_ops keepStore_def)
  have "s' = s" if "r = NullBulkString" using LPop_null(1) popReply_null n that v pop by metis
  then show "timeless s' \<and> (appendToAOF (clock env) ''LPOP'' args r s' = [] \<and> s' = s \<or>
      (\<exists>rec. appendToAOF (clock env) ''LPOP'' args r s' = [rec] \<and> applyCommand rnd now rec s = Ret (Some s')))"
    using redo timeless_pop(1) [OF s pop] v popReply_not_NullArray by (auto simp: appendToAOF_def verbatimNames_def)
qed

lemma redoes_RPOP: "redoes P ''RPOP'' handleRPop"
proof (rule redoesI)
  fix env args s s' r rnd now
  assume args: "args \<noteq> []" "toUpper (args ! 0) = ''RPOP''" and s: "timeless s"
    and run: "handleRPop env args s = Ret (s', r)" and ok: "\<not> isError r"
  then obtain n res where n: "popCount args = Some n" and len: "2 \<le> length args"
    and pop: "RPop (clock env) (args ! 1) n s = Ret (s', res)" and r: "r = orWrongType None (popReply (length args = 3)) res"
    by (auto simp: handleRPop_def replyOf_def split: if_splits option.splits go.splits)
  obtain v where v: "res = Inr v" "r = popReply (length args = 3) v"
    using pop_redo [of args res n] n ok pop pop_errors r by metis
  have redo: "applyCommand rnd now args s = Ret (Some s')"
    using args len s pop popCount_replay [OF n] by (simp add: apply_defs timeless_ops keepStore_def)
  have "s' = s" if "r = NullBulkString" using LPop_null(2) popReply_null n that v pop by metis
  then show "timeless s' \<and> (appendToAOF (clock env) ''RPOP'' args r s' = [] \<and> s' = s \<or>
      (\<exists>rec. appendToAOF (clock env) ''RPOP'' args r s' = [rec] \<and> applyCommand rnd now rec s = Ret (Some s')))"
    using redo timeless_pop(2) [OF s pop] v popReply_not_NullArray by (auto simp: appendToAOF_def verbatimNames_def)
qed

lemma LMove_outcome:
  assumes "\<not> isError (orWrongType None bulkOrNull (snd (LMove now k d a b s)))"
    and "orWrongType None bulkOrNull (snd (LMove now k d a b s)) = NullBulkString"
  shows "fst (LMove now k d a b s) = s"
  using assms by (auto simp: LMove_def orWrongType_def bulkOrNull_def Let_def split: if_splits prod.splits)

lemma redoes_LMOVE: "redoes P ''LMOVE'' handleLMove"
  by (rule redoesI)
    (auto simp: handleLMove_def endOf_def appendToAOF_def redo_simps LMove_outcome split: if_splits option.splits)

lemma redoes_RPOPLPUSH: "redoes P ''RPOPLPUSH'' handleRPopLPush"
  by (rule redoesI)
    (auto simp: handleRPopLPush_def appendToAOF_def redo_simps LMove_outcome split: if_splits option.splits)

lemma LRem_outcome:
  assumes "\<not> 0 < respInteger (orWrongType 0 Integer (snd (LRem now k n v s)))"
  shows "fst (LRem now k n v s) = s"
  using assms by (auto simp: LRem_def orWrongType_def Let_def split: if_splits prod.splits sum.splits error.splits)

lemma redoes_LREM: "redoes P ''LREM'' handleLRem"
  by (rule redoesI)
    (auto simp: handleLRem_def appendToAOF_def redo_simps LRem_outcome split: if_splits option.splits)

lemma respArray_membersReply: "respArray (membersReply ms) = [] \<longleftrightarrow> ms = []"
  by (cases ms) (simp_all add: membersReply_def bulkArray_def)

lemma sortedMembers_Nil: "sortedMembers z = [] \<longleftrightarrow> scores z = []"
proof -
  have "length (sortedMembers z) = length (scores z)" by (simp add: sortedMembers_def length_sortSlice)
  then show ?thesis by (metis length_0_conv)
qed

lemma ZPop_outcome:
  assumes "ZPopMin now k n s = Ret (s', res) \<or> ZPopMax now k n s = Ret (s', res)"
    and "respArray (orWrongType [] membersReply res) = []" and "popCount args = Some n" and "n \<noteq> 0"
  shows "s' = s"
  using assms popCount_nonneg [OF assms(3)]
  by (auto simp: ZPopMin_def ZPopMax_def popMembers_def orWrongType_def respArray_membersReply sortedMembers_Nil Let_def
      split: if_splits sum.splits option.splits error.splits)

lemmas ZPop_outcomes = ZPop_outcome [OF disjI1] ZPop_outcome [OF disjI2]

lemma redoes_ZPOP:
  "redoes (\<lambda>args. popCount args \<noteq> Some 0) ''ZPOPMIN'' handleZPopMin"
  "redoes (\<lambda>args. popCount args \<noteq> Some 0) ''ZPOPMAX'' handleZPopMax"
  by (rule redoesI; auto simp: handleZPopMin_def handleZPopMax_def appendToAOF_def redo_simps keepStore_def
      dest: popCount_replay timeless_pop ZPop_outcomes split: if_splits option.splits go.splits)+

text \<open>
  The handlers read a score with \<^verbatim>\<open>parseScore\<close>, the replay with \<^verbatim>\<open>ParseFloat\<close>; on ASCII they agree.
\<close>

definition ascii :: "string \<Rightarrow> bool" where
  "ascii s \<longleftrightarrow> (\<forall>c \<in> set s. (of_char c :: nat) < 128)"

lemma toLower_ascii: "ascii s \<Longrightarrow> toLower s = map lower_char s"
  by (induction s rule: toLower.induct) (auto simp: ascii_def)

lemma lower_char_ascii: "lower_char = lower_ascii"
  by (rule ext) (simp add: lower_char_def lower_ascii_def Let_def)

lemma lower_ascii_sign:
  "lower_ascii c = CHR ''+'' \<longleftrightarrow> c = CHR ''+''" "lower_ascii c = CHR ''-'' \<longleftrightarrow> c = CHR ''-''"
proof -
  have "lower_ascii c = c \<or> 97 \<le> (of_char (lower_ascii c) :: nat)" by (auto simp: lower_ascii_def)
  then show "lower_ascii c = CHR ''+'' \<longleftrightarrow> c = CHR ''+''" "lower_ascii c = CHR ''-'' \<longleftrightarrow> c = CHR ''-''"
    by (auto simp: lower_ascii_def)
qed

lemma parseScore_ascii:
  assumes "ascii s"
  shows "parseScore s = ParseFloat s"
proof -
  let ?low = "map lower_ascii s"
  have low: "toLower s = ?low" using toLower_ascii [OF assms] by (simp add: lower_char_ascii)
  consider "?low = ''+inf''" | "?low = ''-inf''" | "?low = ''inf''" | "?low \<notin> {''+inf'', ''-inf'', ''inf''}" by blast
  then show ?thesis
  proof cases
    case 1
    then show ?thesis using low by (auto simp: parseScore_def ParseFloat_def dropSign_def lower_ascii_sign Let_def)
  next
    case 2
    then show ?thesis using low by (auto simp: parseScore_def ParseFloat_def dropSign_def lower_ascii_sign Let_def)
  next
    case 3
    then have "hd s \<noteq> CHR ''+''" "hd s \<noteq> CHR ''-''" by (auto simp: lower_ascii_def)
    with 3 low show ?thesis by (auto simp: parseScore_def ParseFloat_def dropSign_def Let_def)
  next
    case 4
    then show ?thesis using low by (simp add: parseScore_def Let_def)
  qed
qed

lemma zaddMembers_ascii: "\<forall>a \<in> set args. ascii a \<Longrightarrow> zaddMembers args = replayMembers args"
  by (induction args rule: zaddMembers.induct) (auto simp: parseScore_ascii split: option.split)

lemma zaddOptions_rest: "set (snd (zaddOptions args f)) \<subseteq> set args"
  by (induction args arbitrary: f) (auto simp: Let_def)

definition asciiArgs :: "string list \<Rightarrow> bool" where
  "asciiArgs args \<longleftrightarrow> (\<forall>a \<in> set args. ascii a)"

lemma redoes_ZADD: "redoes asciiArgs ''ZADD'' handleZAdd"
proof (rule redoes_verbatim)
  fix env args s s' r rnd now
  assume a: "args \<noteq> []" "toUpper (args ! 0) = ''ZADD''" "asciiArgs args" "timeless s"
    "handleZAdd env args s = Ret (s', r)" "\<not> isError r"
  let ?z = "zaddOptions (drop 2 args) \<lparr>za_nx = False, za_xx = False, za_gt = False, za_lt = False, za_ch = False\<rparr>"
  have "zaddMembers (snd ?z) = replayMembers (snd ?z)"
    using a(3) zaddOptions_rest [of "drop 2 args"] set_drop_subset [of 2 args]
    by (intro zaddMembers_ascii) (force simp: asciiArgs_def)
  then show "timeless s' \<and> applyCommand rnd now args s = Ret (Some s')"
    using a by (cases ?z) (auto simp: handleZAdd_def replayZAdd_def notFloat_def redo_simps split: if_splits option.splits)
qed (simp add: verbatimNames_def)

lemma redoes_ZINCRBY: "redoes asciiArgs ''ZINCRBY'' handleZIncrBy"
proof (rule redoes_verbatim)
  fix env args s s' r rnd now
  assume a: "args \<noteq> []" "toUpper (args ! 0) = ''ZINCRBY''" "asciiArgs args" "timeless s"
    "handleZIncrBy env args s = Ret (s', r)" "\<not> isError r"
  then have "length args = 4" by (auto simp: handleZIncrBy_def split: if_splits)
  then have "parseScore (args ! 2) = ParseFloat (args ! 2)"
    using a(3) by (simp add: asciiArgs_def parseScore_ascii)
  then show "timeless s' \<and> applyCommand rnd now args s = Ret (Some s')"
    using a by (auto simp: handleZIncrBy_def notFloat_def redo_simps split: if_splits option.splits)
qed (simp add: verbatimNames_def)

section \<open>Commands a restart preserves exactly\<close>

definition exactNames :: "string list" where
  "exactNames =
     [''SET'', ''DEL'', ''MSET'', ''APPEND'', ''PERSIST'', ''FLUSHDB'', ''FLUSHALL'', ''HSET'', ''HMSET'', ''HDEL'', ''LPUSH'',
      ''RPUSH'', ''LPUSHX'', ''RPUSHX'', ''LSET'', ''LINSERT'', ''LTRIM'', ''SADD'', ''SREM'', ''SINTERSTORE'',
      ''SUNIONSTORE'', ''SDIFFSTORE'', ''SMOVE'', ''ZREM'', ''SETNX'', ''GETSET'', ''GETDEL'', ''INCR'', ''INCRBY'', ''DECR'',
      ''DECRBY'', ''INCRBYFLOAT'', ''HINCRBY'', ''HINCRBYFLOAT'', ''LPOP'', ''RPOP'', ''LMOVE'', ''RPOPLPUSH'', ''LREM'',
      ''ZPOPMIN'', ''ZPOPMAX'', ''ZADD'', ''ZINCRBY'']"

text \<open>
  \<^verbatim>\<open>SET\<close> without options, a pop of a sorted set of at least one member, scores in ASCII; everything
  else as it comes.
\<close>

definition plainArgs :: "string list \<Rightarrow> bool" where
  "plainArgs args \<longleftrightarrow>
     (let name = toUpper (args ! 0)
      in (name = ''SET'' \<longrightarrow> length args = 3) \<and>
         (name = ''ZPOPMIN'' \<or> name = ''ZPOPMAX'' \<longrightarrow> popCount args \<noteq> Some 0) \<and>
         (name = ''ZADD'' \<or> name = ''ZINCRBY'' \<longrightarrow> asciiArgs args))"

definition durable :: "string list \<Rightarrow> bool" where
  "durable args \<longleftrightarrow>
     args \<noteq> [] \<and>
     (let name = toUpper (args ! 0)
      in (name \<in> set exactNames \<or> name \<in> set readNames \<or> name \<notin> set (map fst storeHandlers)) \<and> plainArgs args)"

lemma redoes_weaken: "redoes P name h \<Longrightarrow> (\<And>args. toUpper (args ! 0) = name \<Longrightarrow> Q args \<Longrightarrow> P args) \<Longrightarrow> redoes Q name h"
  unfolding redoes_def by blast

lemma redoes_special:
  "redoes plainArgs ''SET'' handleSet" "redoes plainArgs ''ZPOPMIN'' handleZPopMin"
  "redoes plainArgs ''ZPOPMAX'' handleZPopMax" "redoes plainArgs ''ZADD'' handleZAdd"
  "redoes plainArgs ''ZINCRBY'' handleZIncrBy"
  by (rule redoes_weaken [OF redoes_SET] redoes_weaken [OF redoes_ZPOP(1)] redoes_weaken [OF redoes_ZPOP(2)]
      redoes_weaken [OF redoes_ZADD] redoes_weaken [OF redoes_ZINCRBY], simp add: plainArgs_def)+

lemmas redoes_all = redoes_special redoes_strings redoes_hashes redoes_lists redoes_list_edits redoes_sets redoes_ZREM
  redoes_SETNX redoes_GETSET redoes_GETDEL redoes_counters redoes_floats redoes_LPOP redoes_RPOP redoes_LMOVE
  redoes_RPOPLPUSH redoes_LREM

lemma exact_redoes: "list_all (\<lambda>(n, h). n \<in> set exactNames \<longrightarrow> redoes plainArgs n h) storeHandlers"
  by (simp add: storeHandlers_def exactNames_def redoes_all)

lemma handler_redoes:
  assumes "map_of storeHandlers name = Some h" and "name \<in> set exactNames \<or> name \<in> set readNames"
  shows "redoes plainArgs name h"
  using assms(2)
proof
  assume "name \<in> set exactNames"
  then show ?thesis using exact_redoes map_of_SomeD [OF assms(1)] by (auto simp: list_all_iff)
next
  assume "name \<in> set readNames"
  then show ?thesis using handler_readonly [OF assms(1)] redoes_read by blast
qed

end
