(* ===== verification/Restart.thy ===== *)
theory Restart
  imports Durability
begin

text \<open>
  Restart: the law of a journal, one command at a time and for whole runs, and what it gives for the
  bytes of the append-only file, after an orderly stop and after a crash.
\<close>

section \<open>Interface: a journal\<close>

fun liveAll :: "('e \<Rightarrow> 'c \<Rightarrow> 's \<Rightarrow> ('s \<times> 'r list) option) \<Rightarrow> (nat \<Rightarrow> 'e) \<Rightarrow> nat \<Rightarrow> 'c list \<Rightarrow> 's
    \<Rightarrow> ('s \<times> 'r list) option" where
  "liveAll run es n [] s = Some (s, [])"
| "liveAll run es n (c # cs) s =
     (case run (es n) c s of
        None \<Rightarrow> None
      | Some (s', rs) \<Rightarrow> map_option (\<lambda>(t, rs'). (t, rs @ rs')) (liveAll run es (Suc n) cs s'))"

fun redoAll :: "('t \<Rightarrow> 'r \<Rightarrow> 's \<Rightarrow> 's option) \<Rightarrow> (nat \<Rightarrow> 't) \<Rightarrow> nat \<Rightarrow> 'r list \<Rightarrow> 's \<Rightarrow> 's option" where
  "redoAll redo ts n [] s = Some s"
| "redoAll redo ts n (r # rs) s =
     (case redo (ts n) r s of None \<Rightarrow> None | Some s' \<Rightarrow> redoAll redo ts (Suc n) rs s')"

lemma redoAll_append:
  "redoAll redo ts n (rs @ rs') s =
     (case redoAll redo ts n rs s of None \<Rightarrow> None | Some s' \<Rightarrow> redoAll redo ts (n + length rs) rs' s')"
  by (induction rs arbitrary: n s) (auto split: option.split)

text \<open>
  The law of a journal: the records of one command, replayed in any circumstances, give the state the
  command gave.  It follows for whole runs.
\<close>

locale journal =
  fixes run :: "'e \<Rightarrow> 'c \<Rightarrow> 's \<Rightarrow> ('s \<times> 'r list) option"
    and redo :: "'t \<Rightarrow> 'r \<Rightarrow> 's \<Rightarrow> 's option"
    and good :: "'s \<Rightarrow> bool"
    and lasting :: "'c \<Rightarrow> bool"
  assumes keeps_good: "good s \<Longrightarrow> lasting c \<Longrightarrow> run e c s = Some (s', rs) \<Longrightarrow> good s'"
    and redo_live: "good s \<Longrightarrow> lasting c \<Longrightarrow> run e c s = Some (s', rs) \<Longrightarrow> redoAll redo ts n rs s = Some s'"
begin

lemma replay_all:
  "good s \<Longrightarrow> \<forall>c \<in> set cs. lasting c \<Longrightarrow> liveAll run es m cs s = Some (s', rs) \<Longrightarrow>
     good s' \<and> redoAll redo ts n rs s = Some s'"
proof (induction cs arbitrary: s m n rs)
  case (Cons c cs)
  from Cons.prems obtain t rs1 rs2 where one: "run (es m) c s = Some (t, rs1)"
    and rest: "liveAll run es (Suc m) cs t = Some (s', rs2)" and rs: "rs = rs1 @ rs2"
    by (auto split: option.splits)
  have "good t" using keeps_good [OF Cons.prems(1) _ one] Cons.prems(2) by simp
  moreover have "redoAll redo ts n rs1 s = Some t" using redo_live [OF Cons.prems(1) _ one] Cons.prems(2) by simp
  ultimately show ?case
    using Cons.IH [OF _ _ rest, of "n + length rs1"] Cons.prems(2) rs by (simp add: redoAll_append)
qed simp

end

text \<open>One command as the journal sees it, and the replay of one record.\<close>

definition liveStep :: "Env \<Rightarrow> string list \<Rightarrow> MemoryStore \<Rightarrow> (MemoryStore \<times> string list list) option" where
  "liveStep env args s =
     (case map_of storeHandlers (toUpper (args ! 0)) of
        None \<Rightarrow> Some (s, [])
      | Some h \<Rightarrow>
          (case h env args s of
             Panic \<Rightarrow> None
           | Ret (s', resp) \<Rightarrow>
               Some (s', if isError resp then [] else appendToAOF (clock env) (toUpper (args ! 0)) args resp s')))"

definition redoStep :: "Env \<Rightarrow> string list \<Rightarrow> MemoryStore \<Rightarrow> MemoryStore option" where
  "redoStep t rec s = (case applyCommand (draws t) (clock t) rec s of Ret r \<Rightarrow> r | Panic \<Rightarrow> None)"

lemma redoStep_Some: "redoStep t rec s = Some s' \<longleftrightarrow> applyCommand (draws t) (clock t) rec s = Ret (Some s')"
  by (simp add: redoStep_def split: go.split)

lemma liveStep_law:
  assumes "timeless s" and "durable c" and "liveStep e c s = Some (s', rs)"
  shows "timeless s' \<and> redoAll redoStep ts n rs s = Some s'"
proof (cases "map_of storeHandlers (toUpper (c ! 0))")
  case None
  then show ?thesis using assms by (simp add: liveStep_def)
next
  case (Some h)
  then obtain r where run: "h e c s = Ret (s', r)"
    and rs: "rs = (if isError r then [] else appendToAOF (clock e) (toUpper (c ! 0)) c r s')"
    using assms(3) by (auto simp: liveStep_def split: go.splits)
  show ?thesis
  proof (cases "isError r")
    case True
    then obtain m where "r = Error m" by (cases r) auto
    then have "s' = s" using guardedD [OF handler_guarded [OF Some]] run by blast
    then show ?thesis using True rs assms(1) by simp
  next
    case False
    have "redoes plainArgs (toUpper (c ! 0)) h" "c \<noteq> []" "plainArgs c"
      using handler_redoes [OF Some] assms(2) map_of_SomeD [OF Some] by (force simp: durable_def Let_def)+
    then have "timeless s' \<and> (rs = [] \<and> s' = s \<or>
        (\<exists>rec. rs = [rec] \<and> applyCommand (draws (ts n)) (clock (ts n)) rec s = Ret (Some s')))"
      using assms(1) run False rs unfolding redoes_def by (simp only: if_False) blast
    then show ?thesis by (auto simp: redoStep_def)
  qed
qed

interpretation aof: journal liveStep redoStep timeless durable
  using liveStep_law by unfold_locales blast+

section \<open>The bytes of the file\<close>

definition recordBytes :: "string list list \<Rightarrow> string" where
  "recordBytes recs = concat (map Encode recs)"

lemma replayLoop_records:
  assumes "\<forall>rec \<in> set recs. wf_command rec" and "redoAll redoStep env n recs s = Some s'"
  shows "replayLoop env n (recordBytes recs @ rest) s = replayLoop env (n + length recs) rest s'"
  using assms
proof (induction recs arbitrary: n s)
  case (Cons r rs)
  then obtain t where one: "applyCommand (draws (env n)) (clock (env n)) r s = Ret (Some t)"
    and more: "redoAll redoStep env (Suc n) rs t = Some s'"
    by (auto simp: redoStep_Some split: option.splits)
  have "ReadCommand (Encode r @ recordBytes rs @ rest) = Got r (recordBytes rs @ rest)"
    using Cons.prems(1) by (simp add: ReadCommand_Encode)
  then have "replayLoop env n (recordBytes (r # rs) @ rest) s = replayLoop env (Suc n) (recordBytes rs @ rest) t"
    using one by (subst replayLoop.simps) (simp add: recordBytes_def)
  also have "\<dots> = replayLoop env (n + length (r # rs)) rest s'"
    using Cons.IH [OF _ more] Cons.prems(1) by simp
  finally show ?case .
qed (simp add: recordBytes_def)

lemma replayLoop_end: "cut_short (ReadCommand p) \<Longrightarrow> \<exists>ok. replayLoop env n p s = Ret (s, n, ok)"
  by (subst replayLoop.simps) (auto simp: cut_short_def)

text \<open>Any prefix of the file is whole records and a proper part of the next.\<close>

lemma take_recordBytes:
  obtains k p where "k \<le> length recs" "take n (recordBytes recs) = recordBytes (take k recs) @ p"
    "p = [] \<or> (\<exists>q. k < length recs \<and> Encode (recs ! k) = p @ q \<and> q \<noteq> [])"
proof (induction recs arbitrary: n thesis)
  case Nil
  then show ?case by (simp add: recordBytes_def)
next
  case (Cons r rs)
  show ?case
  proof (cases "n < length (Encode r)")
    case True
    then have "\<exists>q. 0 < length (r # rs) \<and> Encode ((r # rs) ! 0) = take n (Encode r) @ q \<and> q \<noteq> []"
      by (intro exI [of _ "drop n (Encode r)"]) simp
    then show ?thesis using True Cons.prems [of 0 "take n (Encode r)"] by (simp add: recordBytes_def)
  next
    case False
    obtain k p where k: "k \<le> length rs" "take (n - length (Encode r)) (recordBytes rs) = recordBytes (take k rs) @ p"
      "p = [] \<or> (\<exists>q. k < length rs \<and> Encode (rs ! k) = p @ q \<and> q \<noteq> [])"
      by (rule Cons.IH)
    have "take n (recordBytes (r # rs)) = recordBytes (take (Suc k) (r # rs)) @ p"
      using False k(2) by (simp add: recordBytes_def)
    then show ?thesis using Cons.prems [of "Suc k" p] k(1,3) by simp
  qed
qed

text \<open>No record beyond the first \<open>k\<close> fits into the bytes of these and a part of the next.\<close>

lemma recordBytes_whole:
  assumes "j \<le> length recs" and "length (recordBytes (take j recs)) \<le> length (recordBytes (take k recs) @ p)"
    and "p = [] \<or> (\<exists>q. k < length recs \<and> Encode (recs ! k) = p @ q \<and> q \<noteq> [])"
  shows "j \<le> k"
proof (rule ccontr)
  assume "\<not> j \<le> k"
  then have "take (Suc k) recs = take k (take j recs) @ [recs ! k]" "take j recs = take (Suc k) recs @ take (j - Suc k) (drop (Suc k) recs)"
    using assms(1) take_add [of "Suc k" "j - Suc k" recs] by (simp_all add: take_Suc_conv_app_nth min_def)
  then have "length (recordBytes (take k recs)) + length (Encode (recs ! k)) \<le> length (recordBytes (take j recs))"
    using \<open>\<not> j \<le> k\<close> by (simp add: recordBytes_def min_def)
  moreover have "Encode (recs ! k) \<noteq> []" by (simp add: Encode_def)
  then have "length p < length (Encode (recs ! k))" using assms(3) by auto
  ultimately show False using assms(2) by simp
qed

lemma replayLoop_crash:
  assumes wf: "\<forall>rec \<in> set recs. wf_command rec" and redo: "redoAll redoStep env 0 recs s = Some s'"
  shows "\<exists>k t ok. k \<le> length recs \<and> redoAll redoStep env 0 (take k recs) s = Some t \<and>
    replayLoop env 0 (take n (recordBytes recs)) s = Ret (t, k, ok) \<and>
    (\<forall>j \<le> length recs. length (recordBytes (take j recs)) \<le> length (take n (recordBytes recs)) \<longrightarrow> j \<le> k)"
proof -
  obtain k p where k: "k \<le> length recs" "take n (recordBytes recs) = recordBytes (take k recs) @ p"
    "p = [] \<or> (\<exists>q. k < length recs \<and> Encode (recs ! k) = p @ q \<and> q \<noteq> [])"
    by (rule take_recordBytes)
  obtain t where t: "redoAll redoStep env 0 (take k recs) s = Some t"
    using redo redoAll_append [of redoStep env 0 "take k recs" "drop k recs" s] by (auto split: option.splits)
  have "cut_short (ReadCommand p)"
  proof (cases "p = []")
    case False
    then obtain q where "k < length recs" "Encode (recs ! k) = p @ q" "q \<noteq> []" using k(3) by blast
    then show ?thesis using wf ReadCommand_prefix [of "recs ! k" p q] by simp
  qed (simp add: ReadCommand_Nil cut_short_def)
  then obtain ok where "replayLoop env k p t = Ret (t, k, ok)" using replayLoop_end by blast
  moreover have "replayLoop env 0 (recordBytes (take k recs) @ p) s = replayLoop env k p t"
    using replayLoop_records [OF _ t, of p] wf k(1) in_set_takeD [of _ k recs] by (simp add: min_absorb2)
  moreover have "j \<le> k" if "j \<le> length recs" "length (recordBytes (take j recs)) \<le> length (take n (recordBytes recs))" for j
    using recordBytes_whole [OF that(1) _ k(3)] that(2) unfolding k(2) by simp
  ultimately show ?thesis using k(1,2) t by auto
qed

section \<open>Runs of the dispatcher\<close>

fun dispatchAll :: "'b publisher option \<Rightarrow> (nat \<Rightarrow> Env) \<Rightarrow> nat \<Rightarrow> string list list \<Rightarrow> 'b Router
    \<Rightarrow> ('b Router \<times> Response list) go" where
  "dispatchAll pub envs n [] r = Ret (r, [])"
| "dispatchAll pub envs n (c # cs) r =
     (case Dispatch pub (envs n) c r of
        Panic \<Rightarrow> Panic
      | Ret (r', resp) \<Rightarrow> map_go (\<lambda>(r, resps). (r, resp # resps)) (dispatchAll pub envs (Suc n) cs r'))"

definition freshRouter :: "SyncPolicy \<Rightarrow> 'b \<Rightarrow> 'b Router" where
  "freshRouter pol b = NewRouter NewMemoryStore (Some (Open [] pol)) b"

definition recordsOf :: "(nat \<Rightarrow> Env) \<Rightarrow> string list list \<Rightarrow> string list list" where
  "recordsOf envs cmds =
     (case liveAll liveStep envs 0 cmds NewMemoryStore of None \<Rightarrow> [] | Some (_, recs) \<Rightarrow> recs)"

lemma publish_unlogged: "appendToAOF now ''PUBLISH'' args resp s = []" "map_of storeHandlers ''PUBLISH'' = None"
  by (simp_all add: appendToAOF_def verbatimNames_def storeHandlers_def)

lemma Dispatch_live:
  assumes run: "Dispatch pub env args r = Ret (r', resp)" and ne: "args \<noteq> []"
  shows "\<exists>recs. liveStep env args (rstore r) = Some (rstore r', recs) \<and>
    raof r' = map_option (AppendAll recs) (raof r)"
proof (cases "handlers pub (toUpper (args ! 0))")
  case None
  then show ?thesis using run ne by (auto simp: Dispatch_def handlers_def liveStep_def Let_def split: if_splits)
next
  case (Some fn)
  then obtain s b where fn: "fn env args (rstore r, rpub r) = Ret ((s, b), resp)"
    and r': "r' = r\<lparr>rstore := s, rpub := b, raof := map_option (AppendAll
        (if isError resp then [] else appendToAOF (clock env) (toUpper (args ! 0)) args resp s)) (raof r)\<rparr>"
    using run ne by (auto simp: Dispatch_def Let_def split: go.splits)
  from Some show ?thesis
  proof (cases rule: handlers_cases)
    case 1
    then show ?thesis using fn r' publish_store [of pub env args "(rstore r, rpub r)"]
      by (auto simp: liveStep_def publish_unlogged)
  next
    case (2 h)
    then show ?thesis using fn r' by (auto simp: liveStep_def onStore_Ret)
  qed
qed

lemma map_go_Ret: "map_go f x = Ret y \<longleftrightarrow> (\<exists>z. x = Ret z \<and> y = f z)"
  by (cases x) auto

lemma dispatchAll_live:
  "dispatchAll pub envs n cmds r = Ret (r', resps) \<Longrightarrow> \<forall>c \<in> set cmds. c \<noteq> [] \<Longrightarrow>
     \<exists>recs. liveAll liveStep envs n cmds (rstore r) = Some (rstore r', recs) \<and>
       raof r' = map_option (AppendAll recs) (raof r)"
proof (induction cmds arbitrary: n r resps)
  case (Cons c cs)
  then obtain t resp rest where one: "Dispatch pub (envs n) c r = Ret (t, resp)"
    and more: "dispatchAll pub envs (Suc n) cs t = Ret (r', rest)"
    by (auto simp: map_go_Ret split: go.splits)
  from Dispatch_live [OF one] Cons.prems(2) obtain r1 where r1:
    "liveStep (envs n) c (rstore r) = Some (rstore t, r1)" "raof t = map_option (AppendAll r1) (raof r)" by auto
  from Cons.IH [OF more] Cons.prems(2) obtain r2 where r2:
    "liveAll liveStep envs (Suc n) cs (rstore t) = Some (rstore r', r2)" "raof r' = map_option (AppendAll r2) (raof t)"
    by auto
  show ?case using r1 r2 by (intro exI [of _ "r1 @ r2"]) (simp add: option.map_comp comp_def)
qed simp

lemma run_records:
  assumes "dispatchAll pub envs 0 cmds (freshRouter pol b) = Ret (r, resps)" and "\<forall>c \<in> set cmds. durable c"
  shows "raof r = Some (AppendAll (recordsOf envs cmds) (Open [] pol))"
    and "redoAll redoStep env n (recordsOf envs cmds) NewMemoryStore = Some (rstore r)"
proof -
  have "\<forall>c \<in> set cmds. c \<noteq> []" using assms(2) by (auto simp: durable_def)
  from dispatchAll_live [OF assms(1) this] obtain recs where
    run: "liveAll liveStep envs 0 cmds NewMemoryStore = Some (rstore r, recs)"
    and aof: "raof r = Some (AppendAll recs (Open [] pol))"
    by (auto simp: freshRouter_def NewRouter_def)
  have "recordsOf envs cmds = recs" using run by (simp add: recordsOf_def)
  then show "raof r = Some (AppendAll (recordsOf envs cmds) (Open [] pol))"
    "redoAll redoStep env n (recordsOf envs cmds) NewMemoryStore = Some (rstore r)"
    using aof aof.replay_all [OF _ assms(2) run] by simp_all
qed

lemma Flush_empty: "Flush s = NewMemoryStore"
  by (simp add: Flush_def NewMemoryStore_def)

lemma contents_run: "contents (AppendAll recs (Open [] pol)) = recordBytes recs"
  by (simp add: contents_AppendAll Open_def recordBytes_def)

lemma Replay_records:
  assumes "\<forall>rec \<in> set recs. wf_command rec" and "redoAll redoStep env 0 recs NewMemoryStore = Some s'"
  shows "Replay env (Some (recordBytes recs)) s0 = Ret (s', length recs, True)"
proof -
  have "replayLoop env (length recs) [] s' = Ret (s', length recs, True)"
    by (subst replayLoop.simps) (simp add: ReadCommand_Nil)
  then show ?thesis using replayLoop_records [OF assms, of "[]"] by (simp add: Replay_def Flush_empty)
qed

lemma synced_AppendAll:
  "policy a = SyncAlways \<Longrightarrow> recs \<noteq> [] \<Longrightarrow> synced (AppendAll recs a) = length (contents (AppendAll recs a))"
proof (induction recs arbitrary: a)
  case (Cons r rs)
  then show ?case by (cases "rs = []") (auto simp: synced_Append_always)
qed simp

lemma synced_lazy: "policy a = SyncNo \<Longrightarrow> synced (AppendAll recs a) = synced a"
  by (induction recs arbitrary: a) (simp_all add: Append_def Let_def)

section \<open>Properties of persistence\<close>

text \<open>A run at which the properties are instantiated.\<close>

definition demoCmds :: "string list list" where
  "demoCmds = [[''SET'', ''k'', ''41''], [''INCR'', ''k''], [''RPUSH'', ''l'', ''a'', ''b''], [''LPOP'', ''l''], [''GET'', ''k'']]"

definition demoEnvs :: "nat \<Rightarrow> Env" where
  "demoEnvs n = demoEnv"

lemma demo_durable: "\<forall>c \<in> set demoCmds. durable c"
  by code_simp

lemma demo_records:
  "recordsOf demoEnvs demoCmds =
     [[''SET'', ''k'', ''41''], [''SET'', ''k'', ''42''], [''RPUSH'', ''l'', ''a'', ''b''], [''LPOP'', ''l'']]"
  by code_simp

lemma demo_wf: "\<forall>rec \<in> set (recordsOf demoEnvs demoCmds). wf_command rec"
  by (simp add: demo_records wf_command_def makeslice_ok_def maxAlloc_def sizeofResponse_def)

lemma demo_returns: "returns (dispatchAll None demoEnvs 0 demoCmds (freshRouter pol ()))"
  by (cases pol; simp only:) code_simp+

lemma demo_runs: "\<exists>r resps. dispatchAll None demoEnvs 0 demoCmds (freshRouter pol ()) = Ret (r, resps)"
  using demo_returns [of pol] by (cases "dispatchAll None demoEnvs 0 demoCmds (freshRouter pol ())") auto

text \<open>
  C3. After any run of durable commands from an empty store (every read, and forty-three write
  commands with plain arguments, in any order, with any replies, at any times), replaying the
  append-only file, at any later time, rebuilds exactly the store the server had: all five maps, the
  deadlines and the version counters.
\<close>

theorem restart_restores_store:
  assumes "dispatchAll pub envs 0 cmds (freshRouter pol b) = Ret (r, resps)"
    and "\<forall>c \<in> set cmds. durable c" and "\<forall>rec \<in> set (recordsOf envs cmds). wf_command rec"
  shows "\<exists>a. raof r = Some a \<and>
    Replay env (Some (contents a)) s0 = Ret (rstore r, length (recordsOf envs cmds), True)"
  using run_records [OF assms(1,2)] Replay_records [OF assms(3)] by (auto simp: contents_run)

theorem restart_restores_store_witness:
  "\<exists>r resps a. dispatchAll None demoEnvs 0 demoCmds (freshRouter SyncEverySec ()) = Ret (r, resps) \<and>
     raof r = Some a \<and> Replay demoEnvs (Some (contents a)) NewMemoryStore = Ret (rstore r, 4, True)"
proof -
  obtain r resps where run: "dispatchAll None demoEnvs 0 demoCmds (freshRouter SyncEverySec ()) = Ret (r, resps)"
    using demo_runs by blast
  from restart_restores_store [OF run demo_durable demo_wf, of demoEnvs NewMemoryStore] run show ?thesis
    by (auto simp: demo_records)
qed





section \<open>What a restart does not preserve\<close>

lemma handler_names:
  "map_of storeHandlers ''SET'' = Some handleSet" "map_of storeHandlers ''RENAME'' = Some handleRename"
  "map_of storeHandlers ''SETEX'' = Some handleSetEX"
  by (simp_all add: storeHandlers_def)

text \<open>
  C31. \<^verbatim>\<open>SET\<close> with any option is logged as it was given, but the replay accepts only \<^verbatim>\<open>SET key value\<close>: a
  successful \<^verbatim>\<open>SET k v EX 10\<close> leaves a record at which every later replay stops with an error, so
  that everything written after it is lost at the next start.
\<close>

theorem set_option_stops_replay:
  assumes "Dispatch pub env args r = Ret (r', resp)" and "\<not> isError resp" and "toUpper (args ! 0) = ''SET''"
    and "length args \<noteq> 3" and "wf_command args" and "raof r = Some a"
  shows "\<exists>a'. raof r' = Some a' \<and> contents a' = contents a @ Encode args \<and>
    (\<forall>envs n s rest. replayLoop envs n (Encode args @ rest) s = Ret (s, n, False))"
proof -
  have ne: "args \<noteq> []" using assms(5) by (simp add: wf_command_def)
  have "raof r' = Some (AppendAll [args] a)"
    using assms(1-3,6) ne
    by (auto simp: Dispatch_def handlers_def handler_names onStore_Ret appendToAOF_def verbatimNames_def
        split: go.splits prod.splits)
  moreover have "replayLoop envs n (Encode args @ rest) s = Ret (s, n, False)" for envs n s rest
    using assms(3,4) ne
    by (subst replayLoop.simps) (simp add: ReadCommand_Encode [OF assms(5)] applyCommand_def applyStrings_def)
  ultimately show ?thesis by simp
qed

theorem set_option_stops_replay_witness:
  "\<exists>r' a'. Dispatch None demoEnv [''SET'', ''k'', ''v'', ''EX'', ''10''] (freshRouter SyncNo ()) = Ret (r', okReply) \<and>
     raof r' = Some a' \<and> contents a' = Encode [''SET'', ''k'', ''v'', ''EX'', ''10''] \<and>
     (\<forall>envs n s rest. replayLoop envs n (Encode [''SET'', ''k'', ''v'', ''EX'', ''10''] @ rest) s = Ret (s, n, False))"
proof -
  obtain r' where run: "Dispatch None demoEnv [''SET'', ''k'', ''v'', ''EX'', ''10''] (freshRouter SyncNo ()) = Ret (r', okReply)"
  proof -
    have "\<exists>r'. Dispatch None demoEnv [''SET'', ''k'', ''v'', ''EX'', ''10''] (freshRouter SyncNo ()) = Ret (r', okReply)"
      by (intro exI) code_simp
    then show ?thesis using that by blast
  qed
  have up: "toUpper ([''SET'', ''k'', ''v'', ''EX'', ''10''] ! 0) = ''SET''" by code_simp
  have "wf_command [''SET'', ''k'', ''v'', ''EX'', ''10'']"
    by (simp add: wf_command_def makeslice_ok_def maxAlloc_def sizeofResponse_def)
  from set_option_stops_replay [OF run _ up _ this, of "Open [] SyncNo"] run
  show ?thesis by (auto simp: freshRouter_def NewRouter_def Open_def)
qed

text \<open>
  C32. \<^verbatim>\<open>RENAME\<close> of a list logs only the deletion of the old key: after a restart the list is under
  neither name.
\<close>

theorem rename_list_not_durable:
  assumes "timeless s" and "tagAt src s = TList" and "tagAt dst s = NoKey"
  shows "\<exists>s'. liveStep env [''RENAME'', src, dst] s = Some (s', [[''DEL'', src]]) \<and>
      map_of (lists s') dst = map_of (lists s) src \<and>
      (\<exists>t. redoAll redoStep envs 0 [[''DEL'', src]] s = Some t \<and> tagAt src t = NoKey \<and> tagAt dst t = NoKey)"
proof -
  have ne: "src \<noteq> dst" using assms(2,3) by auto
  obtain l where l: "map_of (lists s) src = Some l" "map_of (strings s) src = None" "map_of (hashes s) src = None"
    using assms(2) by (auto simp: tagAt_def split: if_splits)
  define s1 where "s1 = deleteKey dst s"
  define s2 where "s2 = s1\<lparr>lists := mdel src (mput dst l (lists s1)), keyExpiry := []\<rparr>"
  have tl: "keyExpiry s = []" using assms(1) by (simp add: timeless_def)
  have ren: "Rename (clock env) src dst s = Ret (bumpVersion src (bumpVersion dst s2), True)"
    using assms(1,2) ne l tl
    by (simp add: Rename_def renameEntry_def typeOf_timeless s1_def s2_def deleteKey_def)
  have "timeless (bumpVersion src (bumpVersion dst s2))" "tagAt dst (bumpVersion src (bumpVersion dst s2)) = TList"
    "map_of (lists (bumpVersion src (bumpVersion dst s2))) dst = Some l"
    using assms(1) ne by (auto simp: s2_def s1_def timeless_def tagAt_def deleteKey_def bumpVersion_def split: if_splits)
  moreover have "toUpper ''RENAME'' = ''RENAME''" by code_simp
  ultimately have live: "liveStep env [''RENAME'', src, dst] s = Some (bumpVersion src (bumpVersion dst s2), [[''DEL'', src]])"
    using ren ne
    by (simp add: liveStep_def handler_names handleRename_def appendToAOF_def verbatimNames_def renameRecords_def
        Type_timeless okReply_def)
  have "redoAll redoStep envs 0 [[''DEL'', src]] s = Some (bumpVersion src (deleteKey src s))"
    using assms(1,2) by (simp add: redoStep_def apply_records typeOf_timeless)
  moreover have "tagAt src (bumpVersion src (deleteKey src s)) = NoKey" "tagAt dst (bumpVersion src (deleteKey src s)) = NoKey"
    using assms(3) ne by (simp_all add: tagAt_def deleteKey_def bumpVersion_def split: if_splits)
  ultimately show ?thesis using live l \<open>map_of (lists (bumpVersion src (bumpVersion dst s2))) dst = Some l\<close> by auto
qed

definition demoList :: MemoryStore where
  "demoList = fst (RPush 0 ''q'' [''job''] NewMemoryStore)"

theorem rename_list_not_durable_witness:
  "\<exists>s'. liveStep demoEnv [''RENAME'', ''q'', ''p''] demoList = Some (s', [[''DEL'', ''q'']]) \<and>
      map_of (lists s') ''p'' = map_of (lists demoList) ''q'' \<and>
      (\<exists>t. redoAll redoStep demoEnvs 0 [[''DEL'', ''q'']] demoList = Some t \<and> tagAt ''q'' t = NoKey \<and> tagAt ''p'' t = NoKey)"
proof (rule rename_list_not_durable)
  show "timeless demoList" unfolding demoList_def by (intro timeless_intros) simp
  show "tagAt ''q'' demoList = TList" "tagAt ''p'' demoList = NoKey" by code_simp+
qed

section \<open>Deadlines\<close>

lemma apply_PEXPIREAT:
  assumes "in64 ms" and "in64 (timeUnixMilli ms - now)" and "now < timeUnixMilli ms"
    and "map_of (strings s) k = Some \<lparr>str_value = v, expiresAt = zeroTime\<rparr>"
  shows "applyCommand rnd now (pexpireat k ms) s =
    Ret (Some (s\<lparr>strings := mput k \<lparr>str_value = v, expiresAt = timeUnixMilli ms\<rparr> (strings s)\<rparr>))"
proof -
  have "toUpper ''PEXPIREAT'' = ''PEXPIREAT''" by code_simp
  moreover have "timeUntil now (timeUnixMilli ms) = timeUnixMilli ms - now"
    using assms(2) by (simp add: timeUntil_def timeSub_def sat64_id)
  ultimately show ?thesis using assms
    by (simp add: pexpireat_def applyCommand_def applyStrings_def replayPExpireAt_def Expire_def expired_def)
qed

lemma millis_floor:
  "timeUnixMilli (unixMilli t + n * 1000) \<le> t + n * Second"
  "t + n * Second - timeUnixMilli (unixMilli t + n * 1000) < Millisecond"
proof -
  define u where "u = t - unixToInternal * Second"
  have "u div Millisecond * Millisecond + u mod Millisecond = u" by (simp add: Millisecond_def)
  moreover have "0 \<le> u mod Millisecond" "u mod Millisecond < Millisecond" by (simp_all add: Millisecond_def)
  moreover have "timeUnixMilli (unixMilli t + n * 1000) = u div Millisecond * Millisecond + n * Second + unixToInternal * Second"
    by (simp add: timeUnixMilli_def unixMilli_def u_def Millisecond_def Second_def algebra_simps)
  ultimately show "timeUnixMilli (unixMilli t + n * 1000) \<le> t + n * Second"
    "t + n * Second - timeUnixMilli (unixMilli t + n * 1000) < Millisecond"
    unfolding u_def by linarith+
qed



end
