(* ===== verification/Transactions.thy ===== *)
theory Transactions
  imports Handler Restart
begin

text \<open>
  The connection handler on whole conversations: what a pipeline of commands and what a transaction
  answers and does, from the bytes the client sends to the bytes it gets back.
\<close>

section \<open>The reply of EXEC\<close>

lemma itoaLoop_fmt_nat: "itoaLoop n buf = (if 0 < n then fmt_nat (nat n) @ buf else buf)"
proof (induction n buf rule: itoaLoop.induct)
  case (1 n buf)
  show ?case
  proof (cases "0 < n")
    case True
    have *: "nat (n mod 10) = nat n mod 10" "nat (n div 10) = nat n div 10"
      using True by (simp_all add: nat_mod_distrib nat_div_distrib)
    show ?thesis
    proof (cases "n < 10")
      case True
      with \<open>0 < n\<close> show ?thesis by (simp add: itoaLoop.simps [of n] itoaLoop.simps [of 0] fmt_nat.simps)
    next
      case False
      then have "0 < n div 10" by simp
      with \<open>0 < n\<close> False 1 [OF \<open>0 < n\<close>] show ?thesis
        by (simp add: itoaLoop.simps [of n] fmt_nat.simps [of "nat n"] *)
    qed
  qed (simp add: itoaLoop.simps)
qed

lemma itoa_FormatInt: "in64 n \<Longrightarrow> n \<noteq> minInt64 \<Longrightarrow> itoa n = FormatInt n"
proof -
  assume n: "in64 n" "n \<noteq> minInt64"
  have "wrap64 (- n) = - n" if "n < 0"
    using n that by (intro wrap64_id) (simp add: in64_def minInt64_def maxInt64_def)
  moreover have "FormatInt 0 = ''0''" by code_simp
  ultimately show ?thesis by (auto simp: itoa_def FormatInt_def itoaLoop_fmt_nat Let_def)
qed

lemma execFrame_Serialize: "int (length rs) \<le> maxInt64 \<Longrightarrow> execFrame rs = Serialize (Array rs)"
  by (simp add: execFrame_def itoa_FormatInt in64_def minInt64_def)

lemma execLoop_dispatchAll: "execLoop envs i cmds w = dispatchAll (Some Publish) envs i cmds w"
  by (induction envs i cmds w rule: execLoop.induct) (simp_all split: go.split prod.split)

lemma dispatchAll_length: "dispatchAll pub envs n cmds r = Ret (r', rs) \<Longrightarrow> length rs = length cmds"
  by (induction cmds arbitrary: n r rs) (auto simp: map_go_Ret split: go.splits)

section \<open>Pipelines\<close>

text \<open>The names the handler takes for itself; every other command goes to the dispatcher.\<close>

definition connNames :: "string list" where
  "connNames = [''SUBSCRIBE'', ''UNSUBSCRIBE'', ''PSUBSCRIBE'', ''PUNSUBSCRIBE'', ''MULTI'', ''EXEC'', ''DISCARD'',
     ''WATCH'', ''UNWATCH'']"

definition dataCommand :: "string list \<Rightarrow> bool" where
  "dataCommand args \<longleftrightarrow> wf_command args \<and> toUpper (args ! 0) \<notin> set connNames"

definition plainConn :: "Conn \<Rightarrow> bool" where
  "plainConn h \<longleftrightarrow> sub h = None \<and> \<not> inMulti h \<and> \<not> broken h"

lemma serve_Encode:
  "wf_command args \<Longrightarrow> serve envs n (Encode args @ rest) st =
     (case serveCommand (envs n) args st of
        Panic \<Rightarrow> Panic
      | Ret (st', go_on) \<Rightarrow> if go_on then serve envs (Suc n) rest st' else Ret (cleanupSubscriptions st'))"
  by (subst serve.simps) (simp add: ReadCommand_Encode)

lemma serve_end: "serve envs n [] st = Ret (cleanupSubscriptions st)"
  by (subst serve.simps) (simp add: ReadCommand_Nil)

lemma serveCommand_data:
  assumes "dataCommand args" and "plainConn h"
  shows "serveCommand envs args (h, w) =
    (case Dispatch (Some Publish) (envs 0) args w of
       Panic \<Rightarrow> Panic
     | Ret (w', resp) \<Rightarrow> Ret ((h\<lparr>written := written h @ Serialize resp\<rparr>, w'), True))"
  using assms
  by (simp add: serveCommand_def dataCommand_def connNames_def plainConn_def respond_def Let_def
      split: go.split prod.split)

lemma serveCommand_queued:
  assumes "dataCommand args" and "sub h = None" "inMulti h" "\<not> broken h"
  shows "serveCommand envs args (h, w) =
    Ret ((h\<lparr>txQueue := txQueue h @ [args], written := written h @ Serialize (SimpleString ''QUEUED'')\<rparr>, w), True)"
  using assms by (simp add: serveCommand_def dataCommand_def connNames_def respond_def Let_def)

lemma serve_pipeline:
  assumes "\<forall>c \<in> set cmds. dataCommand c" and "plainConn h"
    and "dispatchAll (Some Publish) (\<lambda>i. envs i 0) n cmds w = Ret (w', rs)"
  shows "serve envs n (concat (map Encode cmds) @ rest) (h, w) =
    serve envs (n + length cmds) rest (h\<lparr>written := written h @ concat (map Serialize rs)\<rparr>, w')"
  using assms
proof (induction cmds arbitrary: n h w rs)
  case (Cons c cs)
  from Cons.prems(3) obtain w1 resp rs1 where one: "Dispatch (Some Publish) (envs n 0) c w = Ret (w1, resp)"
    and more: "dispatchAll (Some Publish) (\<lambda>i. envs i 0) (Suc n) cs w1 = Ret (w', rs1)" and rs: "rs = resp # rs1"
    by (auto simp: map_go_Ret split: go.splits)
  have c: "dataCommand c" "wf_command c" using Cons.prems(1) by (simp_all add: dataCommand_def)
  have h1: "plainConn (h\<lparr>written := written h @ Serialize resp\<rparr>)" using Cons.prems(2) by (simp add: plainConn_def)
  show ?case
    using Cons.IH [OF _ h1 more] Cons.prems(1)
    by (simp add: serve_Encode [OF c(2)] serveCommand_data [OF c(1) Cons.prems(2)] one rs)
qed simp

lemma serve_queueing:
  assumes "\<forall>c \<in> set cmds. dataCommand c" and "sub h = None" "inMulti h" "\<not> broken h"
  shows "serve envs n (concat (map Encode cmds) @ rest) (h, w) =
    serve envs (n + length cmds) rest
      (h\<lparr>txQueue := txQueue h @ cmds,
         written := written h @ concat (replicate (length cmds) (Serialize (SimpleString ''QUEUED'')))\<rparr>, w)"
  using assms
proof (induction cmds arbitrary: n h)
  case (Cons c cs)
  have c: "dataCommand c" "wf_command c" using Cons.prems(1) by (simp_all add: dataCommand_def)
  show ?case
    using Cons.IH [of "h\<lparr>txQueue := txQueue h @ [c], written := written h @ Serialize (SimpleString ''QUEUED'')\<rparr>" "Suc n"]
      Cons.prems
    by (simp add: serve_Encode [OF c(2)] serveCommand_queued [OF c(1)])
qed simp

section \<open>The control commands\<close>

lemma toUpper_conn:
  "toUpper ([''MULTI''] ! 0) = ''MULTI''" "toUpper ([''EXEC''] ! 0) = ''EXEC''"
  by code_simp+

lemma wf_conn: "wf_command [''MULTI'']" "wf_command [''EXEC'']"
  by code_simp+

lemma serveCommand_MULTI:
  "plainConn h \<Longrightarrow> toUpper (args ! 0) = ''MULTI'' \<Longrightarrow> serveCommand envs args (h, w) =
     Ret ((h\<lparr>inMulti := True, txQueue := [], txErrors := 0, written := written h @ Serialize okReply\<rparr>, w), True)"
  by (simp add: serveCommand_def handleMulti_def plainConn_def respond_def Let_def)

lemma respondMany_one: "respondMany [p] st = respond p st"
  by (simp add: case_prod_beta prod_eq_iff)

lemma serveCommand_EXEC:
  assumes "sub h = None" "inMulti h" "\<not> broken h" "txErrors h = 0" "\<not> watchDirty h w"
    and "dispatchAll (Some Publish) envs 0 (txQueue h) w = Ret (w', rs)" and "int (length (txQueue h)) \<le> maxInt64"
    and "toUpper (args ! 0) = ''EXEC''"
  shows "serveCommand envs args (h, w) =
    Ret (((endTx h)\<lparr>written := written h @ Serialize (Array rs)\<rparr>, w'), True)"
proof -
  have "execFrame rs = Serialize (Array rs)"
    using assms(7) dispatchAll_length [OF assms(6)] by (intro execFrame_Serialize) simp
  then show ?thesis using assms
    by (simp add: serveCommand_def handleExec_def execLoop_dispatchAll respondMany_one respond_def
        endTx_def Let_def del: respondMany.simps Serialize.simps)
qed

lemma serveCommand_dirty:
  assumes "inMulti h" "txErrors h = 0" "watchDirty h w" and "toUpper (args ! 0) = ''EXEC''"
  shows "serveCommand envs args (h, w) = Ret (respond (Serialize NullArray) (endTx h, w))"
  using assms
  by (simp add: serveCommand_def handleExec_def respondMany_one Let_def
      del: respondMany.simps Serialize.simps)

section \<open>Properties\<close>

text \<open>
  C16. A pipeline of data commands: the client that sends the encodings of any number of them in one
  stream gets the serialised replies in the same order and nothing else, and the store, the log and
  the mailboxes are those of dispatching the commands one after the other.
\<close>

theorem pipeline_replies:
  assumes "\<forall>c \<in> set cmds. dataCommand c" and "plainConn h"
    and "dispatchAll (Some Publish) (\<lambda>i. envs i 0) n cmds w = Ret (w', rs)"
  shows "serve envs n (concat (map Encode cmds)) (h, w) =
    Ret (h\<lparr>written := written h @ concat (map Serialize rs)\<rparr>, w')"
  using serve_pipeline [where rest = "[]" and envs = envs, OF assms] assms(2)
  by (simp add: serve_end cleanupSubscriptions_def plainConn_def)

definition demoWorld :: world where
  "demoWorld = \<lparr>rstore = NewMemoryStore, raof = Some (Open [] SyncAlways), rpub = NewBroker\<rparr>"

definition demoTx :: "string list list" where
  "demoTx = [[''SET'', ''k'', ''7''], [''incr'', ''k''], [''GET'', ''k'']]"

lemma demoTx_data: "\<forall>c \<in> set demoTx. dataCommand c"
  unfolding list_all_iff [symmetric] by code_simp

lemma demoTx_runs:
  "\<exists>w'. dispatchAll (Some Publish) (\<lambda>i. demoEnv) 0 demoTx demoWorld = Ret (w', [okReply, Integer 8, BulkString ''8''])"
proof -
  have "map_go snd (dispatchAll (Some Publish) (\<lambda>i. demoEnv) 0 demoTx demoWorld) = Ret [okReply, Integer 8, BulkString ''8'']"
    by code_simp
  then show ?thesis by (auto simp: map_go_Ret)
qed

theorem pipeline_replies_witness:
  "\<exists>w'. serve (\<lambda>i j. demoEnv) 0 (concat (map Encode demoTx)) (newHandler True, demoWorld) =
    Ret ((newHandler True)\<lparr>written := concat (map Serialize [okReply, Integer 8, BulkString ''8''])\<rparr>, w')"
proof -
  obtain w' where "dispatchAll (Some Publish) (\<lambda>i. demoEnv) 0 demoTx demoWorld = Ret (w', [okReply, Integer 8, BulkString ''8''])"
    using demoTx_runs by blast
  moreover have "plainConn (newHandler True)" by code_simp
  ultimately show ?thesis using pipeline_replies [OF demoTx_data, of "newHandler True" "\<lambda>i j. demoEnv" 0 demoWorld]
    by (simp add: newHandler_def)
qed

text \<open>
  C6. A transaction: between \<^verbatim>\<open>MULTI\<close> and \<^verbatim>\<open>EXEC\<close> the data commands are only queued, and \<^verbatim>\<open>EXEC\<close>, when no
  watched key has moved, runs the whole queue in order and answers one array with its replies; the
  bytes the client gets are those of the serialiser, and the connection leaves the transaction with
  nothing queued or watched.
\<close>

theorem transaction_runs_queue:
  assumes "\<forall>c \<in> set cmds. dataCommand c" and "int (length cmds) \<le> maxInt64"
    and "plainConn h" and "\<not> watchDirty h w"
    and "dispatchAll (Some Publish) (envs (Suc (n + length cmds))) 0 cmds w = Ret (w', rs)"
  shows "serve envs n (Encode [''MULTI''] @ concat (map Encode cmds) @ Encode [''EXEC'']) (h, w) =
    Ret ((endTx h)\<lparr>written := written h @ Serialize okReply
        @ concat (replicate (length cmds) (Serialize (SimpleString ''QUEUED''))) @ Serialize (Array rs)\<rparr>, w')"
proof -
  define h1 where "h1 = h\<lparr>inMulti := True, txQueue := [], txErrors := 0, written := written h @ Serialize okReply\<rparr>"
  define h2 where "h2 = h1\<lparr>txQueue := cmds,
      written := written h1 @ concat (replicate (length cmds) (Serialize (SimpleString ''QUEUED'')))\<rparr>"
  have h1: "sub h1 = None" "inMulti h1" "\<not> broken h1" using assms(3) by (simp_all add: h1_def plainConn_def)
  have queued: "serve envs (Suc n) (concat (map Encode cmds) @ Encode [''EXEC'']) (h1, w)
      = serve envs (Suc (n + length cmds)) (Encode [''EXEC'']) (h2, w)"
    using serve_queueing [OF assms(1) h1, of envs "Suc n" "Encode [''EXEC'']" w] by (simp add: h2_def h1_def)
  have "serveCommand (envs (Suc (n + length cmds))) [''EXEC''] (h2, w) =
      Ret (((endTx h2)\<lparr>written := written h2 @ Serialize (Array rs)\<rparr>, w'), True)"
    using assms h1
    by (intro serveCommand_EXEC toUpper_conn) (simp_all add: h2_def h1_def watchDirty_def)
  then have "serve envs (Suc (n + length cmds)) (Encode [''EXEC'']) (h2, w) =
      Ret ((endTx h2)\<lparr>written := written h2 @ Serialize (Array rs)\<rparr>, w')"
    using serve_Encode [OF wf_conn(2), of envs "Suc (n + length cmds)" "[]" "(h2, w)"] h1
    by (simp add: serve_end cleanupSubscriptions_def endTx_def h2_def del: Serialize.simps)
  then show ?thesis
    using queued serve_Encode [OF wf_conn(1)] serveCommand_MULTI [OF assms(3) toUpper_conn(1)]
    by (simp add: h2_def h1_def endTx_def del: Serialize.simps)
qed

theorem transaction_runs_queue_witness:
  "\<exists>w'. serve (\<lambda>i j. demoEnv) 0 (Encode [''MULTI''] @ concat (map Encode demoTx) @ Encode [''EXEC'']) (newHandler True, demoWorld) =
    Ret ((endTx (newHandler True))\<lparr>written := Serialize okReply @ concat (replicate 3 (Serialize (SimpleString ''QUEUED'')))
      @ Serialize (Array [okReply, Integer 8, BulkString ''8''])\<rparr>, w')"
proof -
  obtain w' where "dispatchAll (Some Publish) (\<lambda>i. demoEnv) 0 demoTx demoWorld = Ret (w', [okReply, Integer 8, BulkString ''8''])"
    using demoTx_runs by blast
  moreover have "plainConn (newHandler True)" "\<not> watchDirty (newHandler True) demoWorld" "length demoTx = 3"
    by (simp_all add: plainConn_def newHandler_def watchDirty_def demoTx_def)
  ultimately show ?thesis
    using transaction_runs_queue [OF demoTx_data, of "newHandler True" demoWorld "\<lambda>i j. demoEnv" 0]
    by (auto simp: newHandler_def maxInt64_def simp del: Serialize.simps)
qed

text \<open>
  C21. A transaction whose watched key has another version than at \<^verbatim>\<open>WATCH\<close> is abandoned: \<^verbatim>\<open>EXEC\<close> answers
  the null array, runs none of the queued commands, and clears the queue and the watches.
\<close>

theorem exec_aborts_on_conflict:
  assumes "sub h = None" "inMulti h" "\<not> broken h" "txErrors h = 0"
    and "map_of (watchedKeys h) k = Some v" and "KeyVersion w k \<noteq> v"
  shows "serveCommand envs [''EXEC''] (h, w) = Ret (((endTx h)\<lparr>written := written h @ Serialize NullArray\<rparr>, w), True)"
proof -
  have "watchDirty h w" using assms(5,6) by (auto simp: watchDirty_def dest: map_of_SomeD)
  then show ?thesis using assms by (simp add: serveCommand_dirty [OF _ _ _ toUpper_conn(2)] respond_def endTx_def)
qed

definition demoWatcher :: Conn where
  "demoWatcher = (newHandler True)\<lparr>inMulti := True, txQueue := demoTx, watchedKeys := [(''k'', 5)]\<rparr>"

theorem exec_aborts_on_conflict_witness:
  "serveCommand (\<lambda>i. demoEnv) [''EXEC''] (demoWatcher, demoWorld) =
     Ret (((endTx demoWatcher)\<lparr>written := Serialize NullArray\<rparr>, demoWorld), True)"
proof -
  have "KeyVersion demoWorld ''k'' \<noteq> 5" by code_simp
  then show ?thesis using exec_aborts_on_conflict [of demoWatcher "''k''" 5 demoWorld "\<lambda>i. demoEnv"]
    by (simp add: demoWatcher_def newHandler_def endTx_def)
qed

section \<open>Where the handler falls short\<close>

lemma handleSet_plain: "handleSet env [name, k, v] s = Ret (Set k v s, okReply)"
  using SetAdv_plain [of "clock env" k v s]
  by (auto simp: handleSet_def noOpts_def split: prod.split)

text \<open>
  C36. \<^verbatim>\<open>WATCH\<close> misses a change: \<^verbatim>\<open>FLUSHALL\<close> forgets the version counters, so a key watched at version 1 that
  is flushed and set again is back at version 1, with another value, and \<^verbatim>\<open>EXEC\<close> goes through.
\<close>

theorem watch_misses_flushall:
  assumes "watchedKeys h = [(k, 1)]"
    and "dispatchAll pub envs n [[''FLUSHALL''], [''SET'', k, v]] w = Ret (w', rs)"
  shows "\<not> watchDirty h w' \<and> Get now k (rstore w') = Some v"
proof -
  obtain w1 r1 r2 where one: "Dispatch pub (envs n) [''FLUSHALL''] w = Ret (w1, r1)"
    and two: "Dispatch pub (envs (Suc n)) [''SET'', k, v] w1 = Ret (w', r2)"
    using assms(2) by (auto simp: map_go_Ret split: go.splits)
  have up: "toUpper ''FLUSHALL'' = ''FLUSHALL''" "toUpper ''SET'' = ''SET''" by code_simp+
  have "map_of storeHandlers ''FLUSHALL'' = Some handleFlushAll" by (simp add: storeHandlers_def)
  then have "rstore w1 = NewMemoryStore"
    using Dispatch_live [OF one] up(1) by (auto simp: liveStep_def handleFlushAll_def Flush_empty split: if_splits)
  then have "rstore w' = Set k v NewMemoryStore"
    using Dispatch_live [OF two] up(2) by (auto simp: liveStep_def handler_names handleSet_plain split: if_splits)
  then show ?thesis using assms(1)
    by (simp add: watchDirty_def KeyVersion_def Version_def Set_def bumpVersion_def NewMemoryStore_def Get_def expired_def
        Let_def)
qed

theorem watch_misses_flushall_witness:
  "\<exists>w' rs. dispatchAll None (\<lambda>i. demoEnv) 0 [[''FLUSHALL''], [''SET'', ''k'', ''b'']] demoWorld = Ret (w', rs) \<and>
    \<not> watchDirty ((newHandler True)\<lparr>watchedKeys := [(''k'', 1)]\<rparr>) w' \<and> Get 0 ''k'' (rstore w') = Some ''b''"
proof -
  have "returns (dispatchAll None (\<lambda>i. demoEnv) 0 [[''FLUSHALL''], [''SET'', ''k'', ''b'']] demoWorld)" by code_simp
  then obtain w' rs where run: "dispatchAll None (\<lambda>i. demoEnv) 0 [[''FLUSHALL''], [''SET'', ''k'', ''b'']] demoWorld = Ret (w', rs)"
    by (cases "dispatchAll None (\<lambda>i. demoEnv) 0 [[''FLUSHALL''], [''SET'', ''k'', ''b'']] demoWorld") auto
  moreover have "watchedKeys ((newHandler True)\<lparr>watchedKeys := [(''k'', 1)]\<rparr>) = [(''k'', 1)]" by simp
  ultimately show ?thesis using watch_misses_flushall by blast
qed

lemma handlers_None: "name \<notin> set (''PUBLISH'' # map fst storeHandlers) \<Longrightarrow> handlers pub name = None"
  by (simp add: handlers_def map_of_eq_None_iff)

text \<open>
  C37. The name of an unknown command is echoed into the error line as it came: a name with a line break
  in it ends the error reply early, and the rest of the name arrives at the client as the beginning
  of further replies.
\<close>

theorem unknown_command_splits_reply:
  assumes "handlers pub (toUpper (a @ CRLF @ b)) = None" and "CHR 0x0A \<notin> set a" and "a = [] \<or> last a \<noteq> CHR 0x0D"
  shows "\<exists>resp. Dispatch pub env [a @ CRLF @ b] r = Ret (r, resp) \<and>
    ReadValue (Serialize resp) = Got (Error (''ERR unknown command '' @ CHR 0x27 # a)) (b @ CHR 0x27 # CRLF)"
proof -
  let ?m = "''ERR unknown command '' @ CHR 0x27 # a"
  have "wf_resp (Error ?m)" using assms(2,3) by (auto simp: line_ok_def)
  from ReadValue_Serialize [OF this, of "b @ CHR 0x27 # CRLF"]
  have "ReadValue (Serialize (unknownCommand (a @ CRLF @ b))) = Got (Error ?m) (b @ CHR 0x27 # CRLF)"
    by (simp add: unknownCommand_def quoted_def)
  then show ?thesis using assms(1) by (simp add: Dispatch_def Let_def)
qed

theorem unknown_command_splits_reply_witness:
  "\<exists>resp. Dispatch (Some Publish) demoEnv [''x'' @ CRLF @ ''+PONG''] demoWorld = Ret (demoWorld, resp) \<and>
    ReadValue (Serialize resp) = Got (Error (''ERR unknown command '' @ CHR 0x27 # ''x'')) (''+PONG'' @ CHR 0x27 # CRLF)"
proof (rule unknown_command_splits_reply)
  show "handlers (Some Publish) (toUpper (''x'' @ CRLF @ ''+PONG'')) = None"
    by (rule handlers_None) code_simp
qed simp_all

end
