(* ===== verification/Connections.thy ===== *)
theory Connections
  imports Transactions
begin

text \<open>
  All connections together: a transition system whose states are the open connections and the shared
  world, with the invariant that ties the broker's registry to the sets each connection keeps, and
  what follows from it for every reachable state.
\<close>

section \<open>The system\<close>

record System =
  open_conns :: "nat \<Rightarrow> Conn option"
  world_of :: world

definition startSystem :: "MemoryStore \<Rightarrow> AOF option \<Rightarrow> System" where
  "startSystem s a = \<lparr>open_conns = (\<lambda>_. None), world_of = \<lparr>rstore = s, raof = a, rpub = NewBroker\<rparr>\<rparr>"

text \<open>
  The steps: a client connects, one of its commands is served, its write loop takes one turn, its
  socket starts to fail, its handler returns, and the background goroutines sweep the store and
  flush the file.  The write loop of a connection that has gone only drains its own mailbox and is left out.
\<close>

inductive sysStep :: "System \<Rightarrow> System \<Rightarrow> bool" where
  connect: "open_conns S i = None \<Longrightarrow> sysStep S (S\<lparr>open_conns := (open_conns S)(i \<mapsto> newHandler brk)\<rparr>)"
| command: "open_conns S i = Some h \<Longrightarrow> args \<noteq> [] \<Longrightarrow>
    serveCommand envs args (h, world_of S) = Ret ((h', w'), go_on) \<Longrightarrow>
    sysStep S (S\<lparr>open_conns := (open_conns S)(i \<mapsto> h'), world_of := w'\<rparr>)"
| write_turn: "open_conns S i = Some h \<Longrightarrow> writeTurn (h, world_of S) = (h', w') \<Longrightarrow>
    sysStep S (S\<lparr>open_conns := (open_conns S)(i \<mapsto> h'), world_of := w'\<rparr>)"
| breaks: "open_conns S i = Some h \<Longrightarrow> sysStep S (S\<lparr>open_conns := (open_conns S)(i \<mapsto> h\<lparr>broken := True\<rparr>)\<rparr>)"
| leave: "open_conns S i = Some h \<Longrightarrow> cleanupSubscriptions (h, world_of S) = (h', w') \<Longrightarrow>
    sysStep S (S\<lparr>open_conns := (open_conns S)(i := None), world_of := w'\<rparr>)"
| sweep: "sysStep S (S\<lparr>world_of := (world_of S)\<lparr>rstore := deleteExpired now (rstore (world_of S))\<rparr>\<rparr>)"
| sync: "sysStep S (S\<lparr>world_of := (world_of S)\<lparr>raof := map_option syncTick (raof (world_of S))\<rparr>\<rparr>)"

inductive sysReach :: "System \<Rightarrow> bool" where
  start: "sysReach (startSystem s a)"
| step: "sysReach S \<Longrightarrow> sysStep S S' \<Longrightarrow> sysReach S'"

section \<open>The invariant\<close>

definition boxesOk :: "Broker \<Rightarrow> bool" where
  "boxesOk b \<longleftrightarrow> (\<forall>x. length (inbox (heap b x)) \<le> inboxSize)"

definition connOk :: "Broker \<Rightarrow> Conn \<Rightarrow> bool" where
  "connOk b h \<longleftrightarrow> txErrors h = 0 \<and> (\<not> inMulti h \<longrightarrow> txQueue h = []) \<and>
     (case sub h of
        None \<Rightarrow> subChans h = [] \<and> subPatterns h = []
      | Some x \<Rightarrow> hasBroker h \<and> x < nextSub b \<and> \<not> closedSub (heap b x) \<and>
          (\<forall>c. map_of (subChans h) c \<noteq> None \<longleftrightarrow> listensOn (channels b) c x) \<and>
          (\<forall>c. map_of (subPatterns h) c \<noteq> None \<longleftrightarrow> listensOn (patterns b) c x))"

definition freshAbove :: "Broker \<Rightarrow> bool" where
  "freshAbove b \<longleftrightarrow> (\<forall>x c. nextSub b \<le> x \<longrightarrow> \<not> listensOn (channels b) c x \<and> \<not> listensOn (patterns b) c x)"

text \<open>What one connection needs of the broker, and how it may change what other subscribers see.\<close>

definition local :: "Conn \<Rightarrow> Broker \<Rightarrow> bool" where
  "local h b \<longleftrightarrow> wf_broker b \<and> boxesOk b \<and> freshAbove b \<and> connOk b h"

definition sameFor :: "subAddr \<Rightarrow> Broker \<Rightarrow> Broker \<Rightarrow> bool" where
  "sameFor y b b' \<longleftrightarrow> (\<forall>c. listensOn (channels b') c y = listensOn (channels b) c y) \<and>
     (\<forall>c. listensOn (patterns b') c y = listensOn (patterns b) c y) \<and> closedSub (heap b' y) = closedSub (heap b y)"

definition mine :: "Conn \<Rightarrow> Broker \<Rightarrow> Conn \<Rightarrow> bool" where
  "mine h b h' \<longleftrightarrow> (case sub h of Some x \<Rightarrow> sub h' = Some x
     | None \<Rightarrow> (case sub h' of None \<Rightarrow> True | Some x \<Rightarrow> nextSub b \<le> x))"

definition evolves :: "Conn \<Rightarrow> Broker \<Rightarrow> Conn \<Rightarrow> Broker \<Rightarrow> bool" where
  "evolves h b h' b' \<longleftrightarrow> (local h b \<longrightarrow>
     local h' b' \<and> nextSub b \<le> nextSub b' \<and> mine h b h' \<and> (\<forall>y. sub h' \<noteq> Some y \<longrightarrow> sameFor y b b'))"

lemma evolves_refl [simp]: "evolves h b h b"
  by (auto simp: evolves_def mine_def sameFor_def split: option.split)

lemma mine_trans: "mine h b h' \<Longrightarrow> mine h' b' h'' \<Longrightarrow> nextSub b \<le> nextSub b' \<Longrightarrow> mine h b h''"
  by (auto simp: mine_def split: option.splits)

lemma mine_other: "mine h b h' \<Longrightarrow> sub h' \<noteq> Some y \<Longrightarrow> sub h \<noteq> Some y"
  by (auto simp: mine_def split: option.splits)

lemma evolves_trans:
  assumes "evolves h b h' b'" and "evolves h' b' h'' b''"
  shows "evolves h b h'' b''"
  unfolding evolves_def
proof (intro impI conjI allI)
  assume loc: "local h b"
  then have one: "local h' b'" "nextSub b \<le> nextSub b'" "mine h b h'" "\<And>y. sub h' \<noteq> Some y \<Longrightarrow> sameFor y b b'"
    using assms(1) by (simp_all add: evolves_def)
  then have two: "local h'' b''" "nextSub b' \<le> nextSub b''" "mine h' b' h''" "\<And>y. sub h'' \<noteq> Some y \<Longrightarrow> sameFor y b' b''"
    using assms(2) by (simp_all add: evolves_def)
  show "local h'' b''" "nextSub b \<le> nextSub b''" using one two by simp_all
  show "mine h b h''" using mine_trans one(2,3) two(3) by blast
  fix y assume "sub h'' \<noteq> Some y"
  with two(3) have "sub h' \<noteq> Some y" by (rule mine_other)
  with one(4) two(4) \<open>sub h'' \<noteq> Some y\<close> show "sameFor y b b''" by (simp add: sameFor_def)
qed

definition evolve :: "hstate \<Rightarrow> hstate \<Rightarrow> bool" where
  "evolve st st' \<longleftrightarrow> evolves (fst st) (rpub (snd st)) (fst st') (rpub (snd st'))"

lemma evolve_refl [simp]: "evolve st st"
  by (simp add: evolve_def)

lemma evolve_trans: "evolve st st' \<Longrightarrow> evolve st' st'' \<Longrightarrow> evolve st st''"
  unfolding evolve_def by (rule evolves_trans)

lemma evolve_fold:
  assumes "\<And>c st. sub (fst st) = Some x \<Longrightarrow> evolve st (f c st) \<and> sub (fst (f c st)) = Some x"
  shows "sub (fst st) = Some x \<Longrightarrow> evolve st (fold f cs st)"
proof (induction cs arbitrary: st)
  case (Cons c cs)
  then have "evolve st (f c st)" "sub (fst (f c st)) = Some x" using assms [of st c] by simp_all
  then show ?case using evolve_trans [OF _ Cons.IH, of st] by simp
qed simp

section \<open>Every step of a connection\<close>

definition quiet :: "Conn \<Rightarrow> bool" where
  "quiet h \<longleftrightarrow> txErrors h = 0 \<and> (\<not> inMulti h \<longrightarrow> txQueue h = [])"

lemma evolves_heap:
  assumes "channels b' = channels b" "patterns b' = patterns b" "nextSub b' = nextSub b"
    and "\<And>y. closedSub (heap b' y) = closedSub (heap b y)" and "boxesOk b \<Longrightarrow> boxesOk b'"
    and "sub h' = sub h" "subChans h' = subChans h" "subPatterns h' = subPatterns h" "hasBroker h' = hasBroker h" and "quiet h \<Longrightarrow> quiet h'"
  shows "evolves h b h' b'"
  using assms
  by (auto simp: evolves_def local_def connOk_def quiet_def freshAbove_def wf_broker_def mine_def sameFor_def
      split: option.splits)

lemma boxesOk_Send: "boxesOk b \<Longrightarrow> boxesOk (fst (Send x m b))"
  by (auto simp: boxesOk_def Send_heap SendTo_def)

lemma closedSub_Send: "closedSub (heap (fst (Send x m b)) y) = closedSub (heap b y)"
  by (simp add: Send_heap SendTo_inbox)

lemma boxesOk_deliver: "boxesOk b \<Longrightarrow> boxesOk (fst (deliver ms b n))"
  by (simp add: boxesOk_def heap_bounded)

lemma closedSub_deliver: "closedSub (heap (fst (deliver ms b n)) y) = closedSub (heap b y)"
proof (induction ms arbitrary: b n)
  case (Cons p ms)
  then show ?case by (cases p) (simp add: deliver_Cons closedSub_Send del: deliver.simps(2))
qed simp

lemma evolve_send:
  "sub h' = sub h \<Longrightarrow> subChans h' = subChans h \<Longrightarrow> subPatterns h' = subPatterns h \<Longrightarrow> hasBroker h' = hasBroker h \<Longrightarrow> (quiet h \<Longrightarrow> quiet h') \<Longrightarrow>
     evolve (h, w) (h', sendSub x m w)"
  by (simp add: evolve_def sendSub_def onBroker_def evolves_heap boxesOk_Send closedSub_Send)

lemma evolve_own:
  "sub h' = sub h \<Longrightarrow> subChans h' = subChans h \<Longrightarrow> subPatterns h' = subPatterns h \<Longrightarrow> hasBroker h' = hasBroker h \<Longrightarrow> (quiet h \<Longrightarrow> quiet h') \<Longrightarrow>
     rpub w' = rpub w \<Longrightarrow> evolve (h, w) (h', w')"
  by (simp add: evolve_def evolves_heap)

lemma evolve_respond: "evolve st (fst (respond p st))"
  by (cases st) (auto simp: respond_def quiet_def split: option.splits intro!: evolve_send evolve_own)

lemma evolve_publish: "rpub w' = fst (Publish c m (rpub w)) \<Longrightarrow> evolve (h, w) (h, w')"
  by (simp add: evolve_def Publish_def Let_def evolves_heap boxesOk_deliver closedSub_deliver)

lemma evolve_Dispatch:
  assumes "Dispatch (Some Publish) env args w = Ret (w', resp)"
  shows "evolve (h, w) (h, w')"
  using assms
proof (cases rule: Dispatch_cases)
  case (ran fn s b recs)
  from ran(2) show ?thesis
  proof (cases rule: handlers_cases)
    case 1
    then have "b = rpub w \<or> (\<exists>c m. b = fst (Publish c m (rpub w)))" using ran(3)
      by (auto simp: makePublishHandler_def Let_def split: if_splits prod.splits) (metis fst_conv)
    then show ?thesis using ran(5) by (auto intro: evolve_publish evolve_own)
  next
    case (2 f)
    then show ?thesis using ran(3,5) by (auto simp: onStore_Ret intro: evolve_own)
  qed
qed simp

lemma evolve_dispatchAll: "dispatchAll (Some Publish) envs n cmds w = Ret (w', rs) \<Longrightarrow> evolve (h, w) (h, w')"
proof (induction cmds arbitrary: n w rs)
  case (Cons c cs)
  then obtain w1 resp rs1 where "Dispatch (Some Publish) (envs n) c w = Ret (w1, resp)"
    "dispatchAll (Some Publish) envs (Suc n) cs w1 = Ret (w', rs1)"
    by (auto simp: map_go_Ret split: go.splits)
  then show ?case using Cons.IH evolve_Dispatch evolve_trans by blast
qed simp

lemma evolve_registry:
  assumes "sub h = Some x" "sub h' = sub h"
    and "heap b' = heap b" "nextSub b' = nextSub b"
    and "wf_broker b \<Longrightarrow> wf_broker b'"
    and "\<And>c y. y \<noteq> x \<Longrightarrow> listensOn (channels b') c y = listensOn (channels b) c y"
    and "\<And>c y. y \<noteq> x \<Longrightarrow> listensOn (patterns b') c y = listensOn (patterns b) c y"
    and "connOk b h \<Longrightarrow> connOk b' h'"
  shows "evolves h b h' b'"
proof -
  have "local h b \<Longrightarrow> local h' b'"
    using assms by (auto simp: local_def boxesOk_def freshAbove_def connOk_def)
  then show ?thesis using assms by (auto simp: evolves_def mine_def sameFor_def)
qed

lemma evolve_ensure: "hasBroker (fst st) \<Longrightarrow> evolve st (ensureSubscriber st)" "\<exists>x. sub (fst (ensureSubscriber st)) = Some x"
proof -
  obtain h w where st: "st = (h, w)" by (cases st)
  show "\<exists>x. sub (fst (ensureSubscriber st)) = Some x"
    by (simp add: st ensureSubscriber_def Let_def split: option.split)
  assume "hasBroker (fst st)"
  then show "evolve st (ensureSubscriber st)"
  proof (cases "sub h")
    case None
    with \<open>hasBroker (fst st)\<close> show ?thesis
      by (auto simp: st evolve_def evolves_def ensureSubscriber_def onBroker_def local_def boxesOk_def freshAbove_def
          wf_broker_def connOk_def mine_def sameFor_def NewSubscriber_def Let_def)
  qed (simp add: st ensureSubscriber_def)
qed

lemma evolve_subscribeOne:
  assumes "sub (fst st) = Some x"
  shows "evolve st (subscribeOne x c st) \<and> sub (fst (subscribeOne x c st)) = Some x"
    "evolve st (psubscribeOne x c st) \<and> sub (fst (psubscribeOne x c st)) = Some x"
    "evolve st (unsubscribeOne x c st) \<and> sub (fst (unsubscribeOne x c st)) = Some x"
    "evolve st (punsubscribeOne x c st) \<and> sub (fst (punsubscribeOne x c st)) = Some x"
proof -
  obtain h w where st: "st = (h, w)" by (cases st)
  have h: "sub h = Some x" using assms st by simp
  have 1: "evolve (h, w) (h\<lparr>subChans := mput c () (subChans h)\<rparr>, onBroker (Subscribe c x) w)"
    "evolve (h, w) (h\<lparr>subPatterns := mput c () (subPatterns h)\<rparr>, onBroker (PSubscribe c x) w)"
    "evolve (h, w) (h\<lparr>subChans := mdel c (subChans h)\<rparr>, onBroker (Unsubscribe c x) w)"
    "evolve (h, w) (h\<lparr>subPatterns := mdel c (subPatterns h)\<rparr>, onBroker (PUnsubscribe c x) w)"
    by (auto simp: evolve_def onBroker_def broker_defs listensOn_addTo listensOn_removeFromMap wf_registry_addTo
        wf_registry_removeFromMap connOk_def h intro!: evolve_registry [OF h])
  show "evolve st (subscribeOne x c st) \<and> sub (fst (subscribeOne x c st)) = Some x"
    "evolve st (psubscribeOne x c st) \<and> sub (fst (psubscribeOne x c st)) = Some x"
    "evolve st (unsubscribeOne x c st) \<and> sub (fst (unsubscribeOne x c st)) = Some x"
    "evolve st (punsubscribeOne x c st) \<and> sub (fst (punsubscribeOne x c st)) = Some x"
    using h by (auto simp: st subscribeOne_def psubscribeOne_def unsubscribeOne_def punsubscribeOne_def Let_def
        intro: evolve_trans [OF 1(1)] evolve_trans [OF 1(2)] evolve_trans [OF 1(3)] evolve_trans [OF 1(4)] evolve_send)
qed

lemma evolve_subscriptions:
  "evolve st (handleSubscribe cs st)" "evolve st (handlePSubscribe cs st)"
  "evolve st (handleUnsubscribe cs st)" "evolve st (handlePUnsubscribe cs st)"
proof -
  obtain x where x: "sub (fst (ensureSubscriber st)) = Some x" using evolve_ensure(2) by blast
  have "evolve st (fold (subscribeOne x) cs (ensureSubscriber st))"
    "evolve st (fold (psubscribeOne x) cs (ensureSubscriber st))" if "hasBroker (fst st)"
    by (rule evolve_trans [OF evolve_ensure(1) [OF that] evolve_fold [OF _ x]], rule evolve_subscribeOne, assumption)+
  then show "evolve st (handleSubscribe cs st)" "evolve st (handlePSubscribe cs st)"
    by (simp_all add: handleSubscribe_def handlePSubscribe_def evolve_respond x Let_def)
  have "sub (fst st) = Some y \<Longrightarrow> evolve st (fold (unsubscribeOne y) ds st)"
    "sub (fst st) = Some y \<Longrightarrow> evolve st (fold (punsubscribeOne y) ds st)" for y ds
    by (rule evolve_fold [where x = y], rule evolve_subscribeOne, assumption+)+
  then show "evolve st (handleUnsubscribe cs st)" "evolve st (handlePUnsubscribe cs st)"
    by (simp_all add: handleUnsubscribe_def handlePUnsubscribe_def split: option.split)
qed

lemma evolve_exec: "handleExec envs (h, w) = Ret (st', ps) \<Longrightarrow> evolve (h, w) st'"
proof -
  have end_tx: "evolve (h, w) (endTx h, w)" for w by (rule evolve_own) (simp_all add: endTx_def quiet_def)
  assume "handleExec envs (h, w) = Ret (st', ps)"
  then consider "st' = (h, w)" | "st' = (endTx h, w)"
    | w' rs where "dispatchAll (Some Publish) envs 0 (txQueue h) w = Ret (w', rs)" "st' = (endTx h, w')"
    by (auto simp: handleExec_def execLoop_dispatchAll map_go_Ret split: if_splits)
  then show "evolve (h, w) st'"
  proof cases
    case 3
    then show ?thesis using evolve_trans [OF evolve_dispatchAll end_tx] by blast
  qed (simp_all add: end_tx)
qed

lemma evolve_respondMany: "evolve st (fst (respondMany ps st))"
proof (induction ps arbitrary: st)
  case (Cons p ps)
  have "evolve st (fst (respond p st))" by (rule evolve_respond)
  then show ?case using evolve_trans [OF _ Cons.IH] by (simp add: case_prod_beta)
qed simp

lemma evolve_reply: "evolve st st' \<Longrightarrow> evolve st (fst (respond p st'))"
  by (rule evolve_trans [OF _ evolve_respond])

lemma evolve_tx:
  "evolve (h, w) (fst (handleMulti h), w)" "evolve (h, w) (fst (handleDiscard h), w)"
  "evolve (h, w) (fst (handleWatch ks (h, w)), w)" "evolve (h, w) (h\<lparr>watchedKeys := []\<rparr>, w)"
  "inMulti h \<Longrightarrow> evolve (h, w) (h\<lparr>txQueue := q\<rparr>, w)"
  by (rule evolve_own; simp add: handleMulti_def handleDiscard_def handleWatch_def endTx_def quiet_def)+

definition evolveGo :: "hstate \<Rightarrow> (hstate \<times> bool) go \<Rightarrow> bool" where
  "evolveGo st r \<longleftrightarrow> (\<forall>st' b. r = Ret (st', b) \<longrightarrow> evolve st st')"

lemma evolveGo_simps [simp]: "evolveGo st (Ret p) \<longleftrightarrow> evolve st (fst p)" "evolveGo st Panic"
  by (cases p) (simp_all add: evolveGo_def)

lemma evolveGo_exec: "evolveGo (h, w) (map_go (\<lambda>(st, parts). respondMany parts st) (handleExec envs (h, w)))"
proof (cases "handleExec envs (h, w)")
  case (Ret p)
  obtain st ps where p: "p = (st, ps)" by (cases p)
  have "evolve (h, w) st" using evolve_exec [of envs h w st ps] Ret p by simp
  then show ?thesis using evolve_trans [OF _ evolve_respondMany] Ret p by simp
qed simp

lemma evolveGo_dispatch:
  "evolveGo (h, w) (case Dispatch (Some Publish) env args w of
       Panic \<Rightarrow> Panic | Ret (w, resp) \<Rightarrow> Ret (respond (Serialize resp) (h, w)))"
proof (cases "Dispatch (Some Publish) env args w")
  case (Ret p)
  obtain w' resp where p: "p = (w', resp)" by (cases p)
  have "evolve (h, w) (h, w')" using evolve_Dispatch Ret p by blast
  then show ?thesis using Ret p by (simp add: evolve_reply)
qed simp

lemma evolveGo_pair:
  "evolveGo st (case p of (h, r) \<Rightarrow> Ret (respond (Serialize r) (h, w)))
     \<longleftrightarrow> evolve st (fst (respond (Serialize (snd p)) (fst p, w)))"
  by (cases p) simp

lemma evolve_serveCommand: "serveCommand envs args (h, w) = Ret (st', go_on) \<Longrightarrow> evolve (h, w) st'"
proof -
  have "evolveGo (h, w) (serveCommand envs args (h, w))"
    unfolding serveCommand_def Let_def prod.case
    by (simp add: evolve_subscriptions evolve_respond evolve_reply evolve_tx evolveGo_exec evolveGo_dispatch evolveGo_pair)
  then show "serveCommand envs args (h, w) = Ret (st', go_on) \<Longrightarrow> evolve (h, w) st'" by (simp add: evolveGo_def)
qed

lemma evolve_writeTurn: "evolve st (writeTurn st)"
proof -
  obtain h w where st: "st = (h, w)" by (cases st)
  have drop1: "boxesOk b \<Longrightarrow> inbox (heap b x) = m # rest \<Longrightarrow>
      boxesOk (b\<lparr>heap := (heap b)(x := (heap b x)\<lparr>inbox := rest\<rparr>)\<rparr>)" for b x m rest
    unfolding boxesOk_def by (auto dest: spec [of _ x])
  have "evolve (h, w) (h', onBroker (\<lambda>b. b\<lparr>heap := (heap b)(x := (heap (rpub w) x)\<lparr>inbox := rest\<rparr>)\<rparr>) w)"
    if "inbox (heap (rpub w) x) = m # rest" "h' = h\<lparr>written := p\<rparr> \<or> h' = h \<or> h' = h\<lparr>writerDone := True\<rparr>" for x m rest h' p
    using that drop1 [OF _ that(1)]
    by (auto simp: evolve_def onBroker_def quiet_def split: if_splits intro!: evolves_heap)
  note turn = this [OF _ disjI1 [OF refl]] this [OF _ disjI2 [OF disjI1 [OF refl]]] this [OF _ disjI2 [OF disjI2 [OF refl]]]
  have "evolve (h, w) (h\<lparr>writerDone := True\<rparr>, w)" by (rule evolve_own) (simp_all add: quiet_def)
  then show ?thesis
    by (simp add: st writeTurn_def turn Let_def split: option.split list.split)
qed

section \<open>The invariant of the system\<close>

definition sysInv :: "System \<Rightarrow> bool" where
  "sysInv S \<longleftrightarrow> (let b = rpub (world_of S); cs = open_conns S
     in wf_broker b \<and> boxesOk b \<and> freshAbove b \<and> (\<forall>i h. cs i = Some h \<longrightarrow> connOk b h) \<and>
       (\<forall>i j h h' x. cs i = Some h \<and> cs j = Some h' \<and> sub h = Some x \<and> sub h' = Some x \<longrightarrow> i = j) \<and>
       (\<forall>c x. listensOn (channels b) c x \<or> listensOn (patterns b) c x \<longrightarrow> (\<exists>i h. cs i = Some h \<and> sub h = Some x)))"

lemma sysInvD:
  assumes "sysInv S" and "open_conns S i = Some h"
  shows "local h (rpub (world_of S))"
  using assms by (auto simp: sysInv_def local_def Let_def)

lemma sysInvI:
  assumes "wf_broker (rpub (world_of S))" "boxesOk (rpub (world_of S))" "freshAbove (rpub (world_of S))"
    and "\<And>i h. open_conns S i = Some h \<Longrightarrow> connOk (rpub (world_of S)) h"
    and "\<And>i j h h' x. open_conns S i = Some h \<Longrightarrow> open_conns S j = Some h' \<Longrightarrow> sub h = Some x \<Longrightarrow> sub h' = Some x \<Longrightarrow> i = j"
    and "\<And>c x. listensOn (channels (rpub (world_of S))) c x \<or> listensOn (patterns (rpub (world_of S))) c x \<Longrightarrow>
      \<exists>i h. open_conns S i = Some h \<and> sub h = Some x"
  shows "sysInv S"
  unfolding sysInv_def Let_def using assms by blast

lemma sysInv_unique:
  "sysInv S \<Longrightarrow> open_conns S i = Some h \<Longrightarrow> open_conns S j = Some h' \<Longrightarrow> sub h = Some x \<Longrightarrow> sub h' = Some x \<Longrightarrow> i = j"
  unfolding sysInv_def Let_def by blast

lemma sysInv_owner:
  "sysInv S \<Longrightarrow> listensOn (channels (rpub (world_of S))) c x \<or> listensOn (patterns (rpub (world_of S))) c x \<Longrightarrow>
     \<exists>i h. open_conns S i = Some h \<and> sub h = Some x"
  unfolding sysInv_def Let_def by blast

lemma sysInv_evolve:
  assumes inv: "sysInv S" and i: "open_conns S i = Some h" and ev: "evolve (h, world_of S) (h', w')"
  shows "sysInv (S\<lparr>open_conns := (open_conns S)(i \<mapsto> h'), world_of := w'\<rparr>)"
proof -
  let ?b = "rpub (world_of S)" and ?b' = "rpub w'"
  have ok: "local h' ?b'" "nextSub ?b \<le> nextSub ?b'" "mine h ?b h'" and same: "\<And>y. sub h' \<noteq> Some y \<Longrightarrow> sameFor y ?b ?b'"
    using ev sysInvD [OF inv i] by (simp_all add: evolve_def evolves_def)
  have other: "sub h' \<noteq> Some x" if "open_conns S j = Some g" "sub g = Some x" "j \<noteq> i" for j g x
  proof -
    have "x < nextSub ?b" using sysInvD [OF inv that(1)] that(2) by (simp add: local_def connOk_def)
    moreover have "sub h \<noteq> Some x" using inv i that by (auto simp: sysInv_def Let_def)
    ultimately show ?thesis using ok(3) by (auto simp: mine_def split: option.splits)
  qed
  have conns: "connOk ?b' g" if "open_conns S j = Some g" "j \<noteq> i" for j g
  proof -
    have "connOk ?b g" using inv that(1) by (auto simp: sysInv_def Let_def)
    then show ?thesis using same other [OF that(1) _ that(2)] ok(2)
      by (cases "sub g") (auto simp: connOk_def sameFor_def)
  qed
  have reg: "\<exists>j g. (if j = i then Some h' else open_conns S j) = Some g \<and> sub g = Some x"
    if "listensOn (channels ?b') c x \<or> listensOn (patterns ?b') c x" for c x
  proof (cases "sub h' = Some x")
    case False
    then have "listensOn (channels ?b) c x \<or> listensOn (patterns ?b) c x" "sub h \<noteq> Some x"
      using same that mine_other [OF ok(3)] by (auto simp: sameFor_def)
    then obtain j g where "open_conns S j = Some g" "sub g = Some x" using sysInv_owner [OF inv] by blast
    moreover from this i \<open>sub h \<noteq> Some x\<close> have "j \<noteq> i" by auto
    ultimately show ?thesis by auto
  qed auto
  have unique: "j = k" if "(if j = i then Some h' else open_conns S j) = Some g"
    "(if k = i then Some h' else open_conns S k) = Some g'" "sub g = Some x" "sub g' = Some x" for j k g g' x
  proof (cases "j = i \<or> k = i")
    case True
    then show ?thesis using that other [of j g x] other [of k g' x] by (cases "j = i"; cases "k = i") simp_all
  next
    case False
    then have "open_conns S j = Some g" "open_conns S k = Some g'" using that by simp_all
    then show ?thesis using sysInv_unique [OF inv _ _ that(3,4)] by blast
  qed
  let ?S = "S\<lparr>open_conns := (open_conns S)(i \<mapsto> h'), world_of := w'\<rparr>"
  have S: "open_conns ?S = (\<lambda>j. if j = i then Some h' else open_conns S j)" "world_of ?S = w'" by auto
  have ok': "wf_broker ?b'" "boxesOk ?b'" "freshAbove ?b'" "connOk ?b' h'" using ok(1) by (simp_all add: local_def)
  have all: "connOk ?b' g" if "(if j = i then Some h' else open_conns S j) = Some g" for j g
    using that ok'(4) conns [of j g] by (cases "j = i") simp_all
  show ?thesis by (rule sysInvI) (unfold S, (fact ok' all unique reg)+)
qed

lemma sysInv_start: "sysInv (startSystem s a)"
  using wf_broker_New
  by (simp add: sysInv_def startSystem_def boxesOk_def freshAbove_def NewBroker_def NewSubscriber_def listensOn_def subsOf_def
      Let_def)

lemma connOk_new: "connOk b (newHandler brk)"
  by (simp add: connOk_def newHandler_def)

lemma sysInv_connect:
  assumes inv: "sysInv S" and i: "open_conns S i = None"
  shows "sysInv (S\<lparr>open_conns := (open_conns S)(i \<mapsto> newHandler brk)\<rparr>)"
proof -
  let ?S = "S\<lparr>open_conns := (open_conns S)(i \<mapsto> newHandler brk)\<rparr>"
  have S: "open_conns ?S = (\<lambda>j. if j = i then Some (newHandler brk) else open_conns S j)" "world_of ?S = world_of S" by auto
  have none: "sub (newHandler brk) = None" by (simp add: newHandler_def)
  have shared: "wf_broker (rpub (world_of S))" "boxesOk (rpub (world_of S))" "freshAbove (rpub (world_of S))"
    using inv by (simp_all add: sysInv_def Let_def)
  have all: "connOk (rpub (world_of S)) g" if "(if j = i then Some (newHandler brk) else open_conns S j) = Some g" for j g
    using that connOk_new sysInvD [OF inv, of j g] by (cases "j = i") (auto simp: local_def)
  have unique: "j = k" if "(if j = i then Some (newHandler brk) else open_conns S j) = Some g"
    "(if k = i then Some (newHandler brk) else open_conns S k) = Some g'" "sub g = Some x" "sub g' = Some x" for j k g g' x
    using that none sysInv_unique [OF inv, of j g k g' x] by (cases "j = i"; cases "k = i") auto
  have reg: "\<exists>j g. (if j = i then Some (newHandler brk) else open_conns S j) = Some g \<and> sub g = Some x"
    if lis: "listensOn (channels (rpub (world_of S))) c x \<or> listensOn (patterns (rpub (world_of S))) c x" for c x
  proof -
    obtain j g where "open_conns S j = Some g" "sub g = Some x" using sysInv_owner [OF inv lis] by blast
    then show ?thesis using i by (intro exI [of _ j] exI [of _ g]) auto
  qed
  show ?thesis by (rule sysInvI) (unfold S, (fact shared all unique reg)+)
qed

lemma cleanup_listens:
  assumes "cleanupSubscriptions (h, w) = (h', w')" and "local h (rpub w)"
  shows "wf_broker (rpub w') \<and> boxesOk (rpub w') \<and> nextSub (rpub w') = nextSub (rpub w)"
    and "sub h \<noteq> Some y \<Longrightarrow> sameFor y (rpub w) (rpub w')"
    and "sub h = Some y \<Longrightarrow> \<not> listensOn (channels (rpub w')) c y \<and> \<not> listensOn (patterns (rpub w')) c y"
proof -
  have "hasBroker h" if "sub h = Some x" for x using assms(2) that by (simp add: local_def connOk_def)
  note facts = assms this
  show "wf_broker (rpub w') \<and> boxesOk (rpub w') \<and> nextSub (rpub w') = nextSub (rpub w)"
    "sub h \<noteq> Some y \<Longrightarrow> sameFor y (rpub w) (rpub w')"
    "sub h = Some y \<Longrightarrow> \<not> listensOn (channels (rpub w')) c y \<and> \<not> listensOn (patterns (rpub w')) c y"
    using facts
    by (cases "sub h"; auto simp: cleanupSubscriptions_def onBroker_def local_def sameFor_def boxesOk_def CloseSub_def
        UnsubscribeAll_eq wf_broker_def wf_registry_removeAll listensOn_removeAll Let_def)+
qed

lemma sysInv_leave:
  assumes inv: "sysInv S" and i: "open_conns S i = Some h" and clean: "cleanupSubscriptions (h, world_of S) = (h', w')"
  shows "sysInv (S\<lparr>open_conns := (open_conns S)(i := None), world_of := w'\<rparr>)"
proof -
  let ?b = "rpub (world_of S)" and ?b' = "rpub w'"
  note gone = cleanup_listens [OF clean sysInvD [OF inv i]]
  have other: "sub h \<noteq> Some x" if "open_conns S j = Some g" "sub g = Some x" "j \<noteq> i" for j g x
    using inv i that by (auto simp: sysInv_def Let_def)
  have conns: "connOk ?b' g" if "open_conns S j = Some g" "j \<noteq> i" for j g
  proof -
    have "connOk ?b g" using inv that(1) by (auto simp: sysInv_def Let_def)
    then show ?thesis using gone(1,2) other [OF that(1) _ that(2)]
      by (cases "sub g") (auto simp: connOk_def sameFor_def)
  qed
  have reg: "\<exists>j g. j \<noteq> i \<and> open_conns S j = Some g \<and> sub g = Some x"
    if lis: "listensOn (channels ?b') c x \<or> listensOn (patterns ?b') c x" for c x
  proof -
    have "sub h \<noteq> Some x" using gone(3) lis by blast
    then have "listensOn (channels ?b) c x \<or> listensOn (patterns ?b) c x" using gone(2) lis by (auto simp: sameFor_def)
    then obtain j g where "open_conns S j = Some g" "sub g = Some x" using sysInv_owner [OF inv] by blast
    with i \<open>sub h \<noteq> Some x\<close> show ?thesis by (intro exI [of _ j] exI [of _ g]) auto
  qed
  have "freshAbove ?b'"
  proof -
    have "x < nextSub ?b'" if lis: "listensOn (channels ?b') c x \<or> listensOn (patterns ?b') c x" for c x
    proof -
      obtain j g where g: "open_conns S j = Some g" "sub g = Some x" using reg [OF lis] by blast
      then show ?thesis using sysInvD [OF inv g(1)] gone(1) by (simp add: local_def connOk_def)
    qed
    then show ?thesis unfolding freshAbove_def using leD by blast
  qed
  moreover have "wf_broker ?b'" "boxesOk ?b'" using gone(1) by simp_all
  moreover have "connOk ?b' g" if "(if j = i then None else open_conns S j) = Some g" for j g
    using that conns [of j g] by (cases "j = i") simp_all
  moreover have "j = k" if "(if j = i then None else open_conns S j) = Some g"
    "(if k = i then None else open_conns S k) = Some g'" "sub g = Some x" "sub g' = Some x" for j k g g' x
    using that sysInv_unique [OF inv, of j g k g' x] by (cases "j = i"; cases "k = i") simp_all
  moreover have "\<exists>j g. (if j = i then None else open_conns S j) = Some g \<and> sub g = Some x"
    if lis: "listensOn (channels ?b') c x \<or> listensOn (patterns ?b') c x" for c x
  proof -
    obtain j g where "j \<noteq> i" "open_conns S j = Some g" "sub g = Some x" using reg [OF lis] by blast
    then show ?thesis by (intro exI [of _ j] exI [of _ g]) simp
  qed
  moreover let ?S = "S\<lparr>open_conns := (open_conns S)(i := None), world_of := w'\<rparr>"
  have S: "open_conns ?S = (\<lambda>j. if j = i then None else open_conns S j)" "world_of ?S = w'" by auto
  ultimately show ?thesis by (intro sysInvI) (unfold S)
qed

lemma sysInv_step: "sysStep S S' \<Longrightarrow> sysInv S \<Longrightarrow> sysInv S'"
proof (induction rule: sysStep.induct)
  case (connect S i brk)
  then show ?case by (rule sysInv_connect [rotated])
next
  case (command S i h args envs h' w' go_on)
  then show ?case by (intro sysInv_evolve evolve_serveCommand)
next
  case (write_turn S i h h' w')
  then show ?case using evolve_writeTurn [of "(h, world_of S)"] by (intro sysInv_evolve) simp_all
next
  case (breaks S i h)
  then have "sysInv (S\<lparr>open_conns := (open_conns S)(i \<mapsto> h\<lparr>broken := True\<rparr>), world_of := world_of S\<rparr>)"
    by (intro sysInv_evolve evolve_own) (simp_all add: quiet_def)
  then show ?case by simp
next
  case (leave S i h h' w')
  then show ?case by (intro sysInv_leave)
next
  case (sweep S now)
  then show ?case by (simp add: sysInv_def Let_def)
next
  case (sync S)
  then show ?case by (simp add: sysInv_def Let_def)
qed

lemma sysReach_inv: "sysReach S \<Longrightarrow> sysInv S"
  by (induction rule: sysReach.induct) (auto intro: sysInv_start sysInv_step)

section \<open>The write loop catches up\<close>

lemma writeTurn_one:
  assumes "sub h = Some x" "\<not> broken h" "\<not> writerDone h" and "inbox (heap (rpub w) x) = m # ms"
  shows "\<exists>w'. writeTurn (h, w) = (h\<lparr>written := written h @ m\<rparr>, w') \<and> inbox (heap (rpub w') x) = ms"
  using assms by (simp add: writeTurn_def onBroker_def Let_def)

lemma writeTurns:
  "sub h = Some x \<Longrightarrow> \<not> broken h \<Longrightarrow> \<not> writerDone h \<Longrightarrow> inbox (heap (rpub w) x) = ms @ rest \<Longrightarrow>
     \<exists>w'. (writeTurn ^^ length ms) (h, w) = (h\<lparr>written := written h @ concat ms\<rparr>, w') \<and> inbox (heap (rpub w') x) = rest"
proof (induction ms arbitrary: h w)
  case (Cons m ms)
  obtain w1 where turn: "writeTurn (h, w) = (h\<lparr>written := written h @ m\<rparr>, w1)" and "inbox (heap (rpub w1) x) = ms @ rest"
    using writeTurn_one [of h x w m "ms @ rest"] Cons.prems by auto
  then obtain w' where "(writeTurn ^^ length ms) (h\<lparr>written := written h @ m\<rparr>, w1)
      = (h\<lparr>written := written h @ m @ concat ms\<rparr>, w')" "inbox (heap (rpub w') x) = rest"
    using Cons.IH [of "h\<lparr>written := written h @ m\<rparr>" w1] Cons.prems by auto
  then show ?case using turn by (simp add: funpow_Suc_right del: funpow.simps)
qed simp

section \<open>Properties of reachable states\<close>

text \<open>A reachable state: one client has subscribed to a channel, another has connected.\<close>

definition demoSub :: hstate where
  "demoSub = handleSubscribe [''news''] (newHandler True, demoWorld)"

definition demoSystem :: System where
  "demoSystem = \<lparr>open_conns = [0 \<mapsto> fst demoSub, 1 \<mapsto> newHandler True], world_of = snd demoSub\<rparr>"

lemma demoSystem_reach: "sysReach demoSystem"
proof -
  let ?S0 = "startSystem NewMemoryStore (Some (Open [] SyncAlways))"
  have w: "world_of ?S0 = demoWorld" by (simp add: startSystem_def demoWorld_def)
  have "sysStep ?S0 (?S0\<lparr>open_conns := (open_conns ?S0)(0 \<mapsto> newHandler True)\<rparr>)" (is "sysStep _ ?S1")
    by (rule connect) (simp add: startSystem_def)
  moreover have "sysStep ?S1 (?S1\<lparr>open_conns := (open_conns ?S1)(0 \<mapsto> fst demoSub), world_of := snd demoSub\<rparr>)" (is "sysStep _ ?S2")
  proof (rule command)
    have "toUpper ([''SUBSCRIBE'', ''news''] ! 0) = ''SUBSCRIBE''" by code_simp
    then show "serveCommand (\<lambda>i. demoEnv) [''SUBSCRIBE'', ''news''] (newHandler True, world_of ?S1) = Ret ((fst demoSub, snd demoSub), True)"
      by (simp add: serveCommand_def demoSub_def w Let_def del: nth_Cons_0)
  qed simp_all
  moreover have "sysStep ?S2 (?S2\<lparr>open_conns := (open_conns ?S2)(1 \<mapsto> newHandler True)\<rparr>)"
    by (rule connect) (simp add: startSystem_def)
  moreover have "?S2\<lparr>open_conns := (open_conns ?S2)(1 \<mapsto> newHandler True)\<rparr> = demoSystem"
    by (simp add: demoSystem_def startSystem_def)
  ultimately show ?thesis using sysReach.start sysReach.step by metis
qed

lemma demoSub_state:
  "sub (fst demoSub) = Some 0" "subChans (fst demoSub) = [(''news'', ())]" "\<not> broken (fst demoSub)"
  "\<not> writerDone (fst demoSub)" "written (fst demoSub) = []"
  "inbox (heap (rpub (snd demoSub)) 0) = [EncodeSubscribeAck ''news'' 1]"
  by code_simp+

text \<open>
  C11. In every reachable state the broker's registry and the connections agree: a subscriber is
  registered for a channel (a pattern) exactly if it is the subscriber of an open connection that has
  the channel (the pattern) among its own.  In particular nothing of a client that has gone is left
  behind, and no message goes to a client that did not ask for it.
\<close>

theorem registry_matches_connections:
  assumes "sysReach S"
  shows "(listensOn (channels (rpub (world_of S))) c x \<longleftrightarrow>
      (\<exists>i h. open_conns S i = Some h \<and> sub h = Some x \<and> map_of (subChans h) c \<noteq> None)) \<and>
    (listensOn (patterns (rpub (world_of S))) c x \<longleftrightarrow>
      (\<exists>i h. open_conns S i = Some h \<and> sub h = Some x \<and> map_of (subPatterns h) c \<noteq> None))"
proof -
  note inv = sysReach_inv [OF assms]
  have "listensOn (channels (rpub (world_of S))) c x \<longleftrightarrow> map_of (subChans h) c \<noteq> None"
    "listensOn (patterns (rpub (world_of S))) c x \<longleftrightarrow> map_of (subPatterns h) c \<noteq> None"
    if "open_conns S i = Some h" "sub h = Some x" for i h
    using sysInvD [OF inv that(1)] that(2) by (simp_all add: local_def connOk_def)
  then show ?thesis using sysInv_owner [OF inv, of c x] by blast
qed

theorem registry_matches_connections_witness: "listensOn (channels (rpub (world_of demoSystem))) ''news'' 0"
proof -
  have "open_conns demoSystem 0 = Some (fst demoSub)" by (simp add: demoSystem_def)
  moreover have "map_of (subChans (fst demoSub)) ''news'' \<noteq> None" by (simp add: demoSub_state)
  ultimately show ?thesis
    using registry_matches_connections [OF demoSystem_reach, of "''news''" 0] demoSub_state(1) by blast
qed



lemma PUBLISH_args:
  assumes "plainConn g" and up: "toUpper (args ! 0) = ''PUBLISH''" and args: "length args = 3" "args ! 1 = c" "args ! 2 = m"
  shows "\<exists>g' w'. serveCommand envs args (g, w) = Ret ((g', w'), True) \<and> rpub w' = fst (Publish c m (rpub w)) \<and>
    written g' = written g @ Serialize (Integer (snd (Publish c m (rpub w))))"
proof -
  have "args \<noteq> []" using args(1) by auto
  then have "Dispatch (Some Publish) (envs 0) args w =
      Ret (w\<lparr>rpub := fst (Publish c m (rpub w))\<rparr>, Integer (snd (Publish c m (rpub w))))"
    using up args by (simp add: Dispatch_def handlers_def makePublishHandler_def publish_unlogged case_prod_beta Let_def)
  then show ?thesis using assms
    by (simp add: serveCommand_def plainConn_def respond_def Let_def del: Serialize.simps)
qed

lemma PUBLISH_served:
  assumes "plainConn g"
  shows "\<exists>g' w'. serveCommand envs [''PUBLISH'', c, m] (g, w) = Ret ((g', w'), True) \<and>
    rpub w' = fst (Publish c m (rpub w)) \<and>
    written g' = written g @ Serialize (Integer (snd (Publish c m (rpub w))))"
  by (rule PUBLISH_args [OF assms]) (simp_all add: upper_char_def)

text \<open>
  C12. A published message reaches the subscribed client: if connection \<open>j\<close> has the channel among its
  subscriptions, its socket works and its mailbox has a free place, then after \<^verbatim>\<open>PUBLISH\<close> by another
  connection is served, as many turns of \<open>j\<close>'s write loop as there were messages waiting, and one more,
  have written everything that was waiting and then the message to the client.
\<close>

theorem published_message_arrives:
  assumes "sysReach S" and "open_conns S j = Some h" and "sub h = Some x" and "map_of (subChans h) c \<noteq> None"
    and "\<not> broken h" "\<not> writerDone h" and "length (inbox (heap (rpub (world_of S)) x)) < inboxSize"
    and "plainConn g"
  shows "\<exists>g' w'. serveCommand envs [''PUBLISH'', c, m] (g, world_of S) = Ret ((g', w'), True) \<and>
    written (fst ((writeTurn ^^ Suc (length (inbox (heap (rpub (world_of S)) x)))) (h, w'))) =
      written h @ concat (inbox (heap (rpub (world_of S)) x))
        @ Serialize (Array [BulkString ''message'', BulkString c, BulkString m])"
proof -
  let ?b = "rpub (world_of S)"
  let ?frame = "Serialize (Array [BulkString ''message'', BulkString c, BulkString m])"
  have loc: "local h ?b" using sysInvD [OF sysReach_inv [OF assms(1)] assms(2)] .
  obtain g' w' where run: "serveCommand envs [''PUBLISH'', c, m] (g, world_of S) = Ret ((g', w'), True)"
    and w': "rpub w' = fst (Publish c m ?b)"
    using PUBLISH_served [OF assms(8)] by blast
  have "listensOn (channels ?b) c x" "\<not> closedSub (heap ?b x)"
    using loc assms(3,4) by (auto simp: local_def connOk_def)
  then obtain fs where "owed c m ?b x = Array [BulkString ''message'', BulkString c, BulkString m] # fs"
    "room (heap ?b x) = Suc (inboxSize - Suc (length (inbox (heap ?b x))))"
    using assms(7) by (auto simp: owed_def room_def)
  then obtain rest where "inbox (heap (rpub w') x) = (inbox (heap ?b x) @ [?frame]) @ rest"
    using Publish_inbox [of ?b c m x] loc w' by (auto simp: local_def simp del: Serialize.simps)
  then obtain w'' where "(writeTurn ^^ length (inbox (heap ?b x) @ [?frame])) (h, w')
      = (h\<lparr>written := written h @ concat (inbox (heap ?b x) @ [?frame])\<rparr>, w'')"
    using writeTurns [OF assms(3,5,6)] by blast
  then show ?thesis using run by (simp del: Serialize.simps funpow.simps)
qed

theorem published_message_arrives_witness:
  "\<exists>g' w'. serveCommand (\<lambda>i. demoEnv) [''PUBLISH'', ''news'', ''hi''] (newHandler True, world_of demoSystem) = Ret ((g', w'), True) \<and>
    written (fst ((writeTurn ^^ 2) (fst demoSub, w'))) =
      EncodeSubscribeAck ''news'' 1 @ Serialize (Array [BulkString ''message'', BulkString ''news'', BulkString ''hi''])"
proof -
  have S: "world_of demoSystem = snd demoSub" "open_conns demoSystem 0 = Some (fst demoSub)" by (simp_all add: demoSystem_def)
  have "plainConn (newHandler True)" by (simp add: plainConn_def newHandler_def)
  from published_message_arrives [OF demoSystem_reach S(2) demoSub_state(1) _ demoSub_state(3,4) _ this, of "''news''" "\<lambda>i. demoEnv" "''hi''"]
  show ?thesis
    by (simp add: S demoSub_state inboxSize_def numeral_2_eq_2 del: Serialize.simps funpow.simps)
qed

text \<open>
  C30. \<^verbatim>\<open>EXEC\<close> has only one error reply: in every reachable state the count of queueing errors is zero, so
  \<^verbatim>\<open>EXECABORT\<close> is never sent, whatever was queued.
\<close>

theorem execabort_unreachable:
  assumes "sysReach S" and "open_conns S i = Some h"
    and "handleExec envs (h, world_of S) = Ret (st', ps)" and "Serialize (Error e) \<in> set ps"
  shows "e = ''ERR EXEC without MULTI'' \<and> \<not> inMulti h"
proof -
  have "txErrors h = 0" using sysInvD [OF sysReach_inv [OF assms(1)] assms(2)] by (simp add: local_def connOk_def)
  then show ?thesis using assms(3,4)
    by (auto simp: handleExec_def execFrame_def map_go_Ret split: if_splits)
qed

theorem execabort_unreachable_witness:
  "handleExec (\<lambda>i. demoEnv) (newHandler True, world_of demoSystem) =
     Ret ((newHandler True, world_of demoSystem), [Serialize (Error ''ERR EXEC without MULTI'')])
   \<and> \<not> inMulti (newHandler True)"
proof -
  have "open_conns demoSystem 1 = Some (newHandler True)" by (simp add: demoSystem_def)
  moreover have run: "handleExec (\<lambda>i. demoEnv) (newHandler True, world_of demoSystem) =
     Ret ((newHandler True, world_of demoSystem), [Serialize (Error ''ERR EXEC without MULTI'')])"
    by (simp add: handleExec_def newHandler_def)
  ultimately have "\<not> inMulti (newHandler True)"
    using execabort_unreachable [OF demoSystem_reach _ run, of 1 "''ERR EXEC without MULTI''"] by (metis list.set_intros(1))
  with run show ?thesis by blast
qed



end
