(* ===== verification/Startup.thy ===== *)
theory Startup
  imports Server Config Connections
begin

text \<open>
  The process: \<^verbatim>\<open>cmd/server/main.go\<close> with the log level of \<^verbatim>\<open>internal/logger\<close>.  \<open>main\<close> is the start sequence
  up to the accept loop: it reads the command line, replays the append-only file into a new store,
  opens the file for appending, builds the router, the broker and the server, and binds the listener.
  The disk is the contents of the file, \<open>None\<close> if there is none.  Whether the operating system lets the
  process open the file for writing and bind its address are the arguments \<open>canOpen\<close> and \<open>canListen\<close>.
\<close>

section \<open>Logger\<close>

datatype Level = LevelDebug | LevelInfo | LevelWarn | LevelError

definition NewLogger :: "string \<Rightarrow> Level" where
  "NewLogger level =
     (let l = toLower level
      in if l = ''debug'' then LevelDebug
         else if l = ''warn'' then LevelWarn
         else if l = ''error'' then LevelError
         else LevelInfo)"

section \<open>main\<close>

text \<open>
  \<^verbatim>\<open>SyncPolicy(cfg.AOFSync)\<close> is any string; the file is compared only with \<^verbatim>\<open>always\<close> and \<^verbatim>\<open>everysec\<close>, so that
  every other value behaves as \<^verbatim>\<open>no\<close>.
\<close>

definition syncPolicy :: "string \<Rightarrow> SyncPolicy" where
  "syncPolicy v = (if v = ''always'' then SyncAlways else if v = ''everysec'' then SyncEverySec else SyncNo)"

definition setupAOF :: "Config \<Rightarrow> bool \<Rightarrow> (nat \<Rightarrow> Env) \<Rightarrow> string option \<Rightarrow> MemoryStore \<Rightarrow> (MemoryStore \<times> AOF option) go" where
  "setupAOF cfg canOpen envs disk s =
     (case Replay envs disk s of
        Panic \<Rightarrow> Panic
      | Ret (s', n, ok) \<Rightarrow>
          Ret (s', if canOpen then Some (Open (case disk of None \<Rightarrow> [] | Some f \<Rightarrow> f) (syncPolicy (AOFSync cfg))) else None))"

text \<open>How a start ends: with an exit status, or with a log level, the shared state and a server in its accept loop.\<close>

datatype started = Exited nat | Up Level world Server

definition Run :: "bool \<Rightarrow> Level \<Rightarrow> world \<Rightarrow> Server \<Rightarrow> started" where
  "Run canListen lvl router srv = (if canListen then Up lvl router srv else Exited 1)"

definition main :: "string list \<Rightarrow> bool \<Rightarrow> bool \<Rightarrow> (nat \<Rightarrow> Env) \<Rightarrow> string option \<Rightarrow> started go" where
  "main args canOpen canListen envs disk =
     (case Load args of
        Exit status \<Rightarrow> Ret (Exited status)
      | Loaded cfg \<Rightarrow>
          let lvl = NewLogger (LogLevel cfg);
              store = NewMemoryStore
          in case (if AOFEnabled cfg then setupAOF cfg canOpen envs disk store else Ret (store, None)) of
               Panic \<Rightarrow> Panic
             | Ret (store, aof) \<Rightarrow>
                 let router = NewRouter store aof NewBroker
                 in Ret (Run canListen lvl router (New (MaxClientsCfg cfg))))"

text \<open>What a process leaves on the disk.\<close>

definition diskOf :: "world \<Rightarrow> string option" where
  "diskOf w = map_option contents (raof w)"

section \<open>Lifetimes\<close>

text \<open>
  The history of an installation: a first start without a file, then durable commands, turns of the
  background sync, and restarts, in any order.  The sweeper is left out: no durable command sets a
  deadline, so it finds nothing to delete.
\<close>

definition recordsFit :: "Env \<Rightarrow> string list \<Rightarrow> MemoryStore \<Rightarrow> bool" where
  "recordsFit env c s = (case liveStep env c s of None \<Rightarrow> True | Some (s', recs) \<Rightarrow> list_all wf_command recs)"

inductive lifetime :: "string list \<Rightarrow> world \<Rightarrow> bool" for args where
  install: "main args True True envs None = Ret (Up lvl w srv) \<Longrightarrow> lifetime args w"
| command: "lifetime args w \<Longrightarrow> durable c \<Longrightarrow> recordsFit env c (rstore w) \<Longrightarrow>
    Dispatch (Some Publish) env c w = Ret (w', resp) \<Longrightarrow> lifetime args w'"
| syncs: "lifetime args w \<Longrightarrow> lifetime args (w\<lparr>raof := map_option syncTick (raof w)\<rparr>)"
| restart: "lifetime args w \<Longrightarrow> main args True True envs (diskOf w) = Ret (Up lvl w' srv) \<Longrightarrow> lifetime args w'"

text \<open>The file tells the store: it is a sequence of records whose replay gives the store, at any time.\<close>

definition told :: "world \<Rightarrow> bool" where
  "told w \<longleftrightarrow> timeless (rstore w) \<and>
     (\<exists>recs a. raof w = Some a \<and> contents a = recordBytes recs \<and> (\<forall>rec \<in> set recs. wf_command rec) \<and>
       (\<forall>envs n. redoAll redoStep envs n recs NewMemoryStore = Some (rstore w)))"

lemma timeless_New: "timeless NewMemoryStore"
  by (simp add: timeless_def NewMemoryStore_def)

lemma told_restart:
  assumes "told w" and "Load args = Loaded cfg" and "AOFEnabled cfg"
  shows "\<exists>w' a. main args True True envs (diskOf w) = Ret (Up (NewLogger (LogLevel cfg)) w' (New (MaxClientsCfg cfg))) \<and>
    rstore w' = rstore w \<and> raof w = Some a \<and> raof w' = Some (Open (contents a) (syncPolicy (AOFSync cfg)))"
proof -
  obtain recs a where a: "raof w = Some a" "contents a = recordBytes recs" and fit: "\<forall>rec \<in> set recs. wf_command rec"
    and redo: "redoAll redoStep envs 0 recs NewMemoryStore = Some (rstore w)"
    using assms(1) by (auto simp: told_def)
  have "Replay envs (Some (recordBytes recs)) NewMemoryStore = Ret (rstore w, length recs, True)"
    by (rule Replay_records [OF fit redo])
  then show ?thesis using a assms(2,3) by (simp add: main_def NewRouter_def setupAOF_def diskOf_def Run_def)
qed

lemma told_Open: "told w \<Longrightarrow> raof w = Some a \<Longrightarrow> rstore w' = rstore w \<Longrightarrow> raof w' = Some a' \<Longrightarrow> contents a' = contents a \<Longrightarrow> told w'"
  by (auto simp: told_def)

lemma told_command:
  assumes "told w" and "durable c" and fit: "recordsFit env c (rstore w)"
    and run: "Dispatch (Some Publish) env c w = Ret (w', resp)"
  shows "told w'"
proof -
  obtain recs a where a: "raof w = Some a" "contents a = recordBytes recs" and wf: "\<forall>rec \<in> set recs. wf_command rec"
    and redo: "\<And>envs n. redoAll redoStep envs n recs NewMemoryStore = Some (rstore w)" and t: "timeless (rstore w)"
    using assms(1) by (auto simp: told_def)
  have "c \<noteq> []" using assms(2) by (simp add: durable_def)
  from Dispatch_live [OF run this] obtain recs' where
    step: "liveStep env c (rstore w) = Some (rstore w', recs')" and aof: "raof w' = map_option (AppendAll recs') (raof w)"
    by blast
  have "timeless (rstore w')" and more: "\<And>envs n. redoAll redoStep envs n recs' (rstore w) = Some (rstore w')"
    using liveStep_law [OF t assms(2) step] by blast+
  moreover have "\<forall>rec \<in> set (recs @ recs'). wf_command rec" using wf fit step by (auto simp: recordsFit_def list_all_iff)
  moreover have "contents (AppendAll recs' a) = recordBytes (recs @ recs')"
    using a by (simp add: contents_AppendAll recordBytes_def)
  moreover have "redoAll redoStep envs n (recs @ recs') NewMemoryStore = Some (rstore w')" for envs n
    using redo more by (simp add: redoAll_append)
  ultimately show ?thesis unfolding told_def using aof a(1)
    by (intro conjI exI [of _ "recs @ recs'"] exI [of _ "AppendAll recs' a"]) simp_all
qed

lemma contents_syncTick: "contents (syncTick a) = contents a"
  by (simp add: syncTick_def fsync_def)

lemma lifetime_told:
  assumes "lifetime args w" and load: "Load args = Loaded cfg" and on: "AOFEnabled cfg"
  shows "told w"
  using assms(1)
proof (induction rule: lifetime.induct)
  case (install envs lvl w srv)
  then have "w = \<lparr>rstore = NewMemoryStore, raof = Some (Open [] (syncPolicy (AOFSync cfg))), rpub = NewBroker\<rparr>"
    using load on by (simp add: main_def NewRouter_def setupAOF_def Replay_def Run_def)
  then show ?case unfolding told_def
    by (intro conjI exI [of _ "[]"]) (auto simp: timeless_New Open_def recordBytes_def)
next
  case (command w c env w' resp)
  then show ?case using told_command by blast
next
  case (syncs w)
  then obtain a where "raof w = Some a" by (auto simp: told_def)
  then show ?case using told_Open [OF syncs.IH] by (simp add: contents_syncTick)
next
  case (restart w envs lvl w' srv)
  then obtain a where "raof w = Some a" "rstore w' = rstore w" "raof w' = Some (Open (contents a) (syncPolicy (AOFSync cfg)))"
    using told_restart [OF _ load on, of w envs] by auto
  then show ?case using told_Open [OF restart.IH] by (simp add: Open_def)
qed

section \<open>Property\<close>

text \<open>
  C7. Restarts are invisible: whatever happened to an installation with persistence switched on, durable
  commands from any clients, background syncs and any number of earlier restarts with the same
  command line, the next start rebuilds exactly the store the last one ended with, keeps the file as it
  is, and starts a server with the configured client limit.
\<close>

theorem restarts_are_invisible:
  assumes "lifetime args w" and "Load args = Loaded cfg" and "AOFEnabled cfg"
  shows "\<exists>w'. main args True True envs (diskOf w) = Ret (Up (NewLogger (LogLevel cfg)) w' (New (MaxClientsCfg cfg))) \<and>
    rstore w' = rstore w \<and> diskOf w' = diskOf w"
  using told_restart [OF lifetime_told [OF assms] assms(2,3), of envs] by (auto simp: diskOf_def Open_def)

definition freshWorld :: world where
  "freshWorld = \<lparr>rstore = NewMemoryStore, raof = Some (Open [] SyncAlways), rpub = NewBroker\<rparr>"

definition demoArgs :: "string list" where
  "demoArgs = [''-aof-sync'', ''always'', ''--max-clients=0x10'']"

theorem restarts_are_invisible_witness:
  "\<exists>w resp w'. Dispatch (Some Publish) demoEnv [''SET'', ''k'', ''v''] freshWorld = Ret (w, resp) \<and>
     main demoArgs True True demoEnvs (diskOf w) = Ret (Up LevelInfo w' (New 16)) \<and> rstore w' = rstore w \<and> diskOf w' = diskOf w"
proof -
  let ?cfg = "defaultConfig\<lparr>AOFSync := ''always'', MaxClientsCfg := 16\<rparr>"
  have load: "Load demoArgs = Loaded ?cfg" by code_simp
  have on: "AOFEnabled ?cfg" "NewLogger (LogLevel ?cfg) = LevelInfo" by code_simp+
  have "main demoArgs True True demoEnvs None = Ret (Up LevelInfo freshWorld (New 16))"
    using load on by (simp add: main_def NewRouter_def setupAOF_def Replay_def syncPolicy_def freshWorld_def Run_def)
  then have "lifetime demoArgs freshWorld" by (rule lifetime.install)
  moreover have "durable [''SET'', ''k'', ''v'']" "recordsFit demoEnv [''SET'', ''k'', ''v''] (rstore freshWorld)" by code_simp+
  moreover have "returns (Dispatch (Some Publish) demoEnv [''SET'', ''k'', ''v''] freshWorld)" by code_simp
  then obtain w resp where run: "Dispatch (Some Publish) demoEnv [''SET'', ''k'', ''v''] freshWorld = Ret (w, resp)"
    by (cases "Dispatch (Some Publish) demoEnv [''SET'', ''k'', ''v''] freshWorld") auto
  ultimately have "lifetime demoArgs w" using lifetime.command by blast
  from restarts_are_invisible [OF this load on(1), of demoEnvs] run on(2) show ?thesis by auto
qed

end
