(* ===== verification/Watch.thy ===== *)
theory Watch
  imports Transactions
begin

text \<open>
  \<^verbatim>\<open>WATCH\<close> detects changes: the version counters of the store as an interface, the commands that keep its
  law, and what follows for transactions.
\<close>

section \<open>Interface: counters that record changes\<close>

text \<open>
  A step costs at most \<open>n\<close> when no counter moves by more than \<open>n\<close> and every part whose counter did not move
  is as it was.  The counters are 64 bits wide, so a counter tells the truth as long as the steps since
  it was read cost less than \<open>2 ^ 64\<close> together.
\<close>

locale change_counter =
  fixes counter :: "'k \<Rightarrow> 's \<Rightarrow> 64 word"
    and unchanged :: "'k \<Rightarrow> 's \<Rightarrow> 's \<Rightarrow> bool"
    and stepBy :: "nat \<Rightarrow> 's \<Rightarrow> 's \<Rightarrow> bool"
  assumes law: "stepBy n s t \<Longrightarrow> \<exists>m \<le> n. counter k t = counter k s + of_nat m \<and> (m = 0 \<longrightarrow> unchanged k t s)"
    and step_trans: "stepBy m s t \<Longrightarrow> stepBy n t u \<Longrightarrow> stepBy (m + n) s u"
    and step_refl: "stepBy 0 s s"
begin

lemma same_counter:
  assumes "stepBy n s t" and "n < 2 ^ 64" and "counter k t = counter k s"
  shows "unchanged k t s"
proof -
  obtain m where m: "m \<le> n" "counter k t = counter k s + of_nat m" "m = 0 \<longrightarrow> unchanged k t s"
    using law [OF assms(1)] by blast
  then have "(of_nat m :: 64 word) = 0" "m < 2 ^ 64" using assms(2,3) by simp_all
  then have "m = 0" by (auto simp: word_of_nat_eq_0_iff dest: dvd_imp_le)
  with m(3) show ?thesis by simp
qed

end

section \<open>The law for store operations\<close>

definition versionedBy :: "nat \<Rightarrow> MemoryStore \<Rightarrow> MemoryStore \<Rightarrow> bool" where
  "versionedBy n s t \<longleftrightarrow> (\<forall>k. \<exists>m \<le> n. Version k t = Version k s + of_nat m \<and> (m = 0 \<longrightarrow> same_at k t s))"

lemma versionedBy_mono: "versionedBy m s t \<Longrightarrow> m \<le> n \<Longrightarrow> versionedBy n s t"
  unfolding versionedBy_def by (meson le_trans)

lemma versionedBy_trans: "versionedBy m s t \<Longrightarrow> versionedBy n t u \<Longrightarrow> versionedBy (m + n) s u"
  unfolding versionedBy_def
proof (rule allI)
  fix k
  assume "\<forall>k. \<exists>i \<le> m. Version k t = Version k s + of_nat i \<and> (i = 0 \<longrightarrow> same_at k t s)"
    "\<forall>k. \<exists>j \<le> n. Version k u = Version k t + of_nat j \<and> (j = 0 \<longrightarrow> same_at k u t)"
  then obtain i j where "i \<le> m" "Version k t = Version k s + of_nat i" "i = 0 \<longrightarrow> same_at k t s"
    "j \<le> n" "Version k u = Version k t + of_nat j" "j = 0 \<longrightarrow> same_at k u t" by meson
  then show "\<exists>l \<le> m + n. Version k u = Version k s + of_nat l \<and> (l = 0 \<longrightarrow> same_at k u s)"
    by (intro exI [of _ "i + j"]) (auto intro: same_at_trans)
qed

lemma versionedBy_refl [simp]: "versionedBy n s s"
  by (rule versionedBy_mono [of 0]) (auto simp: versionedBy_def)

interpretation ver: change_counter Version same_at versionedBy
  by unfold_locales (simp add: versionedBy_def, rule versionedBy_trans, simp_all)

lemma versionedBy_2: "versioned t s \<Longrightarrow> 2 \<le> n \<Longrightarrow> versionedBy n s t"
  by (rule versionedBy_mono [of 2]) (auto simp: versioned_def versionedBy_def)

lemma versioned_HSet: "versioned (fst (HSet key flds s)) s"
  by (simp add: HSet_def Let_def case_prod_beta versioned_write same_at_def Version_def)

lemma versionedBy_mset: "versionedBy (2 * length xs) s (msetLoop xs s)"
proof (induction xs s rule: msetLoop.induct)
  case (1 k v rest s)
  have "versionedBy 2 s (Set k v s)" by (rule versionedBy_2 [OF versioned_Set]) simp
  from versionedBy_trans [OF this 1] show ?case by (auto intro: versionedBy_mono)
qed simp_all

section \<open>The commands that keep the law\<close>

named_theorems marks_intros "commands whose changes move the counters"

definition marked :: "nat \<Rightarrow> MemoryStore \<Rightarrow> (MemoryStore \<times> Response) go \<Rightarrow> bool" where
  "marked n s r \<longleftrightarrow> (\<forall>s' x. r = Ret (s', x) \<longrightarrow> versionedBy n s s')"

definition cost :: "string list \<Rightarrow> nat" where
  "cost args = 2 * length args + 2"

definition marks :: "handler \<Rightarrow> bool" where
  "marks h \<longleftrightarrow> (\<forall>env args s. marked (cost args) s (h env args s))"

lemma marked_simps [simp]:
  "marked n s (Ret p) \<longleftrightarrow> versionedBy n s (fst p)" "marked n s Panic"
  "marked n s (replyOf z f q) \<longleftrightarrow> versionedBy n s (fst q)"
  by (cases p; cases q; auto simp: marked_def replyOf_def)+

lemma marksI: "(\<And>env args s. marked (cost args) s (h env args s)) \<Longrightarrow> marks h"
  by (simp add: marks_def)

lemma marks_readonly: "readonly h \<Longrightarrow> marks h"
  unfolding readonly_def keeps_def marks_def marked_def by fastforce

lemma versionedBy_op: "versioned t s \<Longrightarrow> versionedBy (cost args) s t"
  by (erule versionedBy_2) (simp add: cost_def)

lemma marks_incrBy: "marked (cost args) s (incrBy env key d s)"
  by (auto simp: incrBy_def Let_def versioned_Set versionedBy_op split: option.split)

lemma versioned_delete: "versioned (bumpVersion k (deleteKey k s)) s"
  by (rule versioned_write) simp_all

lemma versioned_pairs:
  "LSet now k i v s = (t, r) \<Longrightarrow> versioned t s" "LTrim now k i j s = (t, r') \<Longrightarrow> versioned t s"
  using versioned_LSet [of now k i v s] versioned_LTrim [of now k i j s] by auto

lemma renameEntry_frame:
  "renameEntry ty src dst s = Ret t \<Longrightarrow> k \<noteq> src \<Longrightarrow> k \<noteq> dst \<Longrightarrow> same_at k t s"
  "renameEntry ty src dst s = Ret t \<Longrightarrow> Version k t = Version k s"
  by (auto simp: renameEntry_def same_at_def Version_def Let_def split: tag.splits option.splits)

lemma versioned_rename: "Rename now src dst s = Ret (t, b) \<Longrightarrow> versioned t s"
proof (cases "typeOf now src s = NoKey")
  case False
  assume "Rename now src dst s = Ret (t, b)"
  then obtain u where ren: "renameEntry (typeOf now src s) src dst (deleteKey dst s) = Ret u"
    and t: "t = bumpVersion src (bumpVersion dst (case map_of (keyExpiry u) src of
              Some ex \<Rightarrow> u\<lparr>keyExpiry := mdel src (mput dst ex (keyExpiry u))\<rparr>
            | None \<Rightarrow> u\<lparr>keyExpiry := mdel dst (keyExpiry u)\<rparr>))"
    using False by (auto simp: Rename_def Let_def map_go_Ret)
  show "versioned t s" unfolding t
  proof (rule versioned_write2)
    fix k
    show "k \<noteq> src \<Longrightarrow> k \<noteq> dst \<Longrightarrow> same_at k (case map_of (keyExpiry u) src of
              Some ex \<Rightarrow> u\<lparr>keyExpiry := mdel src (mput dst ex (keyExpiry u))\<rparr>
            | None \<Rightarrow> u\<lparr>keyExpiry := mdel dst (keyExpiry u)\<rparr>) s"
      using renameEntry_frame(1) [OF ren, of k] by (simp add: same_at_def split: option.split)
    show "Version k (case map_of (keyExpiry u) src of
              Some ex \<Rightarrow> u\<lparr>keyExpiry := mdel src (mput dst ex (keyExpiry u))\<rparr>
            | None \<Rightarrow> u\<lparr>keyExpiry := mdel dst (keyExpiry u)\<rparr>) = Version k s"
      using renameEntry_frame(2) [OF ren, of k] by (cases "map_of (keyExpiry u) src") (simp_all add: Version_def)
  qed
qed (simp add: Rename_def)

lemma marked_mset: "versionedBy (cost args) s (msetLoop (drop (Suc 0) args) s)"
  by (rule versionedBy_mono [OF versionedBy_mset]) (simp add: cost_def)

lemmas marks_string_defs = handleSet_def handleDel_def handleSetNX_def handleSetEX_def handlePSetEX_def
  handleMSet_def handleGetSet_def handleGetDel_def handleAppend_def handleIncr_def handleIncrBy_def
  handleIncrByFloat_def handleDecr_def handleDecrBy_def

lemma marks_string [marks_intros]:
  "marks handleSet" "marks handleDel" "marks handleSetNX" "marks handleSetEX" "marks handlePSetEX" "marks handleMSet"
  "marks handleGetSet" "marks handleGetDel" "marks handleAppend" "marks handleIncr" "marks handleIncrBy"
  "marks handleIncrByFloat" "marks handleDecr" "marks handleDecrBy"
  by (auto intro!: marksI versionedBy_op marked_mset
      simp: marks_string_defs marks_incrBy versioned_Set versioned_SetWithTTL versioned_SetAdv
        versioned_Del versioned_delete case_prod_beta Let_def split: option.split sum.split)

lemma marks_hash [marks_intros]: "marks handleHSet" "marks handleHIncrBy" "marks handleHIncrByFloat"
  by (auto intro!: marksI versionedBy_op simp: hash_write_defs versioned_HSet case_prod_beta Let_def split: option.split)

lemma marks_list [marks_intros]:
  "marks handleLPush" "marks handleRPush" "marks handleLPushX" "marks handleRPushX" "marks handleLSet"
  "marks handleLInsert" "marks handleLRem" "marks handleLTrim" "marks handleLMove" "marks handleRPopLPush"
  by (auto intro!: marksI versionedBy_op dest: versioned_pairs
      simp: list_write_defs versioned_LPush versioned_RPush versioned_LInsert versioned_LRem versioned_LMove versioned_LSet
        versioned_LTrim Let_def split: option.split prod.split sum.split)

lemma marks_pop [marks_intros]: "marks handleLPop" "marks handleRPop" "marks handleSPop" "marks handleZPopMin" "marks handleZPopMax"
  by (auto intro!: marksI versionedBy_op dest: versioned_LPop versioned_RPop versioned_SPop versioned_ZPopMin versioned_ZPopMax
      simp: handleLPop_def handleRPop_def handleSPop_def handleZPopMin_def handleZPopMax_def split: option.split go.split)

lemma marks_set [marks_intros]: "marks handleSAdd" "marks handleSRem" "marks handleSMove"
  by (auto intro!: marksI versionedBy_op simp: set_write_defs versioned_SAdd versioned_SRem versioned_SMove)

lemma marks_zset [marks_intros]: "marks handleZAdd" "marks handleZRem" "marks handleZIncrBy"
  by (auto intro!: marksI versionedBy_op simp: zset_write_defs versioned_ZAdd versioned_ZRem versioned_ZIncrBy Let_def
      split: option.split sum.split prod.split)

lemma marks_rename [marks_intros]: "marks handleRename"
  by (auto intro!: marksI versionedBy_op dest: versioned_rename simp: handleRename_def split: go.split)

text \<open>
  The commands left out: those that change a deadline only, \<^verbatim>\<open>HDEL\<close> and the flushes, which forget
  counters, and the set operations that store, which delete an old destination without a trace when
  the result is empty.
\<close>

definition silentNames :: "string list" where
  "silentNames =
     [''GETEX'', ''EXPIRE'', ''PEXPIRE'', ''EXPIREAT'', ''PEXPIREAT'', ''PERSIST'', ''HDEL'', ''SINTERSTORE'', ''SUNIONSTORE'',
      ''SDIFFSTORE'', ''ZUNIONSTORE'', ''ZINTERSTORE'', ''FLUSHDB'', ''FLUSHALL'']"

lemmas marks_reads = readonly_intros [THEN marks_readonly]

lemma all_marks: "list_all (\<lambda>(n, h). n \<notin> set silentNames \<longrightarrow> marks h) storeHandlers"
  by (simp add: storeHandlers_def silentNames_def marks_intros marks_reads)

lemma handler_marks: "map_of storeHandlers name = Some h \<Longrightarrow> name \<notin> set silentNames \<Longrightarrow> marks h"
  using all_marks by (auto simp: list_all_iff dest: map_of_SomeD)

lemma marksD: "marks h \<Longrightarrow> h env args s = Ret (s', x) \<Longrightarrow> versionedBy (cost args) s s'"
  unfolding marks_def marked_def by blast

definition loud :: "string list \<Rightarrow> bool" where
  "loud args \<longleftrightarrow> args \<noteq> [] \<and> toUpper (args ! 0) \<notin> set silentNames"

lemma Dispatch_marks:
  assumes "Dispatch pub env args w = Ret (w', resp)" and "loud args"
  shows "versionedBy (cost args) (rstore w) (rstore w')"
  using assms(1)
proof (cases rule: Dispatch_cases)
  case (ran fn s b recs)
  from ran(2) show ?thesis
  proof (cases rule: handlers_cases)
    case 1
    then show ?thesis using ran(3,5) publish_store by fastforce
  next
    case (2 h)
    then have "marks h" using handler_marks assms(2) by (simp add: loud_def)
    then show ?thesis using 2 ran(3,5) by (auto simp: onStore_Ret dest: marksD)
  qed
qed simp

lemma dispatchAll_marks:
  "dispatchAll pub envs n cmds w = Ret (w', rs) \<Longrightarrow> \<forall>c \<in> set cmds. loud c \<Longrightarrow>
     versionedBy (sum_list (map cost cmds)) (rstore w) (rstore w')"
proof (induction cmds arbitrary: n w rs)
  case (Cons c cs)
  then obtain w1 resp rs1 where one: "Dispatch pub (envs n) c w = Ret (w1, resp)"
    and more: "dispatchAll pub envs (Suc n) cs w1 = Ret (w', rs1)"
    by (auto simp: map_go_Ret split: go.splits)
  have "versionedBy (cost c) (rstore w) (rstore w1)" using Dispatch_marks [OF one] Cons.prems(2) by simp
  from ver.step_trans [OF this Cons.IH [OF more]] Cons.prems(2) show ?case by simp
qed simp

section \<open>Property\<close>

text \<open>
  C10. \<^verbatim>\<open>WATCH\<close> is sound for every command but fourteen: if between \<^verbatim>\<open>WATCH k\<close> and \<^verbatim>\<open>EXEC\<close> the other clients ran
  any sequence of such commands, short enough not to wrap a 64-bit counter, and the value, the
  type or the deadline of \<open>k\<close> is not what it was, then \<^verbatim>\<open>EXEC\<close> answers the null array and runs nothing of
  the transaction.
\<close>

theorem watch_detects_changes:
  assumes "map_of (watchedKeys h) k = Some (KeyVersion w k)" and "inMulti h" "txErrors h = 0" "sub h = None" "\<not> broken h"
    and "dispatchAll pub envs n cmds w = Ret (w', rs)" and "\<forall>c \<in> set cmds. loud c"
    and "sum_list (map cost cmds) < 2 ^ 64" and "\<not> same_at k (rstore w') (rstore w)"
  shows "serveCommand envs' [''EXEC''] (h, w') = Ret (((endTx h)\<lparr>written := written h @ Serialize NullArray\<rparr>, w'), True)"
proof -
  have "Version k (rstore w') \<noteq> Version k (rstore w)"
    using ver.same_counter [OF dispatchAll_marks [OF assms(6,7)] assms(8)] assms(9) by blast
  then have "watchDirty h w'" using assms(1) by (auto simp: watchDirty_def KeyVersion_def dest: map_of_SomeD)
  then show ?thesis using assms by (simp add: serveCommand_dirty [OF _ _ _ toUpper_conn(2)] respond_def endTx_def)
qed

theorem watch_detects_changes_witness:
  "\<exists>w' rs. dispatchAll None (\<lambda>i. demoEnv) 0 [[''APPEND'', ''k'', ''x'']] demoWorld = Ret (w', rs) \<and>
    serveCommand (\<lambda>i. demoEnv) [''EXEC'']
      ((newHandler True)\<lparr>inMulti := True, txQueue := demoTx, watchedKeys := [(''k'', 0)]\<rparr>, w') =
    Ret (((endTx ((newHandler True)\<lparr>inMulti := True, txQueue := demoTx, watchedKeys := [(''k'', 0)]\<rparr>))
      \<lparr>written := Serialize NullArray\<rparr>, w'), True)"
proof -
  let ?h = "(newHandler True)\<lparr>inMulti := True, txQueue := demoTx, watchedKeys := [(''k'', 0)]\<rparr>"
  have "map_go (\<lambda>(w, rs). Get 0 ''k'' (rstore w)) (dispatchAll None (\<lambda>i. demoEnv) 0 [[''APPEND'', ''k'', ''x'']] demoWorld)
      = Ret (Some ''x'')" by code_simp
  then obtain w' rs where run: "dispatchAll None (\<lambda>i. demoEnv) 0 [[''APPEND'', ''k'', ''x'']] demoWorld = Ret (w', rs)"
    and new: "Get 0 ''k'' (rstore w') = Some ''x''" by (auto simp: map_go_Ret)
  have "Get 0 ''k'' (rstore demoWorld) = None" by code_simp
  with new have "\<not> same_at ''k'' (rstore w') (rstore demoWorld)" by (auto simp: same_at_def Get_def)
  moreover have "KeyVersion demoWorld ''k'' = 0" by code_simp
  moreover have "\<forall>c \<in> set [[''APPEND'', ''k'', ''x'']]. loud c" unfolding list_all_iff [symmetric] by code_simp
  ultimately show ?thesis using run
    watch_detects_changes [of ?h "''k''" demoWorld None "\<lambda>i. demoEnv" 0 "[[''APPEND'', ''k'', ''x'']]" w' rs "\<lambda>i. demoEnv"]
    by (auto simp: newHandler_def cost_def)
qed

end
