(* ===== verification/Integrity.thy ===== *)
theory Integrity
  imports Router
begin

text \<open>
  The representation invariant of the store (\<open>wf_store\<close>: every key has one type, no empty container, no
  deadline without a container) as a contract of the commands, and the command that breaks it.
\<close>

named_theorems wf_intros_cmd "commands that keep the store well formed"

section \<open>The contract\<close>

text \<open>
  \<open>calm\<close>: the store is well formed, no expired value waits for the sweeper, and the clock is past the
  year 292, so that no deadline is the zero time.
\<close>

definition calm :: "Env \<Rightarrow> MemoryStore \<Rightarrow> bool" where
  "calm env s \<longleftrightarrow> wf_store s \<and> (\<forall>k. settled (clock env) s k) \<and> 2 ^ 63 < clock env"

definition stays :: "(MemoryStore \<times> Response) go \<Rightarrow> bool" where
  "stays r \<longleftrightarrow> (\<forall>s' x. r = Ret (s', x) \<longrightarrow> wf_store s')"

definition keepsWf :: "handler \<Rightarrow> bool" where
  "keepsWf h \<longleftrightarrow> (\<forall>env args s. calm env s \<longrightarrow> stays (h env args s))"

lemma stays_simps [simp]:
  "stays (Ret p) \<longleftrightarrow> wf_store (fst p)" "stays Panic" "stays (replyOf z f q) \<longleftrightarrow> wf_store (fst q)"
  by (cases p; cases q; auto simp: stays_def replyOf_def)+

lemma keepsWfI: "(\<And>env args s. calm env s \<Longrightarrow> wf_store s \<Longrightarrow> stays (h env args s)) \<Longrightarrow> keepsWf h"
  unfolding keepsWf_def calm_def by blast

lemma keepsWfD: "keepsWf h \<Longrightarrow> calm env s \<Longrightarrow> h env args s = Ret (s', x) \<Longrightarrow> wf_store s'"
  unfolding keepsWf_def stays_def by blast

lemma keepsWf_readonly: "readonly h \<Longrightarrow> keepsWf h"
  unfolding readonly_def keeps_def keepsWf_def stays_def calm_def by fastforce

lemma calmD: "calm env s \<Longrightarrow> wf_store s" "calm env s \<Longrightarrow> settled (clock env) s k"
  by (simp_all add: calm_def)

lemma calm_deadline:
  assumes "calm env s"
  shows "clock env + mulDuration n u \<noteq> zeroTime" "0 < d \<Longrightarrow> clock env + d \<noteq> zeroTime"
proof -
  have "- (2 ^ 63) \<le> mulDuration n u"
    using wrap64_in64 [of "n * u"] by (simp add: mulDuration_def in64_bounds)
  moreover have "2 ^ 63 < clock env" using assms by (simp add: calm_def)
  ultimately show "clock env + mulDuration n u \<noteq> zeroTime" "0 < d \<Longrightarrow> clock env + d \<noteq> zeroTime" by simp_all
qed

section \<open>The commands\<close>

lemma wf_store_mset: "wf_store s \<Longrightarrow> wf_store (msetLoop xs s)"
  by (induction xs s rule: msetLoop.induct) (simp_all add: wf_store_Set)

lemma wf_store_rename: "wf_store s \<Longrightarrow> src \<noteq> dst \<Longrightarrow> Rename now src dst s = Ret (t, b) \<Longrightarrow> wf_store t"
  using Rename_missing [of s now src dst] Rename_entry [of s src dst now]
  by (cases "live now s src") (fastforce, fastforce)

lemmas wf_ops = wf_store_Set wf_store_SetWithTTL wf_store_SetAdv wf_store_Del wf_store_GetEx wf_store_mset wf_store_Expire
  wf_store_Persist wf_store_HDel wf_store_LSet wf_store_LInsert wf_store_LRem wf_store_LTrim wf_store_LMove wf_store_SRem
  wf_store_storeResult wf_store_SMove wf_store_ZAdd wf_store_ZIncrBy wf_store_ZRem wf_store_ZUnionStore wf_store_ZInterStore
  wf_store_Flush wf_store_bumpVersion wf_store_deleteKey

lemma wf_incrBy: "calm env s \<Longrightarrow> stays (incrBy env key d s)"
  by (auto simp: incrBy_def Let_def wf_ops calmD split: option.split)

lemma wf_string [wf_intros_cmd]:
  "keepsWf handleSet" "keepsWf handleDel" "keepsWf handleSetNX" "keepsWf handleSetEX" "keepsWf handlePSetEX" "keepsWf handleMSet"
  "keepsWf handleGetSet" "keepsWf handleGetDel" "keepsWf handleGetEX" "keepsWf handleAppend" "keepsWf handleIncr"
  "keepsWf handleIncrBy" "keepsWf handleIncrByFloat" "keepsWf handleDecr" "keepsWf handleDecrBy"
  by (auto intro!: keepsWfI simp: handleSet_def handleDel_def handleSetNX_def handleSetEX_def handlePSetEX_def
      handleMSet_def handleGetSet_def handleGetDel_def handleGetEX_def handleAppend_def handleIncr_def handleIncrBy_def
      handleIncrByFloat_def handleDecr_def handleDecrBy_def wf_incrBy wf_ops calmD case_prod_beta Let_def
      split: option.split sum.split)

lemma wf_expire [wf_intros_cmd]:
  "keepsWf handleExpire" "keepsWf handlePExpire" "keepsWf handleExpireAt" "keepsWf handlePExpireAt" "keepsWf handlePersist"
  by (auto intro!: keepsWfI simp: handleExpire_def handlePExpire_def handleExpireAt_def handlePExpireAt_def handlePersist_def
      expireAt_def wf_ops calmD calm_deadline case_prod_beta Let_def split: option.split)

lemma wf_list [wf_intros_cmd]:
  "keepsWf handleLPush" "keepsWf handleRPush" "keepsWf handleLPushX" "keepsWf handleRPushX" "keepsWf handleLInsert"
  "keepsWf handleLRem" "keepsWf handleLMove" "keepsWf handleRPopLPush"
  by (auto intro!: keepsWfI wf_store_LPush wf_store_RPush simp: list_write_defs wf_ops calmD Let_def split: option.split)

lemma wf_pairs:
  "wf_store s \<Longrightarrow> LSet now k i v s = (t, r) \<Longrightarrow> wf_store t" "wf_store s \<Longrightarrow> LTrim now k i j s = (t, r') \<Longrightarrow> wf_store t"
  using wf_store_LSet [of s now k i v] wf_store_LTrim [of s now k i j] by auto

lemma wf_list_set [wf_intros_cmd]: "keepsWf handleLSet" "keepsWf handleLTrim"
  by (auto intro!: keepsWfI dest: wf_pairs simp: list_write_defs split: option.split prod.split sum.split)

lemma wf_store_pops:
  "wf_store s \<Longrightarrow> LPop now key cnt s = Ret (t, r) \<Longrightarrow> wf_store t" "wf_store s \<Longrightarrow> RPop now key cnt s = Ret (t, r) \<Longrightarrow> wf_store t"
  using typeOf_fits [of s now key TList]
  by (auto simp: LPop_def RPop_def getList_typeOf Let_def list_intros delList_storeList putList_storeList
      split: sum.splits if_splits)

lemma wf_pop [wf_intros_cmd]:
  "keepsWf handleLPop" "keepsWf handleRPop" "keepsWf handleSPop" "keepsWf handleZPopMin" "keepsWf handleZPopMax"
  by (auto intro!: keepsWfI dest: wf_store_pops wf_store_SPop wf_store_ZPopMin wf_store_ZPopMax
      simp: handleLPop_def handleRPop_def handleSPop_def handleZPopMin_def handleZPopMax_def split: option.split go.split)

lemma wf_set [wf_intros_cmd]:
  "keepsWf handleSAdd" "keepsWf handleSRem" "keepsWf handleSMove" "keepsWf handleSInterStore" "keepsWf handleSUnionStore"
  "keepsWf handleSDiffStore"
  by (auto intro!: keepsWfI wf_store_SAdd simp: set_write_defs SInterStore_def SUnionStore_def SDiffStore_def wf_ops calmD)

lemma wf_zset [wf_intros_cmd]:
  "keepsWf handleZAdd" "keepsWf handleZRem" "keepsWf handleZIncrBy" "keepsWf handleZUnionStore" "keepsWf handleZInterStore"
  by (auto intro!: keepsWfI simp: zset_write_defs wf_ops calmD Let_def split: option.split sum.split prod.split)

lemma wf_server [wf_intros_cmd]:
  "keepsWf handleHDel" "keepsWf handleRename" "keepsWf handleFlushDB" "keepsWf handleFlushAll"
  by (auto intro!: keepsWfI dest: wf_store_rename
      simp: handleHDel_def handleRename_def handleFlushDB_def handleFlushAll_def wf_ops case_prod_beta split: go.split)

section \<open>Hashes\<close>

text \<open>The commands built on \<^verbatim>\<open>HSet\<close>, which does not look at the type of the key.\<close>

definition hashWriters :: "string list" where
  "hashWriters = [''HSET'', ''HMSET'', ''HINCRBY'', ''HINCRBYFLOAT'']"

definition hashable :: "Env \<Rightarrow> string list \<Rightarrow> MemoryStore \<Rightarrow> bool" where
  "hashable env args s \<longleftrightarrow> typeOf (clock env) (args ! 1) s \<in> {NoKey, TString, THash}"

lemma wf_store_HSet:
  assumes "calm env s" and "typeOf (clock env) key s \<in> {NoKey, TString, THash}" and "wf_map flds" "flds \<noteq> []"
  shows "wf_store (fst (HSet key flds s))"
proof -
  have wf: "wf_store s" "settled (clock env) s key" using assms(1) by (simp_all add: calmD)
  then have "fits s key THash \<or> fits s key TString" using assms(2) settled_fits by auto
  then show ?thesis using HSet_entry [OF wf(1) _ assms(3,4)] by blast
qed

lemma pairFields_map: "wf_map m \<Longrightarrow> wf_map (pairFields xs m)" "2 \<le> length xs \<or> m \<noteq> [] \<Longrightarrow> pairFields xs m \<noteq> []"
proof -
  show "wf_map m \<Longrightarrow> wf_map (pairFields xs m)" by (induction xs m rule: pairFields.induct) simp_all
  have ne: "mput f v m \<noteq> []" for f v and m :: "(string, string) gomap"
    by (metis fun_upd_same map_of_mput map_of.simps(1) option.distinct(1))
  show "2 \<le> length xs \<or> m \<noteq> [] \<Longrightarrow> pairFields xs m \<noteq> []"
    by (induction xs m rule: pairFields.induct) (simp_all add: ne)
qed

lemma wf_hash_cmds:
  assumes "calm env s" and "hashable env args s"
  shows "stays (handleHSet env args s)" "stays (handleHIncrBy env args s)" "stays (handleHIncrByFloat env args s)"
proof -
  have one: "wf_map [(f, v)]" for f v :: string by (simp add: wf_map_def)
  show "stays (handleHSet env args s)" "stays (handleHIncrBy env args s)" "stays (handleHIncrByFloat env args s)"
    using assms one wf_store_HSet [OF assms(1)] pairFields_map(1) [of "[]" "drop 2 args"] pairFields_map(2) [of "drop 2 args" "[]"]
    by (auto simp: hash_write_defs hashable_def calmD case_prod_beta Let_def split: option.split)
qed

section \<open>The whole registry\<close>

lemmas wf_reads = readonly_intros [THEN keepsWf_readonly]

lemma all_keepsWf: "list_all (\<lambda>(n, h). n \<notin> set hashWriters \<longrightarrow> keepsWf h) storeHandlers"
  by (simp add: storeHandlers_def hashWriters_def wf_intros_cmd wf_reads)

lemma hashWriters_stay:
  assumes "map_of storeHandlers name = Some h" and "name \<in> set hashWriters" and "calm env s" and "hashable env args s"
  shows "stays (h env args s)"
proof -
  have "h \<in> {handleHSet, handleHIncrBy, handleHIncrByFloat}"
    using assms(1,2) by (auto simp: hashWriters_def storeHandlers_def)
  then show ?thesis using wf_hash_cmds [OF assms(3,4)] by auto
qed

lemma handler_keepsWf: "map_of storeHandlers name = Some h \<Longrightarrow> name \<notin> set hashWriters \<Longrightarrow> keepsWf h"
  using all_keepsWf by (auto simp: list_all_iff dest: map_of_SomeD)

lemma Dispatch_wf:
  assumes run: "Dispatch pub env args r = Ret (r', resp)" and calm: "calm env (rstore r)"
    and hash: "toUpper (args ! 0) \<in> set hashWriters \<Longrightarrow> hashable env args (rstore r)"
  shows "wf_store (rstore r')"
  using run
proof (cases rule: Dispatch_cases)
  case refused
  then show ?thesis using calmD(1) [OF calm] by simp
next
  case (ran fn s b recs)
  from ran(2) have "wf_store s"
  proof (cases rule: handlers_cases)
    case 1
    then show ?thesis using ran(3) publish_store [of pub env args "(rstore r, rpub r)" "(s, b)" resp] calmD(1) [OF calm] by simp
  next
    case (2 h)
    then have "h env args (rstore r) = Ret (s, resp)" using ran(3) by (simp add: onStore_Ret)
    then show ?thesis
      using keepsWfD [OF handler_keepsWf [OF 2(2)] calm] hashWriters_stay [OF 2(2) _ calm] hash
      by (cases "toUpper (args ! 0) \<in> set hashWriters") (auto simp: stays_def)
  qed
  then show ?thesis using ran(5) by simp
qed

section \<open>Properties\<close>

definition demoStore :: MemoryStore where
  "demoStore = Set ''k'' ''abc'' NewMemoryStore"

definition demoPlain :: "unit Router" where
  "demoPlain = \<lparr>rstore = demoStore, raof = None, rpub = ()\<rparr>"

lemma demo_calm: "calm demoEnv demoStore"
proof -
  have "wf_store demoStore" unfolding demoStore_def by (rule wf_store_Set [OF wf_store_New])
  moreover have "settled now demoStore k" for now k
    by (simp add: settled_def live_def demoStore_def entry_Set entry_def container_def NewMemoryStore_def dlOf_def
        split: option.split)
  moreover have "2 ^ 63 < clock demoEnv" by code_simp
  ultimately show ?thesis by (simp add: calm_def)
qed



text \<open>
  C38. \<^verbatim>\<open>HSET\<close> does not check the type: on a key that holds a list it answers success, and the key is then a
  hash and a list at once, with the list hidden but still stored, so that the store is no longer well formed.
\<close>

theorem hset_on_list_makes_two:
  assumes "typeOf (clock env) key (rstore r) = TList" and "keyOk (rstore r) key"
  shows "\<exists>r'. Dispatch pub env [''HSET'', key, f, v] r = Ret (r', Integer 1) \<and>
    map_of (lists (rstore r')) key = map_of (lists (rstore r)) key \<and> map_of (lists (rstore r')) key \<noteq> None \<and>
    map_of (hashes (rstore r')) key = Some [(f, v)] \<and> \<not> wf_store (rstore r')"
proof -
  let ?s = "rstore r"
  have maps: "map_of (lists ?s) key \<noteq> None" "map_of (hashes ?s) key = None"
    using assms by (auto simp: typeOf_def keyOk_def key_ok_def split: option.splits if_splits)
  have up: "toUpper ([''HSET'', key, f, v] ! 0) = ''HSET''" by (simp add: upper_char_def)
  have h: "map_of storeHandlers ''HSET'' = Some handleHSet" by (simp add: storeHandlers_def)
  let ?t = "fst (HSet key [(f, v)] ?s)"
  have t: "map_of (lists ?t) key = map_of (lists ?s) key" "map_of (hashes ?t) key = Some [(f, v)]" "snd (HSet key [(f, v)] ?s) = 1"
    using maps(2) by (simp_all add: HSet_def setField_def Let_def)
  then have "\<not> keyOk ?t key" using maps(1) by (auto simp: keyOk_def key_ok_def)
  then have bad: "\<not> wf_store ?t" using wf_store_key by blast
  have "handleHSet env [''HSET'', key, f, v] ?s = Ret (?t, Integer 1)"
    using t(3) by (simp add: handleHSet_def case_prod_beta)
  then have "\<exists>r'. Dispatch pub env [''HSET'', key, f, v] r = Ret (r', Integer 1) \<and> rstore r' = ?t"
    using up h by (simp add: Dispatch_def handlers_def onStore_def Let_def del: nth_Cons_0)
  then show ?thesis using t maps(1) bad by auto
qed

theorem hset_on_list_makes_two_witness:
  "\<exists>r'. Dispatch None demoEnv [''HSET'', ''l'', ''f'', ''v''] (demoPlain\<lparr>rstore := fst (RPush 0 ''l'' [''a''] NewMemoryStore)\<rparr>)
      = Ret (r', Integer 1) \<and> map_of (lists (rstore r')) ''l'' \<noteq> None \<and> map_of (hashes (rstore r')) ''l'' = Some [(''f'', ''v'')]"
proof -
  let ?r = "demoPlain\<lparr>rstore := fst (RPush 0 ''l'' [''a''] NewMemoryStore)\<rparr>"
  have "typeOf (clock demoEnv) ''l'' (rstore ?r) = TList" by code_simp
  moreover have "wf_store (rstore ?r)"
    using wf_store_RPush [OF wf_store_New, of 0 "''l''" "[''a'']"]
    by (simp add: settled_def live_def entry_def container_def NewMemoryStore_def)
  then have "keyOk (rstore ?r) ''l''" by (rule wf_store_key)
  ultimately show ?thesis using hset_on_list_makes_two [of demoEnv "''l''" ?r None "''f''" "''v''"] by blast
qed

end
