(* ===== verification/StoreSpec.thy ===== *)
theory StoreSpec
  imports StoreScan StoreHash StoreList StoreSet "HOL-Library.Multiset"
begin

text \<open>
  The contract of the interface \<^verbatim>\<open>Store\<close> of \<^verbatim>\<open>internal/storage/store.go\<close>, as its comments state it: an
  abstract machine whose state is one partial map from keys to a typed value with an optional
  deadline.  Hashes are maps, sets are sets, sorted sets are maps to scores; there are no versions, no
  expired values waiting for a sweep and no order of iteration.  One definition per method says what
  the method does to the map and what it answers; an answer whose order the contract leaves open is a
  multiset.

  That the store of \<^verbatim>\<open>memory.go\<close> implements this machine is the subject of the next theory.  Methods with
  a random result (\<^verbatim>\<open>SRandMember\<close>, \<^verbatim>\<open>SPop\<close>), the weighted unions of sorted sets and the cursor reads are not
  part of it.
\<close>

section \<open>State and answers\<close>

datatype val =
    VStr string
  | VHash "string \<rightharpoonup> string"
  | VList "string list"
  | VSet "string set"
  | VZSet "string \<rightharpoonup> float64"

type_synonym keyspace = "string \<rightharpoonup> val \<times> gotime option"

datatype Answer =
    AUnit
  | AInt int
  | ABool bool
  | AStr "string option"
  | AStrs "string list"
  | APopped "string list option"
  | ABag "string multiset"
  | AFields "(string \<times> string) set"
  | AFloat "float64 option"
  | ARank "int option"
  | AMembers "ZMember list"
  | AInts "int list"
  | AOld string bool bool
  | AErr error

fun vTag :: "val \<Rightarrow> tag" where
  "vTag (VStr _) = TString"
| "vTag (VHash _) = THash"
| "vTag (VList _) = TList"
| "vTag (VSet _) = TSet"
| "vTag (VZSet _) = TZSet"

fun emptyVal :: "val \<Rightarrow> bool" where
  "emptyVal (VStr _) = False"
| "emptyVal (VHash h) = (dom h = {})"
| "emptyVal (VList l) = (l = [])"
| "emptyVal (VSet st) = (st = {})"
| "emptyVal (VZSet z) = (dom z = {})"

text \<open>What is still there at a later time.\<close>

definition prune :: "gotime \<Rightarrow> keyspace \<Rightarrow> keyspace" where
  "prune now m k =
     (case m k of None \<Rightarrow> None | Some (v, dl) \<Rightarrow> if dead now dl then None else Some (v, dl))"

text \<open>A value written back: a container that has become empty is gone, with its deadline.\<close>

definition keep :: "string \<Rightarrow> val \<Rightarrow> gotime option \<Rightarrow> keyspace \<Rightarrow> keyspace" where
  "keep k v dl m = (if emptyVal v then m(k := None) else m(k \<mapsto> (v, dl)))"

text \<open>Reading and writing one container, with the type check all of its methods share.\<close>

fun asList :: "val \<Rightarrow> string list option" where
  "asList (VList l) = Some l"
| "asList _ = None"

fun asSet :: "val \<Rightarrow> string set option" where
  "asSet (VSet st) = Some st"
| "asSet _ = None"

fun asZSet :: "val \<Rightarrow> (string \<rightharpoonup> float64) option" where
  "asZSet (VZSet z) = Some z"
| "asZSet _ = None"

definition misTyped :: "(val \<Rightarrow> 'c option) \<Rightarrow> string \<Rightarrow> keyspace \<Rightarrow> bool" where
  "misTyped get k m = (case m k of None \<Rightarrow> False | Some (v, _) \<Rightarrow> get v = None)"

definition readAs :: "(val \<Rightarrow> 'c option) \<Rightarrow> 'c \<Rightarrow> string \<Rightarrow> ('c \<Rightarrow> Answer) \<Rightarrow> keyspace \<Rightarrow> keyspace \<times> Answer" where
  "readAs get none k f m =
     (m, case m k of
           None \<Rightarrow> f none
         | Some (v, _) \<Rightarrow> (case get v of None \<Rightarrow> AErr ErrWrongType | Some c \<Rightarrow> f c))"

definition writeAs :: "(val \<Rightarrow> 'c option) \<Rightarrow> ('c \<Rightarrow> val) \<Rightarrow> 'c \<Rightarrow> string \<Rightarrow> ('c \<Rightarrow> 'c \<times> Answer) \<Rightarrow> keyspace
    \<Rightarrow> keyspace \<times> Answer" where
  "writeAs get put none k f m =
     (case m k of
        None \<Rightarrow> (let (c, a) = f none in (keep k (put c) None m, a))
      | Some (v, dl) \<Rightarrow>
          (case get v of
             None \<Rightarrow> (m, AErr ErrWrongType)
           | Some c \<Rightarrow> (let (c', a) = f c in (keep k (put c') dl m, a))))"

section \<open>Strings\<close>

definition specSet :: "string \<Rightarrow> string \<Rightarrow> keyspace \<Rightarrow> keyspace \<times> Answer" where
  "specSet key v m = (m(key \<mapsto> (VStr v, None)), AUnit)"

definition specSetWithTTL :: "gotime \<Rightarrow> string \<Rightarrow> string \<Rightarrow> duration \<Rightarrow> keyspace \<Rightarrow> keyspace \<times> Answer" where
  "specSetWithTTL now key v ttl m = (prune now (m(key \<mapsto> (VStr v, Some (now + ttl)))), AUnit)"

definition specSetAdv :: "gotime \<Rightarrow> string \<Rightarrow> string \<Rightarrow> duration \<Rightarrow> SetAdvOpts \<Rightarrow> keyspace \<Rightarrow> keyspace \<times> Answer" where
  "specSetAdv now key v ttl opts m =
     (let old = (case m key of Some (VStr w, _) \<Rightarrow> w | _ \<Rightarrow> []);
          there = m key \<noteq> None;
          ttl' = (if KeepTTL opts then (case m key of None \<Rightarrow> None | Some (_, dl) \<Rightarrow> dl)
                  else if 0 < ttl then Some (now + ttl)
                  else None)
      in if NX opts \<and> there \<or> XX opts \<and> \<not> there then (m, AOld old there False)
         else (m(key \<mapsto> (VStr v, ttl')), AOld old there True))"

definition specGet :: "string \<Rightarrow> keyspace \<Rightarrow> keyspace \<times> Answer" where
  "specGet key m = (m, AStr (case m key of Some (VStr v, _) \<Rightarrow> Some v | _ \<Rightarrow> None))"

definition specGetEx :: "gotime \<Rightarrow> string \<Rightarrow> duration \<Rightarrow> bool \<Rightarrow> bool \<Rightarrow> keyspace \<Rightarrow> keyspace \<times> Answer" where
  "specGetEx now key ttl persist hasTTL m =
     (case m key of
        Some (VStr v, dl) \<Rightarrow>
          (if persist then m(key \<mapsto> (VStr v, None))
           else if hasTTL then prune now (m(key \<mapsto> (VStr v, Some (now + ttl))))
           else m, AStr (Some v))
      | _ \<Rightarrow> (m, AStr None))"

definition specDel :: "string list \<Rightarrow> keyspace \<Rightarrow> keyspace \<times> Answer" where
  "specDel keys m = (m |` (- set keys), AInt (int (card (set keys \<inter> dom m))))"

definition specExists :: "string list \<Rightarrow> keyspace \<Rightarrow> keyspace \<times> Answer" where
  "specExists keys m = (m, AInt (int (length (filter (\<lambda>k. m k \<noteq> None) keys))))"

definition specKeys :: "string \<Rightarrow> keyspace \<Rightarrow> keyspace \<times> Answer" where
  "specKeys pattern m = (m, ABag (mset_set {k \<in> dom m. Match pattern k}))"

definition specLen :: "keyspace \<Rightarrow> keyspace \<times> Answer" where
  "specLen m = (m, AInt (int (card (dom m))))"

definition specFlush :: "keyspace \<Rightarrow> keyspace \<times> Answer" where
  "specFlush m = (Map.empty, AUnit)"

section \<open>Expiry, renaming, types\<close>

definition specExpire :: "gotime \<Rightarrow> string \<Rightarrow> duration \<Rightarrow> keyspace \<Rightarrow> keyspace \<times> Answer" where
  "specExpire now key ttl m =
     (case m key of
        None \<Rightarrow> (m, ABool False)
      | Some (v, _) \<Rightarrow> (prune now (m(key \<mapsto> (v, Some (now + ttl)))), ABool True))"

definition specTTL :: "gotime \<Rightarrow> string \<Rightarrow> keyspace \<Rightarrow> keyspace \<times> Answer" where
  "specTTL now key m =
     (m, AInt (case m key of
                 None \<Rightarrow> -2 * Second
               | Some (_, None) \<Rightarrow> -1 * Second
               | Some (_, Some t) \<Rightarrow> timeUntil now t))"

definition specPersist :: "string \<Rightarrow> keyspace \<Rightarrow> keyspace \<times> Answer" where
  "specPersist key m =
     (case m key of
        Some (v, Some _) \<Rightarrow> (m(key \<mapsto> (v, None)), ABool True)
      | _ \<Rightarrow> (m, ABool False))"

definition specRename :: "string \<Rightarrow> string \<Rightarrow> keyspace \<Rightarrow> keyspace \<times> Answer" where
  "specRename src dst m =
     (case m src of
        None \<Rightarrow> (m, ABool False)
      | Some e \<Rightarrow> ((m(src := None))(dst \<mapsto> e), ABool True))"

definition specType :: "string \<Rightarrow> keyspace \<Rightarrow> keyspace \<times> Answer" where
  "specType key m = (m, AStr (Some (case m key of None \<Rightarrow> ''none'' | Some (v, _) \<Rightarrow> tagName (vTag v))))"

section \<open>Hashes\<close>

definition fieldsOf :: "keyspace \<Rightarrow> string \<Rightarrow> string \<rightharpoonup> string" where
  "fieldsOf m key = (case m key of Some (VHash h, _) \<Rightarrow> h | _ \<Rightarrow> Map.empty)"

definition specHSet :: "string \<Rightarrow> (string, string) gomap \<Rightarrow> keyspace \<Rightarrow> keyspace \<times> Answer" where
  "specHSet key flds m =
     (let h = fieldsOf m key;
          dl = (case m key of Some (VHash _, dl) \<Rightarrow> dl | _ \<Rightarrow> None)
      in (m(key \<mapsto> (VHash (h ++ map_of flds), dl)), AInt (int (card (dom (map_of flds) - dom h)))))"

definition specHGet :: "string \<Rightarrow> string \<Rightarrow> keyspace \<Rightarrow> keyspace \<times> Answer" where
  "specHGet key field m = (m, AStr (fieldsOf m key field))"

definition specHDel :: "string \<Rightarrow> string list \<Rightarrow> keyspace \<Rightarrow> keyspace \<times> Answer" where
  "specHDel key flds m =
     (case m key of
        Some (VHash h, dl) \<Rightarrow>
          (keep key (VHash (h |` (- set flds))) dl m, AInt (int (card (set flds \<inter> dom h))))
      | _ \<Rightarrow> (m, AInt 0))"

definition specHGetAll :: "string \<Rightarrow> keyspace \<Rightarrow> keyspace \<times> Answer" where
  "specHGetAll key m = (m, AFields (Map.graph (fieldsOf m key)))"

definition specHLen :: "string \<Rightarrow> keyspace \<Rightarrow> keyspace \<times> Answer" where
  "specHLen key m = (m, AInt (int (card (dom (fieldsOf m key)))))"

definition specHExists :: "string \<Rightarrow> string \<Rightarrow> keyspace \<Rightarrow> keyspace \<times> Answer" where
  "specHExists key field m = (m, ABool (fieldsOf m key field \<noteq> None))"

definition specHKeys :: "string \<Rightarrow> keyspace \<Rightarrow> keyspace \<times> Answer" where
  "specHKeys key m = (m, ABag (mset_set (dom (fieldsOf m key))))"

definition specHVals :: "string \<Rightarrow> keyspace \<Rightarrow> keyspace \<times> Answer" where
  "specHVals key m =
     (let h = fieldsOf m key in (m, ABag (image_mset (\<lambda>f. the (h f)) (mset_set (dom h)))))"

section \<open>Lists\<close>

text \<open>
  \<^verbatim>\<open>LPush\<close> prepends its values one after the other, as in Redis, in the body of \<^verbatim>\<open>memory.go\<close> and in its test:
  the last of them ends up leftmost.  The doc comments on the method say the first does.
\<close>

definition specLPush :: "string \<Rightarrow> string list \<Rightarrow> keyspace \<Rightarrow> keyspace \<times> Answer" where
  "specLPush key vals = writeAs asList VList [] key (\<lambda>l. (rev vals @ l, AInt (int (length vals + length l))))"

definition specRPush :: "string \<Rightarrow> string list \<Rightarrow> keyspace \<Rightarrow> keyspace \<times> Answer" where
  "specRPush key vals = writeAs asList VList [] key (\<lambda>l. (l @ vals, AInt (int (length vals + length l))))"

definition specLPop :: "string \<Rightarrow> int \<Rightarrow> keyspace \<Rightarrow> keyspace \<times> Answer" where
  "specLPop key cnt = writeAs asList VList [] key
     (\<lambda>l. (drop (nat cnt) l, APopped (if l = [] then None else Some (take (nat cnt) l))))"

definition specRPop :: "string \<Rightarrow> int \<Rightarrow> keyspace \<Rightarrow> keyspace \<times> Answer" where
  "specRPop key cnt = writeAs asList VList [] key
     (\<lambda>l. (take (length l - nat cnt) l, APopped (if l = [] then None else Some (drop (length l - nat cnt) l))))"

definition specLLen :: "string \<Rightarrow> keyspace \<Rightarrow> keyspace \<times> Answer" where
  "specLLen key = readAs asList [] key (\<lambda>l. AInt (int (length l)))"

definition specLRange :: "string \<Rightarrow> int \<Rightarrow> int \<Rightarrow> keyspace \<Rightarrow> keyspace \<times> Answer" where
  "specLRange key start stop = readAs asList [] key (\<lambda>l. AStrs (rangeOf start stop l))"

definition specLIndex :: "string \<Rightarrow> int \<Rightarrow> keyspace \<Rightarrow> keyspace \<times> Answer" where
  "specLIndex key index = readAs asList [] key
     (\<lambda>l. let len = int (length l)
          in AStr (if - len \<le> index \<and> index < len then Some (l ! nat (fromEnd len index)) else None))"

definition specLSet :: "string \<Rightarrow> int \<Rightarrow> string \<Rightarrow> keyspace \<Rightarrow> keyspace \<times> Answer" where
  "specLSet key index v = writeAs asList VList [] key
     (\<lambda>l. let len = int (length l)
          in if l = [] then (l, AErr (Errorf ''ERR no such key''))
             else if - len \<le> index \<and> index < len then (l[nat (fromEnd len index) := v], AUnit)
             else (l, AErr (Errorf ''ERR index out of range'')))"

definition specLInsert :: "string \<Rightarrow> bool \<Rightarrow> string \<Rightarrow> string \<Rightarrow> keyspace \<Rightarrow> keyspace \<times> Answer" where
  "specLInsert key before pivot v = writeAs asList VList [] key
     (\<lambda>l. if l = [] then (l, AInt 0)
          else if pivot \<notin> set l then (l, AInt (-1))
          else
            let xs = takeWhile (\<lambda>x. x \<noteq> pivot) l; ys = drop (Suc (length xs)) l;
                l' = (if before then xs @ v # pivot # ys else xs @ pivot # v # ys)
            in (l', AInt (int (length l'))))"

definition specLRem :: "string \<Rightarrow> int \<Rightarrow> string \<Rightarrow> keyspace \<Rightarrow> keyspace \<times> Answer" where
  "specLRem key cnt v = writeAs asList VList [] key
     (\<lambda>l. (lremSpec cnt v l,
           AInt (if cnt = 0 then int (count_list l v) else min \<bar>cnt\<bar> (int (count_list l v)))))"

definition specLTrim :: "string \<Rightarrow> int \<Rightarrow> int \<Rightarrow> keyspace \<Rightarrow> keyspace \<times> Answer" where
  "specLTrim key start stop = writeAs asList VList [] key (\<lambda>l. (rangeOf start stop l, AUnit))"

text \<open>The two-key moves: the element leaves the source first, then joins what the destination holds.\<close>

definition specLMove :: "string \<Rightarrow> string \<Rightarrow> bool \<Rightarrow> bool \<Rightarrow> keyspace \<Rightarrow> keyspace \<times> Answer" where
  "specLMove src dst srcLeft dstLeft m =
     (if misTyped asList src m \<or> misTyped asList dst m then (m, AErr ErrWrongType)
      else
        case m src of
          Some (VList l, dl) \<Rightarrow>
            let x = (if srcLeft then hd l else last l);
                m' = keep src (VList (if srcLeft then tl l else butlast l)) dl m
            in (fst (writeAs asList VList [] dst (\<lambda>l. (if dstLeft then x # l else l @ [x], AUnit)) m'), AStr (Some x))
        | _ \<Rightarrow> (m, AStr None))"

section \<open>Sets\<close>

definition membersOf :: "keyspace \<Rightarrow> string \<Rightarrow> string set" where
  "membersOf m key = (case m key of Some (VSet st, _) \<Rightarrow> st | _ \<Rightarrow> {})"

definition specSAdd :: "string \<Rightarrow> string list \<Rightarrow> keyspace \<Rightarrow> keyspace \<times> Answer" where
  "specSAdd key ms = writeAs asSet VSet {} key (\<lambda>st. (st \<union> set ms, AInt (int (card (set ms - st)))))"

definition specSRem :: "string \<Rightarrow> string list \<Rightarrow> keyspace \<Rightarrow> keyspace \<times> Answer" where
  "specSRem key ms = writeAs asSet VSet {} key (\<lambda>st. (st - set ms, AInt (int (card (st \<inter> set ms)))))"

definition specSMembers :: "string \<Rightarrow> keyspace \<Rightarrow> keyspace \<times> Answer" where
  "specSMembers key = readAs asSet {} key (\<lambda>st. ABag (mset_set st))"

definition specSCard :: "string \<Rightarrow> keyspace \<Rightarrow> keyspace \<times> Answer" where
  "specSCard key = readAs asSet {} key (\<lambda>st. AInt (int (card st)))"

definition specSIsMember :: "string \<Rightarrow> string \<Rightarrow> keyspace \<Rightarrow> keyspace \<times> Answer" where
  "specSIsMember key member = readAs asSet {} key (\<lambda>st. ABool (member \<in> st))"

definition specSMIsMember :: "string \<Rightarrow> string list \<Rightarrow> keyspace \<Rightarrow> keyspace \<times> Answer" where
  "specSMIsMember key ms = readAs asSet {} key (\<lambda>st. AInts (map (\<lambda>x. if x \<in> st then 1 else 0) ms))"

definition interOf :: "string list \<Rightarrow> keyspace \<Rightarrow> string set" where
  "interOf keys m = (\<Inter>k \<in> set keys. membersOf m k)"

definition unionOf :: "string list \<Rightarrow> keyspace \<Rightarrow> string set" where
  "unionOf keys m = (\<Union>k \<in> set keys. membersOf m k)"

definition diffOf :: "string list \<Rightarrow> keyspace \<Rightarrow> string set" where
  "diffOf keys m = membersOf m (hd keys) - (\<Union>k \<in> set (tl keys). membersOf m k)"

definition specSInter :: "string list \<Rightarrow> keyspace \<Rightarrow> keyspace \<times> Answer" where
  "specSInter keys m = (m, ABag (mset_set (interOf keys m)))"

definition specSUnion :: "string list \<Rightarrow> keyspace \<Rightarrow> keyspace \<times> Answer" where
  "specSUnion keys m = (m, ABag (mset_set (unionOf keys m)))"

definition specSDiff :: "string list \<Rightarrow> keyspace \<Rightarrow> keyspace \<times> Answer" where
  "specSDiff keys m = (m, ABag (mset_set (diffOf keys m)))"

definition specSInterStore :: "string \<Rightarrow> string list \<Rightarrow> keyspace \<Rightarrow> keyspace \<times> Answer" where
  "specSInterStore dst keys m = (keep dst (VSet (interOf keys m)) None m, AInt (int (card (interOf keys m))))"

definition specSUnionStore :: "string \<Rightarrow> string list \<Rightarrow> keyspace \<Rightarrow> keyspace \<times> Answer" where
  "specSUnionStore dst keys m = (keep dst (VSet (unionOf keys m)) None m, AInt (int (card (unionOf keys m))))"

definition specSDiffStore :: "string \<Rightarrow> string list \<Rightarrow> keyspace \<Rightarrow> keyspace \<times> Answer" where
  "specSDiffStore dst keys m = (keep dst (VSet (diffOf keys m)) None m, AInt (int (card (diffOf keys m))))"

definition specSMove :: "string \<Rightarrow> string \<Rightarrow> string \<Rightarrow> keyspace \<Rightarrow> keyspace \<times> Answer" where
  "specSMove src dst member m =
     (if misTyped asSet src m \<or> misTyped asSet dst m then (m, AErr ErrWrongType)
      else
        case m src of
          Some (VSet st, dl) \<Rightarrow>
            (if member \<in> st
             then (fst (writeAs asSet VSet {} dst (\<lambda>st. (insert member st, AUnit)) (keep src (VSet (st - {member})) dl m)),
                   ABool True)
             else (m, ABool False))
        | _ \<Rightarrow> (m, ABool False))"

section \<open>Sorted sets\<close>

text \<open>The members in order of score, then name; and the members whose score lies between two bounds.\<close>

definition ranked :: "(string \<rightharpoonup> float64) \<Rightarrow> ZMember list" where
  "ranked z = sortSlice zless (map (\<lambda>k. \<lparr>Member = k, Score = the (z k)\<rparr>) (sorted_list_of_set (dom z)))"

definition inBounds :: "float64 \<Rightarrow> float64 \<Rightarrow> bool \<Rightarrow> bool \<Rightarrow> float64 \<Rightarrow> bool" where
  "inBounds lo hi loExcl hiExcl sc \<longleftrightarrow>
     (if loExcl then flt lo sc else fle lo sc) \<and> (if hiExcl then flt sc hi else fle sc hi)"

definition zaddOne :: "bool \<Rightarrow> bool \<Rightarrow> bool \<Rightarrow> bool \<Rightarrow> bool \<Rightarrow> ZMember \<Rightarrow> (string \<rightharpoonup> float64) \<times> int \<Rightarrow> (string \<rightharpoonup> float64) \<times> int" where
  "zaddOne nx xx gt lt ch x = (\<lambda>(z, n).
     case z (Member x) of
       None \<Rightarrow> if xx then (z, n) else (z(Member x \<mapsto> Score x), n + 1)
     | Some old \<Rightarrow>
         if nx \<or> gt \<and> fle (Score x) old \<or> lt \<and> fle old (Score x) then (z, n)
         else (z(Member x \<mapsto> Score x), if ch \<and> \<not> feq (Score x) old then n + 1 else n))"

definition specZAdd :: "string \<Rightarrow> ZMember list \<Rightarrow> bool \<Rightarrow> bool \<Rightarrow> bool \<Rightarrow> bool \<Rightarrow> bool \<Rightarrow> keyspace \<Rightarrow> keyspace \<times> Answer" where
  "specZAdd key ms nx xx gt lt ch = writeAs asZSet VZSet Map.empty key
     (\<lambda>z. let (z', n) = fold (zaddOne nx xx gt lt ch) ms (z, 0) in (z', AInt n))"

definition specZRem :: "string \<Rightarrow> string list \<Rightarrow> keyspace \<Rightarrow> keyspace \<times> Answer" where
  "specZRem key ms = writeAs asZSet VZSet Map.empty key
     (\<lambda>z. (z |` (- set ms), AInt (int (card (set ms \<inter> dom z)))))"

definition specZScore :: "string \<Rightarrow> string \<Rightarrow> keyspace \<Rightarrow> keyspace \<times> Answer" where
  "specZScore key member = readAs asZSet Map.empty key (\<lambda>z. AFloat (z member))"

definition specZCard :: "string \<Rightarrow> keyspace \<Rightarrow> keyspace \<times> Answer" where
  "specZCard key = readAs asZSet Map.empty key (\<lambda>z. AInt (int (card (dom z))))"

definition specZRank :: "string \<Rightarrow> string \<Rightarrow> keyspace \<Rightarrow> keyspace \<times> Answer" where
  "specZRank key member = readAs asZSet Map.empty key
     (\<lambda>z. ARank (case z member of
            None \<Rightarrow> None
          | Some sc \<Rightarrow> Some (int (length (filter (\<lambda>x. zless x \<lparr>Member = member, Score = sc\<rparr>) (ranked z))))))"

definition specZRevRank :: "string \<Rightarrow> string \<Rightarrow> keyspace \<Rightarrow> keyspace \<times> Answer" where
  "specZRevRank key member = readAs asZSet Map.empty key
     (\<lambda>z. ARank (case z member of
            None \<Rightarrow> None
          | Some sc \<Rightarrow> Some (int (length (filter (zless \<lparr>Member = member, Score = sc\<rparr>) (ranked z))))))"

definition specZIncrBy :: "string \<Rightarrow> float64 \<Rightarrow> string \<Rightarrow> keyspace \<Rightarrow> keyspace \<times> Answer" where
  "specZIncrBy key increment member = writeAs asZSet VZSet Map.empty key
     (\<lambda>z. let new = fadd (case z member of None \<Rightarrow> Fin 0 | Some f \<Rightarrow> f) increment
          in (z(member \<mapsto> new), AFloat (Some new)))"

definition specZRange :: "string \<Rightarrow> int \<Rightarrow> int \<Rightarrow> bool \<Rightarrow> bool \<Rightarrow> keyspace \<Rightarrow> keyspace \<times> Answer" where
  "specZRange key start stop reverse withScores = readAs asZSet Map.empty key
     (\<lambda>z. let r = rangeOf start stop (ranked z)
          in AStrs (concat (map (withScore withScores) (if reverse then rev r else r))))"

definition specZRangeByScore :: "string \<Rightarrow> float64 \<Rightarrow> float64 \<Rightarrow> bool \<Rightarrow> bool \<Rightarrow> bool \<Rightarrow> int \<Rightarrow> int \<Rightarrow> keyspace \<Rightarrow> keyspace \<times> Answer" where
  "specZRangeByScore key lo hi loExcl hiExcl withScores offset cnt = readAs asZSet Map.empty key
     (\<lambda>z. AStrs (concat (map (withScore withScores)
            (limited offset cnt (filter (\<lambda>x. inBounds lo hi loExcl hiExcl (Score x)) (ranked z))))))"

definition specZRevRangeByScore :: "string \<Rightarrow> float64 \<Rightarrow> float64 \<Rightarrow> bool \<Rightarrow> bool \<Rightarrow> bool \<Rightarrow> int \<Rightarrow> int \<Rightarrow> keyspace \<Rightarrow> keyspace \<times> Answer" where
  "specZRevRangeByScore key hi lo hiExcl loExcl withScores offset cnt = readAs asZSet Map.empty key
     (\<lambda>z. AStrs (concat (map (withScore withScores)
            (limited offset cnt (filter (\<lambda>x. inBounds lo hi loExcl hiExcl (Score x)) (rev (ranked z)))))))"

definition specZCount :: "string \<Rightarrow> float64 \<Rightarrow> float64 \<Rightarrow> bool \<Rightarrow> bool \<Rightarrow> keyspace \<Rightarrow> keyspace \<times> Answer" where
  "specZCount key lo hi loExcl hiExcl = readAs asZSet Map.empty key
     (\<lambda>z. AInt (int (card {k \<in> dom z. inBounds lo hi loExcl hiExcl (the (z k))})))"

definition specZRangeByLex :: "string \<Rightarrow> string \<Rightarrow> string \<Rightarrow> int \<Rightarrow> int \<Rightarrow> keyspace \<Rightarrow> keyspace \<times> Answer" where
  "specZRangeByLex key lo hi offset cnt = readAs asZSet Map.empty key
     (\<lambda>z. AStrs (limited offset cnt (filter (lexInRange lo hi) (map Member (ranked z)))))"

definition specZLexCount :: "string \<Rightarrow> string \<Rightarrow> string \<Rightarrow> keyspace \<Rightarrow> keyspace \<times> Answer" where
  "specZLexCount key lo hi = readAs asZSet Map.empty key
     (\<lambda>z. AInt (int (card {k \<in> dom z. lexInRange lo hi k})))"

definition specZPopMin :: "string \<Rightarrow> int \<Rightarrow> keyspace \<Rightarrow> keyspace \<times> Answer" where
  "specZPopMin key cnt = writeAs asZSet VZSet Map.empty key
     (\<lambda>z. let p = take (nat cnt) (ranked z) in (z |` (- Member ` set p), AMembers p))"

definition specZPopMax :: "string \<Rightarrow> int \<Rightarrow> keyspace \<Rightarrow> keyspace \<times> Answer" where
  "specZPopMax key cnt = writeAs asZSet VZSet Map.empty key
     (\<lambda>z. let p = take (nat cnt) (rev (ranked z)) in (z |` (- Member ` set p), AMembers p))"

end
