(* ===== verification/StoreRefine.thy ===== *)
theory StoreRefine
  imports StoreSpec
begin

text \<open>
  The store of \<^verbatim>\<open>internal/storage/memory.go\<close> implements the contract of the interface \<^verbatim>\<open>Store\<close>.

  \<open>view now s\<close> is the abstract keyspace the seven maps stand for at time \<open>now\<close>.  For every method there is
  a lemma that its model answers what the contract says and leaves a well-formed store whose view is the
  keyspace the contract says.  \<open>run\<close>, \<open>spec\<close> and \<open>permitted\<close> collect the methods, their contracts and the
  conditions under which they are met; the conditions are the places where the code and the comments of
  the interface part: a container written over an expired value the sweeper has not yet removed, a
  deadline at the zero time, a rename of a key to itself, \<^verbatim>\<open>NX\<close> and \<^verbatim>\<open>XX\<close> on containers, a score that is not
  a number.
\<close>

named_theorems refinements \<comment> \<open>one fact per method of the interface\<close>

section \<open>The abstraction\<close>

fun vOf :: "obj \<Rightarrow> val" where
  "vOf (OStr v) = VStr v"
| "vOf (OHash h) = VHash (map_of h)"
| "vOf (OList l) = VList l"
| "vOf (OSet st) = VSet (dom (map_of st))"
| "vOf (OZSet z) = VZSet (map_of (scores z))"

definition seen :: "gotime \<Rightarrow> (obj \<times> gotime option) option \<Rightarrow> (val \<times> gotime option) option" where
  "seen now e =
     (case e of None \<Rightarrow> None | Some (ob, dl) \<Rightarrow> if dead now dl then None else Some (vOf ob, dl))"

definition view :: "gotime \<Rightarrow> MemoryStore \<Rightarrow> keyspace" where
  "view now s k = seen now (entry s k)"

definition refines :: "gotime \<Rightarrow> (MemoryStore \<times> Answer) go \<Rightarrow> keyspace \<times> Answer \<Rightarrow> bool" where
  "refines now r sp \<longleftrightarrow> (\<exists>s' a. r = Ret (s', a) \<and> wf_store s' \<and> sp = (view now s', a))"

lemma refinesI: "r = Ret (s', a) \<Longrightarrow> wf_store s' \<Longrightarrow> sp = (view now s', a) \<Longrightarrow> refines now r sp"
  by (auto simp: refines_def)

lemma refines_pairI:
  "wf_store (fst p) \<Longrightarrow> sp = (view now (fst p), g (snd p)) \<Longrightarrow> refines now (Ret (map_prod id g p)) sp"
  by (cases p) (auto simp: refines_def)

lemma seen_simps [simp]:
  "seen now None = None"
  "seen now (Some (ob, dl)) = (if dead now dl then None else Some (vOf ob, dl))"
  by (simp_all add: seen_def)

lemma vTag_vOf [simp]: "vTag (vOf ob) = tagOf ob"
  by (cases ob) simp_all

lemma vTag_not_NoKey [simp]: "vTag v \<noteq> NoKey"
  by (cases v) simp_all

lemma view_live: "view now s k = map_option (map_prod vOf id) (live now s k)"
  by (auto simp: view_def live_def split: option.split)

lemma view_typeOf:
  "wf_store s \<Longrightarrow> typeOf now k s = (case view now s k of None \<Rightarrow> NoKey | Some (v, _) \<Rightarrow> vTag v)"
  using wf_store_key [of s k] by (auto simp: typeOf_live view_live split: option.split)

lemma view_None: "wf_store s \<Longrightarrow> view now s k = None \<longleftrightarrow> typeOf now k s = NoKey"
  using wf_store_key [of s k] by (auto simp: live_None_typeOf view_live)

lemma view_upd: "entry s' = (entry s)(k := e) \<Longrightarrow> view now s' = (view now s)(k := seen now e)"
  by (simp add: fun_eq_iff view_def)

lemma view_entry: "entry s' = entry s \<Longrightarrow> view now s' = view now s"
  by (simp add: fun_eq_iff view_def)

lemma view_bumpVersion [simp]: "view now (bumpVersion k s) = view now s"
  by (rule view_entry) simp

lemma prune_view: "now \<le> now' \<Longrightarrow> view now' s = prune now' (view now s)"
  by (auto simp: fun_eq_iff view_live prune_def live_later split: option.split)

lemma prune_id [simp]: "prune now (view now s) = view now s"
  using prune_view [of now now s] by simp

lemma view_alive: "view now s k = Some (v, dl) \<Longrightarrow> \<not> dead now dl"
  by (auto simp: view_def seen_def split: option.splits if_splits)

lemma prune_upd [simp]: "prune now ((view now s)(k := e)) = (view now s)(k := prune now (\<lambda>_. e) k)"
  by (auto simp: fun_eq_iff prune_def view_alive split: option.split)

lemma prune_const [simp]:
  "prune now (\<lambda>_. None) = Map.empty"
  "prune now (\<lambda>_. Some (v, dl)) = (if dead now dl then Map.empty else (\<lambda>_. Some (v, dl)))"
  by (auto simp: fun_eq_iff prune_def)

text \<open>What the view says of a key of a known type.\<close>

lemma view_deadline:
  "entry s k = Some (ob, deadline s k) \<Longrightarrow> typeOf now k s \<noteq> NoKey \<Longrightarrow> wf_store s \<Longrightarrow>
     view now s k = Some (vOf ob, deadline s k) \<and> \<not> dead now (deadline s k)"
  using view_None [of s now k] by (auto simp: view_def split: if_splits)

lemma settled_missing:
  "settled now s k \<Longrightarrow> wf_store s \<Longrightarrow> typeOf now k s = NoKey \<Longrightarrow> entry s k = None \<and> deadline s k = None"
  using wf_store_key [of s k] by (auto simp: settled_def live_None_typeOf deadline_def)

text \<open>The two unchanged cases of writing back.\<close>

lemma keep_same: "m k = Some (v, dl) \<Longrightarrow> \<not> emptyVal v \<Longrightarrow> keep k v dl m = m"
  by (auto simp: keep_def fun_eq_iff)

lemma keep_missing: "m k = None \<Longrightarrow> emptyVal v \<Longrightarrow> keep k v dl m = m"
  by (auto simp: keep_def fun_eq_iff)

section \<open>Strings, expiry, renaming\<close>

lemma refines_Set [refinements]: "wf_store s \<Longrightarrow> refines now (Ret (Set key v s, AUnit)) (specSet key v (view now s))"
  by (rule refinesI [OF refl]) (simp_all add: wf_store_Set specSet_def view_upd [OF entry_Set])

lemma refines_SetWithTTL [refinements]:
  "wf_store s \<Longrightarrow> now + ttl \<noteq> zeroTime \<Longrightarrow>
     refines now (Ret (SetWithTTL now key v ttl s, AUnit)) (specSetWithTTL now key v ttl (view now s))"
  by (rule refinesI [OF refl])
    (simp_all add: wf_store_SetWithTTL specSetWithTTL_def view_upd [OF entry_SetWithTTL] dlOf_def)

lemma refines_Get [refinements]:
  "wf_store s \<Longrightarrow> refines now (Ret (s, AStr (Get now key s))) (specGet key (view now s))"
  by (rule refinesI [OF refl]) (auto simp: specGet_def Get_entry view_def seen_def split: option.split obj.split)

lemma refines_Flush [refinements]: "refines now (Ret (Flush s, AUnit)) (specFlush (view now s))"
  by (rule refinesI [OF refl]) (simp_all add: wf_store_Flush specFlush_def fun_eq_iff view_def entry_Flush)

lemma refines_Type [refinements]:
  "wf_store s \<Longrightarrow> refines now (Ret (s, AStr (Some (Type now key s)))) (specType key (view now s))"
  by (rule refinesI [OF refl]) (auto simp: specType_def Type_def view_typeOf split: option.split val.split)

lemma refines_Exists [refinements]:
  "wf_store s \<Longrightarrow> refines now (Ret (s, AInt (Exists now keys s))) (specExists keys (view now s))"
  by (rule refinesI [OF refl]) (simp_all add: specExists_def Exists_live view_live)

lemma view_at: "(\<And>k'. k' \<noteq> k \<Longrightarrow> same_at k' s' s) \<Longrightarrow> view now s' = (view now s)(k := seen now (entry s' k))"
  using same_at_entry by (force simp: fun_eq_iff view_def)

lemma Get_view: "Get now key s = (case view now s key of Some (VStr v, _) \<Rightarrow> Some v | _ \<Rightarrow> None)"
  by (auto simp: Get_entry view_def seen_def split: option.split obj.split)

lemma keepTTL_view:
  assumes "wf_store s" and "typeOf now key s \<in> {NoKey, TString}" and "settled now s key"
  shows "dlOf (case map_of (strings s) key of None \<Rightarrow> zeroTime | Some e \<Rightarrow> expiresAt e) =
    (case view now s key of None \<Rightarrow> None | Some (_, dl) \<Rightarrow> dl)"
  using wf_store_key [OF assms(1), of key]
  by (cases rule: key_cases [where now = now])
    (use assms(2,3) in \<open>auto simp: view_def settled_def live_def expired_dlOf dlOf_def split: if_splits\<close>)

lemma view_put_string:
  "view now ((deleteKey key s)\<lparr>strings := mput key e (mdel key (strings s))\<rparr>) =
     (view now s)(key := seen now (Some (OStr (str_value e), dlOf (expiresAt e))))"
  using view_upd [OF entry_put_string [of key e s], of now] by simp

lemma refines_SetAdv [refinements]:
  assumes "wf_store s" and "typeOf now key s \<in> {NoKey, TString}" and "KeepTTL opts \<longrightarrow> settled now s key"
    and "now + ttl \<noteq> zeroTime"
  shows "refines now (Ret (map_prod id (\<lambda>(a, b, c). AOld a b c) (SetAdv now key v ttl opts s)))
    (specSetAdv now key v ttl opts (view now s))"
proof -
  let ?r = "SetAdv now key v ttl opts s"
  have get: "Get now key s = None \<longleftrightarrow> view now s key = None"
    using assms(2) unfolding Get_view view_typeOf [OF assms(1)] by (auto split: option.splits val.splits)
  have old: "(case Get now key s of None \<Rightarrow> [] | Some w \<Rightarrow> w) = (case view now s key of Some (VStr w, _) \<Rightarrow> w | _ \<Rightarrow> [])"
    by (auto simp: Get_view split: option.split val.split)
  show ?thesis
  proof (rule refinesI)
    show "Ret (map_prod id (\<lambda>(a, b, c). AOld a b c) ?r) = Ret (fst ?r, (\<lambda>(a, b, c). AOld a b c) (snd ?r))"
      by (simp add: map_prod_def case_prod_beta)
    show "wf_store (fst ?r)" using assms(1) by (rule wf_store_SetAdv)
    show "specSetAdv now key v ttl opts (view now s) = (view now (fst ?r), (\<lambda>(a, b, c). AOld a b c) (snd ?r))"
      using keepTTL_view [OF assms(1,2)] assms(3,4) get old
      by (cases "view now s key") (auto simp: view_alive specSetAdv_def SetAdv_result SetAdv_state Let_def view_put_string
          dlOf_def [of "now + ttl"] dlOf_def [of zeroTime])
  qed
qed

lemma entry_retime:
  "map_of (strings s) key = Some e \<Longrightarrow>
     entry (s\<lparr>strings := mput key (e\<lparr>expiresAt := t\<rparr>) (strings s)\<rparr>) = (entry s)(key \<mapsto> (OStr (str_value e), dlOf t))"
  by (auto simp: fun_eq_iff entry_def container_def)

lemma refines_GetEx [refinements]:
  assumes wf: "wf_store s" and "hasTTL \<longrightarrow> now + ttl \<noteq> zeroTime"
  shows "refines now (Ret (map_prod id AStr (GetEx now key ttl persist hasTTL s)))
    (specGetEx now key ttl persist hasTTL (view now s))"
proof -
  let ?r = "GetEx now key ttl persist hasTTL s"
  have "specGetEx now key ttl persist hasTTL (view now s) = (view now (fst ?r), AStr (snd ?r))"
    using wf_store_key [OF wf, of key]
  proof (cases rule: key_cases [where now = now])
    case (string e)
    show ?thesis
    proof (cases "expired now (expiresAt e)")
      case True
      then show ?thesis using string by (simp add: GetEx_def specGetEx_def view_def expired_dlOf)
    next
      case False
      then have "view now s key = Some (VStr (str_value e), dlOf (expiresAt e))"
        using string by (simp add: view_def expired_dlOf)
      then show ?thesis using False assms(2) string
        by (auto simp: GetEx_def specGetEx_def view_upd [OF entry_retime] dlOf_def [of "now + ttl"] dlOf_def [of zeroTime])
    qed
  next
    case (container ob)
    then show ?thesis by (cases ob) (simp_all add: GetEx_def specGetEx_def view_def)
  qed (simp add: GetEx_def specGetEx_def view_def)
  then show ?thesis using wf_store_GetEx [OF wf, of now key ttl persist hasTTL]
    by (intro refines_pairI) simp_all
qed

lemma Del_card:
  "wf_store s \<Longrightarrow> snd (Del now ks s) = int (card (set ks \<inter> dom (live now s)))"
proof (induction ks arbitrary: s)
  case (Cons a ks)
  let ?s = "bumpVersion a (deleteKey a s)"
  have type: "typeOf now a s = NoKey \<longleftrightarrow> live now s a = None"
    using Cons.prems by (simp add: live_None_typeOf wf_store_key)
  show ?case
  proof (cases "live now s a")
    case None
    then have "set (a # ks) \<inter> dom (live now s) = set ks \<inter> dom (live now s)" by auto
    then show ?thesis using Cons None type by simp
  next
    case (Some p)
    then have "set (a # ks) \<inter> dom (live now s) = insert a (set ks \<inter> dom (live now ?s))"
      by (auto simp: live_deleteKey)
    moreover have "a \<notin> dom (live now ?s)" by (simp add: live_deleteKey)
    ultimately show ?thesis using Cons.IH [of ?s] Cons.prems Some type by (simp add: case_prod_beta Let_def)
  qed
qed simp

lemma dom_view: "dom (view now s) = dom (live now s)"
  by (auto simp: view_live)

lemma refines_Del [refinements]:
  assumes "wf_store s"
  shows "refines now (Ret (map_prod id AInt (Del now ks s))) (specDel ks (view now s))"
proof -
  have "view now (fst (Del now ks s)) = view now s |` (- set ks)"
    by (auto simp: fun_eq_iff view_live live_Del [OF assms] restrict_map_def)
  then show ?thesis using wf_store_Del [OF assms, of now ks]
    by (intro refinesI) (auto simp: map_prod_def case_prod_beta specDel_def Del_card [OF assms] dom_view)
qed

lemma refines_Expire [refinements]:
  assumes "wf_store s" and "now + ttl \<noteq> zeroTime"
  shows "refines now (Ret (map_prod id ABool (Expire now key ttl s))) (specExpire now key ttl (view now s))"
proof -
  have ok: "keyOk s key" using assms(1) by (rule wf_store_key)
  have "view now (fst (Expire now key ttl s)) = (view now s)(key := seen now (entry (fst (Expire now key ttl s)) key))"
    by (rule view_at) (rule same_at_Expire)
  also have "\<dots> = fst (specExpire now key ttl (view now s))"
    by (cases "live now s key")
      (auto simp: Expire_entry [OF ok assms(2)] specExpire_def view_live fun_eq_iff view_def live_def seen_def
        split: option.splits if_splits)
  finally show ?thesis using wf_store_Expire [OF assms, of key]
    by (intro refinesI)
      (auto simp: map_prod_def case_prod_beta specExpire_def Expire_result [OF ok] view_live split: option.split)
qed

lemma refines_TTL [refinements]:
  assumes "wf_store s"
  shows "refines now (Ret (s, AInt (TTL now key s))) (specTTL now key (view now s))"
proof (rule refinesI [OF refl assms])
  have "TTL now key s = (case view now s key of None \<Rightarrow> -2 * Second | Some (_, None) \<Rightarrow> -1 * Second
      | Some (_, Some t) \<Rightarrow> timeUntil now t)"
    using wf_store_key [OF assms, of key]
    by (cases rule: key_cases [where now = now])
      (auto simp: TTL_def view_def seen_def expired_dlOf dlOf_def dead_def expired_def split: option.splits if_splits)
  then show "specTTL now key (view now s) = (view now s, AInt (TTL now key s))" by (simp add: specTTL_def)
qed

lemma refines_Persist [refinements]:
  assumes "wf_store s"
  shows "refines now (Ret (map_prod id ABool (Persist now key s))) (specPersist key (view now s))"
proof -
  have ok: "keyOk s key" using assms by (rule wf_store_key)
  have "view now (fst (Persist now key s)) = (view now s)(key := seen now (entry (fst (Persist now key s)) key))"
    by (rule view_at) (rule same_at_Persist)
  also have "\<dots> = fst (specPersist key (view now s))"
    by (cases "live now s key")
      (auto simp: Persist_entry [OF ok] specPersist_def view_live fun_eq_iff view_def live_def seen_def
        split: option.splits if_splits)
  finally show ?thesis using wf_store_Persist [OF assms, of now key]
    by (intro refinesI)
      (auto simp: map_prod_def case_prod_beta specPersist_def Persist_result [OF ok] view_live split: option.split)
qed

lemma refines_Rename [refinements]:
  assumes "wf_store s" and "src \<noteq> dst"
  shows "refines now (map_go (map_prod id ABool) (Rename now src dst s)) (specRename src dst (view now s))"
proof (cases "live now s src")
  case None
  then show ?thesis using assms by (intro refinesI) (auto simp: Rename_missing specRename_def view_live)
next
  case (Some p)
  obtain ob dl where p: "live now s src = Some (ob, dl)" using Some by (cases p) auto
  then have alive: "\<not> dead now dl" by (auto simp: live_def split: option.splits if_splits)
  obtain t where t: "Rename now src dst s = Ret (t, True)" "wf_store t"
    "entry t = (entry s)(dst \<mapsto> (ob, dl), src := None)"
    using Rename_entry [OF assms p] by blast
  have "view now t = (view now s)(src := None, dst \<mapsto> (vOf ob, dl))"
    using t(3) alive assms(2) by (auto simp: fun_eq_iff view_def)
  then show ?thesis using t p by (intro refinesI) (auto simp: specRename_def view_live)
qed

lemma refines_Keys [refinements]:
  assumes "wf_store s"
  shows "refines now (Ret (s, ABag (mset (Keys now pattern s)))) (specKeys pattern (view now s))"
proof (rule refinesI [OF refl assms])
  have "set (Keys now pattern s) = {k \<in> dom (view now s). Match pattern k}"
    by (auto simp: Keys_iff [OF assms] dom_view)
  then show "specKeys pattern (view now s) = (view now s, ABag (mset (Keys now pattern s)))"
    using mset_set_set [OF Keys_distinct [OF assms, of now pattern]] by (simp add: specKeys_def)
qed

definition noneDue :: "gotime \<Rightarrow> MemoryStore \<Rightarrow> bool" where
  "noneDue now s = list_all (\<lambda>(k, e). expiresAt e \<noteq> now) (strings s)"

lemma refines_Len [refinements]:
  assumes "wf_store s" and "noneDue now s"
  shows "refines now (Ret (s, AInt (Len now s))) (specLen (view now s))"
proof (rule refinesI [OF refl assms(1)])
  have due: "expiresAt e \<noteq> now" if "map_of (strings s) k = Some e" for k e
    using assms(2) map_of_SomeD [OF that] by (auto simp: noneDue_def list_all_iff)
  have "listed now s k \<longleftrightarrow> live now s k \<noteq> None" for k
    using wf_store_key [OF assms(1), of k]
    by (cases rule: key_cases [where now = now])
      (auto simp: listed_def live_def dlOf_def dest: due split: option.splits obj.splits)
  then have "set (allKeys now s) = dom (view now s)" by (auto simp: allKeys_iff [OF assms(1)] dom_view)
  then show "specLen (view now s) = (view now s, AInt (Len now s))"
    using distinct_card [OF allKeys_distinct [OF assms(1), of now]] by (simp add: specLen_def Len_allKeys)
qed

lemma refines_deleteExpired [refinements]:
  "wf_store s \<Longrightarrow> refines now (Ret (deleteExpired now s, AUnit)) (view now s, AUnit)"
  by (rule refinesI [OF refl]) (simp_all add: wf_store_deleteExpired fun_eq_iff view_live live_deleteExpired)

section \<open>Hashes\<close>

lemma fieldsOf_view:
  "wf_store s \<Longrightarrow> fieldsOf (view now s) key = (case hashOf now key s of None \<Rightarrow> Map.empty | Some h \<Rightarrow> map_of h)"
  using wf_store_key [of s key]
  by (auto simp: fieldsOf_def view_live hashOf_live split: option.split obj.split)

lemma hashOf_wf: "wf_store s \<Longrightarrow> hashOf now key s = Some h \<Longrightarrow> wf_map h \<and> h \<noteq> []"
  using wf_hash hashOf_stored by blast

lemma mset_mkeys: "wf_map m \<Longrightarrow> mset (mkeys m) = mset_set (dom (map_of m))"
  using mset_set_set [OF wf_map_distinct, of m] by (simp only: set_mkeys)

lemma mset_values: "wf_map m \<Longrightarrow> mset (map snd m) = image_mset (\<lambda>k. the (map_of m k)) (mset_set (dom (map_of m)))"
  unfolding mset_mkeys [symmetric]
  by (auto simp: wf_map_in_set comp_def simp flip: mset_map intro!: arg_cong [of _ _ mset])

lemma refines_hash_reads [refinements]:
  assumes "wf_store s"
  shows "refines now (Ret (s, AStr (HGet now key field s))) (specHGet key field (view now s))"
    and "refines now (Ret (s, AFields (set (HGetAll now key s)))) (specHGetAll key (view now s))"
    and "refines now (Ret (s, AInt (HLen now key s))) (specHLen key (view now s))"
    and "refines now (Ret (s, ABool (HExists now key field s))) (specHExists key field (view now s))"
    and "refines now (Ret (s, ABag (mset (HKeys now key s)))) (specHKeys key (view now s))"
    and "refines now (Ret (s, ABag (mset (HVals now key s)))) (specHVals key (view now s))"
proof -
  note defs = specHGet_def specHGetAll_def specHLen_def specHExists_def specHKeys_def specHVals_def
    HGet_def HGetAll_def HLen_def HExists_def HKeys_def HVals_def fieldsOf_view [OF assms]
  show "refines now (Ret (s, AStr (HGet now key field s))) (specHGet key field (view now s))"
    by (rule refinesI [OF refl assms]) (simp add: defs split: option.split)
  show "refines now (Ret (s, AFields (set (HGetAll now key s)))) (specHGetAll key (view now s))"
    by (rule refinesI [OF refl assms])
      (auto simp: defs wf_map_def graph_map_of_if_distinct_dom dest: hashOf_wf [OF assms] split: option.split)
  show "refines now (Ret (s, AInt (HLen now key s))) (specHLen key (view now s))"
    by (rule refinesI [OF refl assms]) (auto simp: defs wf_map_card dest: hashOf_wf [OF assms] split: option.split)
  show "refines now (Ret (s, ABool (HExists now key field s))) (specHExists key field (view now s))"
    by (rule refinesI [OF refl assms]) (simp add: defs split: option.split)
  show "refines now (Ret (s, ABag (mset (HKeys now key s)))) (specHKeys key (view now s))"
    by (rule refinesI [OF refl assms])
      (auto simp: defs mset_mkeys simp del: mset_map dest: hashOf_wf [OF assms] split: option.split)
  show "refines now (Ret (s, ABag (mset (HVals now key s)))) (specHVals key (view now s))"
    by (rule refinesI [OF refl assms])
      (auto simp: defs Let_def mset_values simp del: mset_map dest: hashOf_wf [OF assms] split: option.split)
qed

lemma refines_HDel [refinements]:
  assumes "wf_store s"
  shows "refines now (Ret (map_prod id AInt (HDel now key flds s))) (specHDel key flds (view now s))"
proof (cases "hashOf now key s")
  case None
  then have "specHDel key flds (view now s) = (view now s, AInt 0)"
    using wf_store_key [OF assms, of key]
    by (auto simp: specHDel_def view_live hashOf_live split: option.splits obj.splits)
  then show ?thesis using None assms by (intro refinesI) (auto simp: HDel_missing)
next
  case (Some h)
  let ?h = "fst (removeKeys flds h)"
  note h = HDel_entry [OF assms Some, of flds]
  have live: "view now s key = Some (VHash (map_of h), deadline s key)" "\<not> dead now (deadline s key)"
    using Some wf_store_key [OF assms, of key]
    by (auto simp: view_live hashOf_live live_def deadline_def split: option.splits obj.splits if_splits)
  have h': "map_of ?h = map_of h |` (- set flds)" by (auto simp: fun_eq_iff map_of_removeKeys restrict_map_def)
  have "view now (fst (HDel now key flds s)) = keep key (VHash (map_of ?h)) (deadline s key) (view now s)"
    unfolding view_upd [OF h(2)] keep_def using live(2) map_of_Nil_iff [of ?h] by (simp del: map_of_eq_empty_iff)
  then have "specHDel key flds (view now s) = (view now (fst (HDel now key flds s)), AInt (snd (HDel now key flds s)))"
    by (simp add: specHDel_def live(1) h(3) flip: h')
  then show ?thesis using h(1) by (intro refines_pairI) simp_all
qed

lemma refines_HSet [refinements]:
  assumes wf: "wf_store s" and st: "settled now s key" and ty: "typeOf now key s \<in> {NoKey, TString, THash}"
    and fl: "wf_map flds" "flds \<noteq> []"
  shows "refines now (Ret (map_prod id AInt (HSet key flds s))) (specHSet key flds (view now s))"
proof -
  have fit: "fits s key THash \<or> fits s key TString" using ty by (auto simp: settled_fits [OF wf st])
  obtain h where h: "wf_store (fst (HSet key flds s))" "map_of h = fieldsAt s key ++ map_of flds"
    "entry (fst (HSet key flds s)) = (entry s)(key \<mapsto> (OHash h, if fits s key THash then deadline s key else None))"
    by (rule HSet_entry [OF wf fit fl])
  have ent: "entry s key = live now s key" using st by (rule settled_entry)
  then have flds: "fieldsAt s key = fieldsOf (view now s) key"
    using wf_store_key [OF wf, of key]
    by (auto simp: fieldsAt_entry [OF wf] fieldsOf_def view_live split: option.splits obj.splits)
  have dl: "(if fits s key THash then deadline s key else None) =
      (case view now s key of Some (VHash _, dl) \<Rightarrow> dl | _ \<Rightarrow> None)" (is "?dl = _")
  proof (cases "entry s key")
    case (Some p)
    obtain ob d where "p = (ob, d)" by (cases p)
    then show ?thesis using Some ent ty
      by (cases ob) (simp_all add: fits_def deadline_def view_live typeOf_live wf_store_key [OF wf])
  qed (use ent in \<open>simp add: fits_def deadline_def view_live\<close>)
  have "\<not> dead now ?dl" unfolding dl by (auto dest: view_alive split: option.split val.split)
  then have "view now (fst (HSet key flds s)) = (view now s)(key \<mapsto> (VHash (map_of h), ?dl))"
    unfolding view_upd [OF h(3)] by simp
  then have "specHSet key flds (view now s) = (view now (fst (HSet key flds s)), AInt (snd (HSet key flds s)))"
    by (simp only: specHSet_def Let_def HSet_count [OF wf fl(1)] h(2) flds dl)
  then show ?thesis using h(1) by (intro refines_pairI) simp_all
qed

section \<open>Containers\<close>

text \<open>The answer of a method that may fail.\<close>

definition orErr :: "('a \<Rightarrow> Answer) \<Rightarrow> error + 'a \<Rightarrow> Answer" where
  "orErr f r = (case r of Inl e \<Rightarrow> AErr e | Inr x \<Rightarrow> f x)"

lemma orErr_simps [simp]: "orErr f (Inl e) = AErr e" "orErr f (Inr x) = f x"
  by (simp_all add: orErr_def)

lemma orErr_map_sum [simp]: "orErr f (map_sum id g r) = orErr (\<lambda>x. f (g x)) r"
  by (cases r) simp_all

text \<open>
  What the list, set and sorted-set methods rely on: a container of type \<open>ty\<close> that is read from its map by
  \<open>look\<close> and written back by \<open>store\<close>, and stands for an abstract value.
\<close>

locale container_type =
  fixes ty :: tag
    and get :: "val \<Rightarrow> 'a option"
    and put :: "'a \<Rightarrow> val"
    and none :: 'a
    and look :: "string \<Rightarrow> MemoryStore \<Rightarrow> 'c"
    and absOf :: "'c \<Rightarrow> 'a"
    and ok :: "'c \<Rightarrow> bool"
    and store :: "string \<Rightarrow> 'c \<Rightarrow> MemoryStore \<Rightarrow> MemoryStore"
  assumes ty: "ty \<noteq> NoKey"
    and get_other: "vTag v \<noteq> ty \<Longrightarrow> get v = None"
    and get_put: "get (put a) = Some a"
    and empty_none: "emptyVal (put none)"
    and look_view: "wf_store s \<Longrightarrow> typeOf now key s = ty \<Longrightarrow> view now s key = Some (put (absOf (look key s)), deadline s key)"
    and store_wf: "wf_store s \<Longrightarrow> fits s key ty \<Longrightarrow> ok c \<Longrightarrow> wf_store (store key c s)"
    and store_view: "wf_store s \<Longrightarrow> fits s key ty \<Longrightarrow> ok c \<Longrightarrow> \<not> dead now (deadline s key) \<Longrightarrow>
      view now (store key c s) = keep key (put (absOf c)) (deadline s key) (view now s)"
begin

lemma view_other:
  assumes "wf_store s" and "typeOf now key s \<noteq> NoKey" and "typeOf now key s \<noteq> ty"
  obtains v dl where "view now s key = Some (v, dl)" "get v = None"
  using assms view_typeOf [OF assms(1), of now key] get_other by (auto split: option.splits)

lemma view_wrong:
  assumes "wf_store s"
  shows "misTyped get key (view now s) \<longleftrightarrow> typeOf now key s \<noteq> NoKey \<and> typeOf now key s \<noteq> ty"
proof (cases "typeOf now key s \<noteq> NoKey \<and> typeOf now key s \<noteq> ty")
  case True
  then obtain v dl where "view now s key = Some (v, dl)" "get v = None" by (blast intro: view_other [OF assms, of now key])
  then show ?thesis using True by (simp add: misTyped_def)
next
  case False
  then show ?thesis using look_view [OF assms, of now key] view_None [OF assms, of now key]
    by (auto simp: misTyped_def get_put)
qed

lemma read_as:
  assumes "wf_store s"
  shows "readAs get none key f (view now s) =
    (view now s, if typeOf now key s = NoKey then f none
                 else if typeOf now key s = ty then f (absOf (look key s)) else AErr ErrWrongType)"
proof (cases "typeOf now key s = NoKey \<or> typeOf now key s = ty")
  case True
  then show ?thesis using look_view [OF assms, of now key] view_None [OF assms, of now key] ty
    by (auto simp: readAs_def get_put)
next
  case False
  then show ?thesis by (auto simp: readAs_def intro: view_other [OF assms, of now key])
qed

lemma write_missing:
  assumes wf: "wf_store s" and "typeOf now key s = NoKey" and st: "settled now s key" and "ok c" and "absOf c = fst (f none)"
  shows "refines now (Ret (bumpVersion key (store key c s), snd (f none))) (writeAs get put none key f (view now s))"
proof -
  have m: "deadline s key = None" "fits s key ty" "view now s key = None"
    using settled_missing [OF st wf assms(2)] assms(2) view_None [OF wf, of now key] by (auto simp: fits_def)
  then show ?thesis using store_wf [OF wf m(2) assms(4)] store_view [OF wf m(2) assms(4), of now] assms(5)
    by (intro refinesI [OF refl]) (auto simp: writeAs_def case_prod_beta)
qed

lemma write_there:
  assumes wf: "wf_store s" and type: "typeOf now key s = ty" and "ok c" and "absOf c = fst (f (absOf (look key s)))"
  shows "refines now (Ret (bumpVersion key (store key c s), snd (f (absOf (look key s))))) (writeAs get put none key f (view now s))"
proof -
  have fit: "fits s key ty" using typeOf_fits [OF wf type] ty by simp
  note v = look_view [OF wf type]
  then have "\<not> dead now (deadline s key)" by (rule view_alive)
  then show ?thesis using v store_wf [OF wf fit assms(3)] store_view [OF wf fit assms(3), of now] assms(4)
    by (intro refinesI [OF refl]) (auto simp: writeAs_def case_prod_beta get_put)
qed

text \<open>The cases in which a method leaves the store as it is.\<close>

lemma write_nothing:
  assumes wf: "wf_store s"
    and "typeOf now key s = NoKey \<Longrightarrow> f none = (none, a)"
    and "typeOf now key s = ty \<Longrightarrow> f (absOf (look key s)) = (absOf (look key s), a) \<and> \<not> emptyVal (put (absOf (look key s)))"
    and "typeOf now key s \<noteq> NoKey \<Longrightarrow> typeOf now key s \<noteq> ty \<Longrightarrow> a = AErr ErrWrongType"
  shows "refines now (Ret (s, a)) (writeAs get put none key f (view now s))"
proof -
  have "writeAs get put none key f (view now s) = (view now s, a)"
  proof (cases "typeOf now key s = NoKey \<or> typeOf now key s = ty")
    case True
    then show ?thesis using assms(2,3) look_view [OF wf, of now key] view_None [OF wf, of now key] ty
      by (auto simp: writeAs_def get_put keep_same keep_missing empty_none)
  next
    case False
    then show ?thesis using assms(4) by (auto simp: writeAs_def intro: view_other [OF wf, of now key])
  qed
  then show ?thesis using wf by (auto intro: refinesI)
qed

lemma write_as:
  assumes wf: "wf_store s"
    and wrong: "typeOf now key s \<noteq> NoKey \<Longrightarrow> typeOf now key s \<noteq> ty \<Longrightarrow> r = Ret (s, AErr ErrWrongType)"
    and missing: "typeOf now key s = NoKey \<Longrightarrow> r = Ret (s, snd (f none)) \<and> fst (f none) = none \<or>
      settled now s key \<and> (\<exists>c. ok c \<and> absOf c = fst (f none) \<and> r = Ret (bumpVersion key (store key c s), snd (f none)))"
    and there: "\<And>a. a = absOf (look key s) \<Longrightarrow> typeOf now key s = ty \<Longrightarrow>
      r = Ret (s, snd (f a)) \<and> fst (f a) = a \<and> \<not> emptyVal (put a) \<or>
      (\<exists>c. ok c \<and> absOf c = fst (f a) \<and> r = Ret (bumpVersion key (store key c s), snd (f a)))"
  shows "refines now r (writeAs get put none key f (view now s))"
proof -
  consider (none) "typeOf now key s = NoKey" | (type) "typeOf now key s = ty"
    | (other) "typeOf now key s \<noteq> NoKey" "typeOf now key s \<noteq> ty" by blast
  then show ?thesis
  proof cases
    case none
    with missing [OF none] write_missing [OF wf none] write_nothing [OF wf, of now key f "snd (f none)"] ty
    show ?thesis by (auto simp: prod_eq_iff)
  next
    case type
    with there [OF refl type] write_there [OF wf type] write_nothing [OF wf, of now key f "snd (f (absOf (look key s)))"] ty
    show ?thesis by (auto simp: prod_eq_iff)
  next
    case other
    then show ?thesis using wrong write_nothing [OF wf, of now key f "AErr ErrWrongType"] by simp
  qed
qed

lemma write_with:
  assumes "wf_store s" and "ok new"
    and "typeOf now key s \<noteq> NoKey \<Longrightarrow> typeOf now key s \<noteq> ty \<Longrightarrow> r = Ret (s, AErr ErrWrongType)"
    and "typeOf now key s = NoKey \<Longrightarrow> r = Ret (s, snd (f none)) \<and> fst (f none) = none \<or>
      settled now s key \<and> absOf new = fst (f none) \<and> r = Ret (bumpVersion key (store key new s), snd (f none))"
    and "typeOf now key s = ty \<Longrightarrow> absOf new = fst (f (absOf (look key s))) \<and>
      r = Ret (bumpVersion key (store key new s), snd (f (absOf (look key s))))"
  shows "refines now r (writeAs get put none key f (view now s))"
  by (rule write_as) (use assms in blast)+

end

section \<open>Lists\<close>

interpretation lst: container_type TList asList VList "[]" listAt id "\<lambda>_. True" storeList
proof unfold_locales
  fix s key now and l :: "string list"
  show "asList v = None" if "vTag v \<noteq> TList" for v using that by (cases v) simp_all
  assume wf: "wf_store s"
  show "view now s key = Some (VList (id (listAt key s)), deadline s key)" if "typeOf now key s = TList"
    using view_deadline [OF typeOf_listAt [OF wf that]] that wf by simp
  assume fit: "fits s key TList"
  show "wf_store (storeList key l s)" by (rule storeList_entry(1) [OF wf fit])
  show "view now (storeList key l s) = keep key (VList (id l)) (deadline s key) (view now s)" if "\<not> dead now (deadline s key)"
    using that by (simp add: view_upd [OF storeList_entry(2) [OF wf fit]] keep_def)
qed simp_all

lemma refines_list_reads [refinements]:
  assumes "wf_store s"
  shows "refines now (Ret (s, orErr AInt (LLen now key s))) (specLLen key (view now s))"
    and "refines now (Ret (s, orErr AStrs (LRange now key start stop s))) (specLRange key start stop (view now s))"
    and "refines now (Ret (s, orErr AStr (LIndex now key index s))) (specLIndex key index (view now s))"
  by (intro refinesI [OF refl assms];
      simp add: specLLen_def specLRange_def specLIndex_def lst.read_as [OF assms] LLen_def LRange_rangeOf LIndex_def
        getList_typeOf [OF assms] normaliseIndex_eq fromEnd_def Let_def)+

lemma listAt_missing: "wf_store s \<Longrightarrow> settled now s key \<Longrightarrow> typeOf now key s = NoKey \<Longrightarrow> listAt key s = []"
  using settled_missing [of now s key] listAt_entry [OF wf_store_key, of s key] by simp

lemma refines_LPush [refinements]:
  assumes "wf_store s" and "settled now s key" and "vals \<noteq> []"
  shows "refines now (Ret (map_prod id (orErr AInt) (LPush now key vals s))) (specLPush key vals (view now s))"
  unfolding specLPush_def LPush_eq [OF assms(3)]
  by (rule lst.write_as) (use assms in \<open>simp_all add: listAt_missing\<close>)

lemma refines_RPush [refinements]:
  assumes "wf_store s" and "settled now s key" and "vals \<noteq> []"
  shows "refines now (Ret (map_prod id (orErr AInt) (RPush now key vals s))) (specRPush key vals (view now s))"
  unfolding specRPush_def RPush_eq [OF assms(3)]
  by (rule lst.write_as) (use assms in \<open>simp_all add: listAt_missing\<close>)

lemma refines_LPop [refinements]:
  assumes "wf_store s" and "0 \<le> cnt"
  shows "refines now (map_go (map_prod id (orErr APopped)) (LPop now key cnt s)) (specLPop key cnt (view now s))"
  unfolding specLPop_def LPop_eq [OF assms]
  by (rule lst.write_as) (use assms listAt_ne [OF assms(1), of now key] in simp_all)

lemma refines_RPop [refinements]:
  assumes "wf_store s" and "0 \<le> cnt"
  shows "refines now (map_go (map_prod id (orErr APopped)) (RPop now key cnt s)) (specRPop key cnt (view now s))"
  unfolding specRPop_def RPop_eq [OF assms]
  by (rule lst.write_as) (use assms listAt_ne [OF assms(1), of now key] in simp_all)

lemma refines_LSet [refinements]:
  assumes "wf_store s"
  shows "refines now (Ret (map_prod id (orErr (\<lambda>_. AUnit)) (LSet now key index v s))) (specLSet key index v (view now s))"
  unfolding specLSet_def LSet_eq [OF assms]
  by (rule lst.write_as) (use assms listAt_ne [OF assms, of now key] in \<open>auto simp: Let_def\<close>)

lemma LInsert_cases:
  assumes "wf_store s"
  shows "LInsert now key before pivot v s =
    (if typeOf now key s = NoKey then (s, Inr 0)
     else if typeOf now key s \<noteq> TList then (s, Inl ErrWrongType)
     else
       let l = listAt key s; xs = takeWhile (\<lambda>x. x \<noteq> pivot) l; ys = drop (Suc (length xs)) l;
           l' = (if before then xs @ v # pivot # ys else xs @ pivot # v # ys)
       in if pivot \<notin> set l then (s, Inr (-1))
          else (bumpVersion key (storeList key l' s), Inr (int (length l'))))"
proof (cases "typeOf now key s = TList \<and> pivot \<in> set (listAt key s)")
  case True
  then obtain xs ys where l: "listAt key s = xs @ pivot # ys" "pivot \<notin> set xs" using split_list_first by metis
  then have "takeWhile (\<lambda>x. x \<noteq> pivot) (listAt key s) = xs" by (auto simp: takeWhile_append)
  then show ?thesis using True by (simp add: LInsert_eq [OF assms _ l] l(1) Let_def)
qed (auto simp: LInsert_def findPivot_eq)

lemma refines_LInsert [refinements]:
  assumes "wf_store s"
  shows "refines now (Ret (map_prod id (orErr AInt) (LInsert now key before pivot v s)))
    (specLInsert key before pivot v (view now s))"
  unfolding specLInsert_def LInsert_cases [OF assms]
  by (rule lst.write_as) (use assms listAt_ne [OF assms, of now key] in \<open>auto simp: Let_def\<close>)

lemma refines_LRem [refinements]:
  assumes "wf_store s" and "in64 cnt" "cnt \<noteq> minInt64"
  shows "refines now (Ret (map_prod id (orErr AInt) (LRem now key cnt v s))) (specLRem key cnt v (view now s))"
proof -
  have "lremSpec cnt v l = l" "count_list l v = 0" if "v \<notin> set l" for l :: "string list"
    using that by (auto simp: lremSpec_def removeFirst_all count_list_0_iff rev_filter filter_id_conv)
  then show ?thesis
    unfolding specLRem_def LRem_eq [OF assms]
    by (intro lst.write_as) (use assms listAt_ne [OF assms(1), of now key] in \<open>auto simp: Let_def lremSpec_def\<close>)
qed

lemma rangeOf_Nil [simp]: "rangeOf start stop [] = []"
  by (simp add: rangeOf_def)

lemma refines_LTrim [refinements]:
  assumes "wf_store s"
  shows "refines now (Ret (map_prod id (orErr (\<lambda>_. AUnit)) (LTrim now key start stop s))) (specLTrim key start stop (view now s))"
  unfolding specLTrim_def LTrim_eq [OF assms] by (rule lst.write_as) (use assms in simp_all)

text \<open>The second half of a move, on any store: put \<open>x\<close> at one end of the list.\<close>

lemma refines_pushOne:
  assumes "wf_store s" and "settled now s dst" and "typeOf now dst s \<in> {NoKey, TList}"
  shows "refines now (Ret (bumpVersion dst (storeList dst (if left then x # listAt dst s else listAt dst s @ [x]) s), AUnit))
    (writeAs asList VList [] dst (\<lambda>l. (if left then x # l else l @ [x], AUnit)) (view now s))"
  by (rule lst.write_as) (use assms in \<open>auto simp: listAt_missing\<close>)

text \<open>The first half: what is left in the source, and that the destination is still fit for the second.\<close>

lemma storeList_first:
  assumes wf: "wf_store s" and src: "typeOf now src s = TList" and st: "settled now s dst"
    and dst: "typeOf now dst s \<in> {NoKey, TList}"
  shows "wf_store (storeList src rest s)"
    and "view now (storeList src rest s) = keep src (VList rest) (deadline s src) (view now s)"
    and "settled now (storeList src rest s) dst" and "typeOf now dst (storeList src rest s) \<in> {NoKey, TList}"
proof -
  have fit: "fits s src TList" using typeOf_fits [OF wf src] by simp
  have alive: "\<not> dead now (deadline s src)" using lst.look_view [OF wf src] by (rule view_alive)
  show s1: "wf_store (storeList src rest s)"
    and v: "view now (storeList src rest s) = keep src (VList rest) (deadline s src) (view now s)"
    using lst.store_wf [OF wf fit] lst.store_view [OF wf fit _ alive] by simp_all
  show "settled now (storeList src rest s) dst"
    using st alive storeList_entry(2) [OF wf fit, of rest] by (auto simp: settled_def live_def)
  show "typeOf now dst (storeList src rest s) \<in> {NoKey, TList}"
    using dst v view_typeOf [OF wf, of now dst] by (auto simp: view_typeOf [OF s1] keep_def)
qed

lemma refines_LMove [refinements]:
  assumes wf: "wf_store s" and st: "settled now s src" "settled now s dst"
  shows "refines now (Ret (map_prod id (orErr AStr) (LMove now src dst srcLeft dstLeft s)))
    (specLMove src dst srcLeft dstLeft (view now s))"
proof (cases "typeOf now src s = TList \<and> typeOf now dst s \<in> {NoKey, TList}")
  case False
  then have eq: "LMove now src dst srcLeft dstLeft s =
      (s, if typeOf now src s \<notin> {NoKey, TList} \<or> typeOf now dst s \<notin> {NoKey, TList} then Inl ErrWrongType else Inr None)"
    using listAt_missing [OF wf st(1)] by (auto simp: LMove_def)
  have "typeOf now src s = NoKey \<Longrightarrow> view now s src = None" using view_None [OF wf] by simp
  then show ?thesis unfolding eq using False wf
    by (intro refinesI) (auto simp: specLMove_def lst.view_wrong [OF wf])
next
  case True
  then have src: "typeOf now src s = TList" and dst: "typeOf now dst s \<in> {NoKey, TList}" by blast+
  let ?l = "listAt src s"
  let ?x = "if srcLeft then hd ?l else last ?l" and ?rest = "if srcLeft then tl ?l else butlast ?l"
  let ?s1 = "storeList src ?rest s" and ?f = "\<lambda>x l. (if dstLeft then x # l else l @ [x], AUnit)"
  let ?s2 = "storeList dst (if dstLeft then ?x # listAt dst ?s1 else listAt dst ?s1 @ [?x]) ?s1"
  note s1 = storeList_first [OF wf src st(2) dst, of ?rest]
  have s2: "fst (writeAs asList VList [] dst (?f ?x) (view now ?s1)) = view now ?s2"
    using refines_pushOne [OF s1(1,3,4), of dstLeft ?x] by (auto simp: refines_def)
  have eq: "LMove now src dst srcLeft dstLeft s = (bumpVersion dst (bumpVersion src ?s2), Inr (Some ?x))"
    using LMove_eq [OF listAt_ne [OF wf src], of now dst srcLeft dstLeft] True by (simp add: Let_def)
  have "specLMove src dst srcLeft dstLeft (view now s) = (view now ?s2, AStr (Some ?x))"
    using s2 True lst.look_view [OF wf src]
    by (simp only: specLMove_def lst.view_wrong [OF wf] s1(2)) (simp add: Let_def)
  then show ?thesis using wf_store_LMove [OF wf st, of srcLeft dstLeft]
    by (intro refines_pairI) (simp_all only: eq fst_conv snd_conv view_bumpVersion orErr_simps)
qed

section \<open>Sets\<close>

lemma view_storeSet:
  assumes "wf_store s" and "fits s key TSet" and "wf_map st" and "\<not> dead now (deadline s key)"
  shows "view now (storeSet key st s) = keep key (VSet (dom (map_of st))) (deadline s key) (view now s)"
  using assms(4) map_of_Nil_iff [of st]
  by (simp add: view_upd [OF storeSet_entry(2) [OF assms(1-3)]] keep_def del: map_of_eq_empty_iff)

interpretation sts: container_type TSet asSet VSet "{}" setAt "\<lambda>st. dom (map_of st)" wf_map storeSet
proof unfold_locales
  fix s key now and st :: goset
  show "asSet v = None" if "vTag v \<noteq> TSet" for v using that by (cases v) simp_all
  assume wf: "wf_store s"
  show "view now s key = Some (VSet (dom (map_of (setAt key s))), deadline s key)" if "typeOf now key s = TSet"
    using view_deadline [of s key _ now] typeOf_setAt [OF wf that] that wf by fastforce
qed (simp_all add: storeSet_entry view_storeSet)

lemma refines_set_reads [refinements]:
  assumes "wf_store s"
  shows "refines now (Ret (s, orErr (\<lambda>ms. ABag (mset ms)) (SMembers now key s))) (specSMembers key (view now s))"
    and "refines now (Ret (s, orErr AInt (SCard now key s))) (specSCard key (view now s))"
    and "refines now (Ret (s, orErr ABool (SIsMember now key member s))) (specSIsMember key member (view now s))"
    and "refines now (Ret (s, orErr AInts (SMIsMember now key ms s))) (specSMIsMember key ms (view now s))"
  by (intro refinesI [OF refl assms];
      use setAt_wf [OF assms, of key] in \<open>auto simp: specSMembers_def specSCard_def specSIsMember_def specSMIsMember_def
        sts.read_as [OF assms] SMembers_def SCard_def SIsMember_def SMIsMember_def getSet_eq mset_mkeys wf_map_card
        simp del: mset_map\<close>)+

lemma addMembers_card:
  assumes "wf_map st"
  shows "snd (addMembers ms st) = int (card (set ms - dom (map_of st)))"
proof -
  let ?new = "fst (addMembers ms st)"
  have "int (length ?new) = int (card (dom (map_of st) \<union> set ms))" "int (length st) = int (card (dom (map_of st)))"
    using wf_map_card [OF addMembers_spec(2) [OF assms]] wf_map_card [OF assms] by (simp_all add: addMembers_spec(1))
  moreover have "card (dom (map_of st) \<union> set ms) = card (dom (map_of st)) + card (set ms - dom (map_of st))"
    using card_Un_disjoint [of "dom (map_of st)" "set ms - dom (map_of st)"] by (simp add: finite_dom_map_of)
  ultimately show ?thesis using addMembers_spec(4) [of ms st] by linarith
qed

lemma removeKeys_card:
  assumes "wf_map m"
  shows "snd (removeKeys ks m) = int (card (dom (map_of m) \<inter> set ks))"
proof -
  let ?new = "fst (removeKeys ks m)"
  have dom: "dom (map_of ?new) = dom (map_of m) - set ks" by (auto simp: map_of_removeKeys split: if_splits)
  have "card (dom (map_of m)) = card (dom (map_of m) - set ks) + card (dom (map_of m) \<inter> set ks)"
    using card_Int_Diff [of "dom (map_of m)" "set ks"] by (simp add: finite_dom_map_of)
  then show ?thesis using removeKeys_count [OF assms, of ks] wf_map_card [OF assms] wf_map_card [of ?new] dom assms by simp
qed

lemma dom_removeKeys: "dom (map_of (fst (removeKeys ks m))) = dom (map_of m) - set ks"
  by (auto simp: map_of_removeKeys split: if_splits)

lemma setAt_missing: "wf_store s \<Longrightarrow> settled now s key \<Longrightarrow> typeOf now key s = NoKey \<Longrightarrow> setAt key s = []"
  using settled_missing [of now s key] fits_maps(4) [OF wf_store_key, of s key NoKey] by (simp add: fits_def setAt_def)

lemma refines_SAdd [refinements]:
  assumes "wf_store s" and "settled now s key" and "ms \<noteq> []"
  shows "refines now (Ret (map_prod id (orErr AInt) (SAdd now key ms s))) (specSAdd key ms (view now s))"
  unfolding specSAdd_def SAdd_eq [OF assms(3)] setLike_def
  by (rule sts.write_with [where new = "fst (addMembers ms (setAt key s))"])
    (use assms setAt_wf [OF assms(1)] in \<open>simp_all add: setAt_missing addMembers_spec(1,2) addMembers_card\<close>)

lemma refines_SRem [refinements]:
  assumes "wf_store s"
  shows "refines now (Ret (map_prod id (orErr AInt) (SRem now key ms s))) (specSRem key ms (view now s))"
  unfolding specSRem_def SRem_def getSet_eq
  by (rule sts.write_with [where new = "fst (removeKeys ms (setAt key s))"])
    (use assms typeOf_setAt [OF assms, of now key] setAt_wf [OF assms, of key] in
      \<open>simp_all add: case_prod_beta Let_def dom_removeKeys removeKeys_card\<close>)

text \<open>Set algebra.  The contract has no answer for a key of another type, so the keys hold sets or nothing.\<close>

lemma membersOf_view: "wf_store s \<Longrightarrow> membersOf (view now s) k = members now s k"
  using wf_store_key [of s k] by (auto simp: membersOf_def members_live view_live split: option.split obj.split)

lemma setInter_view:
  assumes "wf_store s" and "\<forall>k \<in> set keys. setLike now s k" and "keys \<noteq> []"
  obtains r where "setInter now keys s = Inr r" "distinct r" "set r = interOf keys (view now s)"
  using setInter_spec [OF assms] by (auto simp: interOf_def membersOf_view [OF assms(1)])

lemma setUnion_view:
  assumes "wf_store s" and "\<forall>k \<in> set keys. setLike now s k"
  obtains r where "setUnion now keys s = Inr r" "distinct r" "set r = unionOf keys (view now s)"
  using setUnion_spec [OF assms(2)] by (auto simp: unionOf_def membersOf_view [OF assms(1)])

lemma setDiff_view:
  assumes "wf_store s" and "\<forall>k \<in> set keys. setLike now s k" and "keys \<noteq> []"
  obtains r where "setDiff now keys s = Inr r" "distinct r" "set r = diffOf keys (view now s)"
proof -
  obtain key ks where keys: "keys = key # ks" using assms(3) by (cases keys) auto
  have "\<forall>k \<in> set (key # ks). setLike now s k" using assms(2) keys by simp
  from setDiff_spec [OF assms(1) this] show ?thesis
    using that by (auto simp: diffOf_def membersOf_view [OF assms(1)] keys)
qed

lemma refines_algebra [refinements]:
  assumes "wf_store s" and "\<forall>k \<in> set keys. setLike now s k"
  shows "keys \<noteq> [] \<Longrightarrow> refines now (Ret (s, orErr (\<lambda>ms. ABag (mset ms)) (SInter now keys s))) (specSInter keys (view now s))"
    and "refines now (Ret (s, orErr (\<lambda>ms. ABag (mset ms)) (SUnion now keys s))) (specSUnion keys (view now s))"
    and "keys \<noteq> [] \<Longrightarrow> refines now (Ret (s, orErr (\<lambda>ms. ABag (mset ms)) (SDiff now keys s))) (specSDiff keys (view now s))"
proof -
  have bag: "distinct r \<Longrightarrow> set r = A \<Longrightarrow> mset_set A = mset r" for r :: "string list" and A
    using mset_set_set by blast
  show "keys \<noteq> [] \<Longrightarrow> refines now (Ret (s, orErr (\<lambda>ms. ABag (mset ms)) (SInter now keys s))) (specSInter keys (view now s))"
    by (rule setInter_view [OF assms]) (auto intro!: refinesI assms(1) simp: SInter_def specSInter_def bag)
  show "refines now (Ret (s, orErr (\<lambda>ms. ABag (mset ms)) (SUnion now keys s))) (specSUnion keys (view now s))"
    by (rule setUnion_view [OF assms]) (auto intro!: refinesI assms(1) simp: SUnion_def specSUnion_def bag)
  show "keys \<noteq> [] \<Longrightarrow> refines now (Ret (s, orErr (\<lambda>ms. ABag (mset ms)) (SDiff now keys s))) (specSDiff keys (view now s))"
    by (rule setDiff_view [OF assms]) (auto intro!: refinesI assms(1) simp: SDiff_def specSDiff_def bag)
qed

lemma refines_storeResult:
  assumes "wf_store s" and "distinct r" and "set r = A"
  shows "refines now (Ret (map_prod id (orErr AInt) (storeResult dst (Inr r) s))) (keep dst (VSet A) None (view now s), AInt (int (card A)))"
proof (rule refines_pairI)
  note e = storeResult_entry [OF assms(1), of dst r]
  show "wf_store (fst (storeResult dst (Inr r) s))" by (rule e(1))
  have "snd (storeResult dst (Inr r) s) = Inr (int (length r))" by (simp add: storeResult_def Let_def)
  moreover have "view now (fst (storeResult dst (Inr r) s)) = keep dst (VSet A) None (view now s)"
    using assms(3) by (auto simp: view_upd [OF e(2)] keep_def fold_mput_unit)
  ultimately show "(keep dst (VSet A) None (view now s), AInt (int (card A))) =
      (view now (fst (storeResult dst (Inr r) s)), orErr AInt (snd (storeResult dst (Inr r) s)))"
    using distinct_card [OF assms(2)] assms(3) by simp
qed

lemma refines_algebra_store [refinements]:
  assumes "wf_store s" and "\<forall>k \<in> set keys. setLike now s k"
  shows "keys \<noteq> [] \<Longrightarrow> refines now (Ret (map_prod id (orErr AInt) (SInterStore now dst keys s))) (specSInterStore dst keys (view now s))"
    and "refines now (Ret (map_prod id (orErr AInt) (SUnionStore now dst keys s))) (specSUnionStore dst keys (view now s))"
    and "keys \<noteq> [] \<Longrightarrow> refines now (Ret (map_prod id (orErr AInt) (SDiffStore now dst keys s))) (specSDiffStore dst keys (view now s))"
  unfolding specSInterStore_def SInterStore_def specSUnionStore_def SUnionStore_def specSDiffStore_def SDiffStore_def
  by (rule setInter_view [OF assms], assumption, simp only: refines_storeResult [OF assms(1)],
      rule setUnion_view [OF assms], simp only: refines_storeResult [OF assms(1)],
      rule setDiff_view [OF assms], assumption, simp only: refines_storeResult [OF assms(1)])

lemma refines_insertOne:
  assumes "wf_store s" and "settled now s dst" and "typeOf now dst s \<in> {NoKey, TSet}"
  shows "refines now (Ret (bumpVersion dst (storeSet dst (mput x () (setAt dst s)) s), AUnit))
    (writeAs asSet VSet {} dst (\<lambda>st. (insert x st, AUnit)) (view now s))"
  by (rule sts.write_with [where new = "mput x () (setAt dst s)"])
    (use assms setAt_wf [OF assms(1)] in \<open>auto simp: setAt_missing\<close>)

lemma storeSet_first:
  assumes wf: "wf_store s" and src: "typeOf now src s = TSet" and st: "settled now s dst"
    and dst: "typeOf now dst s \<in> {NoKey, TSet}" and rest: "wf_map rest"
  shows "wf_store (storeSet src rest s)"
    and "view now (storeSet src rest s) = keep src (VSet (dom (map_of rest))) (deadline s src) (view now s)"
    and "settled now (storeSet src rest s) dst" and "typeOf now dst (storeSet src rest s) \<in> {NoKey, TSet}"
proof -
  have fit: "fits s src TSet" using typeOf_fits [OF wf src] by simp
  have alive: "\<not> dead now (deadline s src)" using sts.look_view [OF wf src] by (rule view_alive)
  show s1: "wf_store (storeSet src rest s)"
    and v: "view now (storeSet src rest s) = keep src (VSet (dom (map_of rest))) (deadline s src) (view now s)"
    using sts.store_wf [OF wf fit rest] sts.store_view [OF wf fit rest alive] by simp_all
  show "settled now (storeSet src rest s) dst"
    using st alive storeSet_entry(2) [OF wf fit rest] by (auto simp: settled_def live_def)
  show "typeOf now dst (storeSet src rest s) \<in> {NoKey, TSet}"
    using dst v view_typeOf [OF wf, of now dst] by (auto simp: view_typeOf [OF s1] keep_def)
qed

lemma refines_SMove [refinements]:
  assumes wf: "wf_store s" and st: "settled now s src" "settled now s dst"
  shows "refines now (Ret (map_prod id (orErr ABool) (SMove now src dst x s))) (specSMove src dst x (view now s))"
proof (cases "typeOf now src s = TSet \<and> typeOf now dst s \<in> {NoKey, TSet} \<and> map_of (setAt src s) x \<noteq> None")
  case False
  then have eq: "SMove now src dst x s =
      (s, if typeOf now src s \<notin> {NoKey, TSet} \<or> typeOf now dst s \<notin> {NoKey, TSet} then Inl ErrWrongType else Inr False)"
    using setAt_missing [OF wf st(1)] by (auto simp: SMove_def Let_def simp del: not_None_eq)
  have "typeOf now src s = NoKey \<Longrightarrow> view now s src = None" using view_None [OF wf] by simp
  then show ?thesis unfolding eq using False wf sts.look_view [OF wf, of now src]
    by (intro refinesI) (auto simp: specSMove_def sts.view_wrong [OF wf])
next
  case True
  then have src: "typeOf now src s = TSet" and dst: "typeOf now dst s \<in> {NoKey, TSet}" and x: "map_of (setAt src s) x \<noteq> None" by blast+
  let ?s1 = "storeSet src (mdel x (setAt src s)) s"
  let ?s2 = "storeSet dst (mput x () (setAt dst ?s1)) ?s1"
  have rest: "wf_map (mdel x (setAt src s))" using setAt_wf [OF wf] by simp
  note s1 = storeSet_first [OF wf src st(2) dst rest]
  have s2: "fst (writeAs asSet VSet {} dst (\<lambda>st. (insert x st, AUnit)) (view now ?s1)) = view now ?s2"
    using refines_insertOne [OF s1(1,3,4), of x] by (auto simp: refines_def)
  have eq: "SMove now src dst x s = (bumpVersion dst (bumpVersion src ?s2), Inr True)"
    using SMove_eq [OF _ _ x, of now dst] True by (simp add: Let_def setLike_def)
  have "dom (map_of (mdel x (setAt src s))) = dom (map_of (setAt src s)) - {x}" by auto
  then have "specSMove src dst x (view now s) = (view now ?s2, ABool True)"
    using s2 True sts.look_view [OF wf src]
    by (simp only: specSMove_def sts.view_wrong [OF wf] s1(2)) (simp add: domIff)
  then show ?thesis using wf_store_SMove [OF wf st, of x]
    by (intro refines_pairI) (simp_all only: eq fst_conv snd_conv view_bumpVersion orErr_simps)
qed

section \<open>Sorted sets\<close>

lemma view_storeScores:
  assumes "wf_store s" and "fits s key TZSet" and "wf_map sc" and "\<not> dead now (deadline s key)"
  shows "view now (storeScores key sc s) = keep key (VZSet (map_of sc)) (deadline s key) (view now s)"
  using assms(4) map_of_Nil_iff [of sc]
  by (simp add: view_upd [OF storeScores_entry(2) [OF assms(1-3)]] keep_def del: map_of_eq_empty_iff)

interpretation zss: container_type TZSet asZSet VZSet Map.empty scoresAt map_of wf_map storeScores
proof unfold_locales
  fix s key now and sc :: "(string, float64) gomap"
  show "asZSet v = None" if "vTag v \<noteq> TZSet" for v using that by (cases v) simp_all
  assume wf: "wf_store s"
  show "view now s key = Some (VZSet (map_of (scoresAt key s)), deadline s key)" if "typeOf now key s = TZSet"
    using view_deadline [of s key _ now] typeOf_zsets [OF wf that] that wf by fastforce
qed (simp_all add: storeScores_entry view_storeScores)

lemma getZSet_cases:
  "wf_store s \<Longrightarrow> getZSet now key s = (if typeOf now key s = NoKey then Inr None
     else if typeOf now key s = TZSet then Inr (Some \<lparr>scores = scoresAt key s\<rparr>) else Inl ErrWrongType)"
  using typeOf_zsets [of s now key] by (simp add: getZSet_eq)

lemma scoresAt_missing: "wf_store s \<Longrightarrow> settled now s key \<Longrightarrow> typeOf now key s = NoKey \<Longrightarrow> scoresAt key s = []"
  using settled_missing [of now s key] fits_maps(5) [OF wf_store_key, of s key NoKey] by (simp add: fits_def scoresAt_def)

subsection \<open>Order\<close>

lemma sortedMembers_ranked:
  assumes "wf_map (scores z)" and "numeric z"
  shows "sortedMembers z = ranked (map_of (scores z))"
  unfolding ranked_def
proof (rule zs.sortSlice_unique [OF _ _ sortedMembers_sorted [OF assms]])
  let ?m = "map_of (scores z)"
  let ?g = "\<lambda>k. \<lparr>Member = k, Score = the (?m k)\<rparr>" and ?ks = "sorted_list_of_set (dom ?m)"
  have fin: "finite (dom ?m)" by (rule finite_dom_map_of)
  have "Score x \<noteq> NaN" if "x \<in> set (map ?g ?ks)" for x
  proof -
    have "x \<in> ?g ` dom ?m" using that fin by simp
    then obtain k v where "?m k = Some v" "x = ?g k" by blast
    then show ?thesis using assms(2) map_of_SomeD [of "scores z" k v] by (auto simp: numeric_def)
  qed
  then show "\<forall>x \<in> set (map ?g ?ks). Score x \<noteq> NaN" by blast
  show "distinct (map Member (map ?g ?ks))" by (simp add: comp_def)
  have "the (?m k) = v" if "(k, v) \<in> set (scores z)" for k v using that wf_map_in_set [OF assms(1), of k v] by simp
  then have "map (\<lambda>(m, sc). \<lparr>Member = m, Score = sc\<rparr>) (scores z) = map ?g (mkeys (scores z))" by auto
  then have "mset (sortedMembers z) = image_mset ?g (mset (mkeys (scores z)))"
    unfolding sortedMembers_def mset_sortSlice by (simp only: mset_map)
  also have "\<dots> = image_mset ?g (mset ?ks)"
    using mset_set_set [of ?ks] fin by (simp only: mset_mkeys [OF assms(1)]) simp
  finally show "mset (sortedMembers z) = mset (map ?g ?ks)" by simp
qed

lemma ranked_empty [simp]: "ranked Map.empty = []"
  by (simp add: ranked_def sortSlice_def)

text \<open>A member splits the ranking into those before and those after it.\<close>

lemma rank_split:
  assumes "sorted_wrt zless ms" and num: "\<forall>m \<in> set ms. Score m \<noteq> NaN" and "m \<in> set ms" and "distinct (map Member ms)"
  obtains xs ys where "ms = xs @ m # ys" "filter (\<lambda>x. zless x m) ms = xs" "filter (zless m) ms = ys"
    "takeWhile (\<lambda>x. Member x \<noteq> Member m) ms = xs"
proof -
  obtain xs ys where ms: "ms = xs @ m # ys" using split_list [OF assms(3)] by blast
  have order: "\<forall>x \<in> set xs. zless x m" "\<forall>y \<in> set ys. zless m y"
    using assms(1) by (simp_all add: ms sorted_wrt_append)
  have "\<not> zless b a" if "zless a b" "a \<in> set ms" "b \<in> set ms" for a b using zs.asym [of a b] num that by blast
  then have rev_order: "\<forall>x \<in> set xs. \<not> zless m x" "\<forall>y \<in> set ys. \<not> zless y m" using order by (simp_all add: ms)
  have irr: "\<not> zless m m" using zs.irrefl [of m] num assms(3) by blast
  have "filter (\<lambda>x. zless x m) ms = xs" "filter (zless m) ms = ys"
    unfolding ms using order rev_order irr by (simp_all add: filter_empty_conv filter_id_conv)
  moreover have "\<forall>x \<in> set xs. Member x \<noteq> Member m" using assms(4) by (fastforce simp: ms image_iff)
  then have "takeWhile (\<lambda>x. Member x \<noteq> Member m) ms = xs" by (simp add: ms takeWhile_append2)
  ultimately show ?thesis using that [OF ms] by blast
qed

definition numericAt :: "gotime \<Rightarrow> string \<Rightarrow> MemoryStore \<Rightarrow> bool" where
  "numericAt now key s \<longleftrightarrow> (typeOf now key s = TZSet \<longrightarrow> numeric \<lparr>scores = scoresAt key s\<rparr>)"

lemma sortedAt:
  assumes "wf_store s" and "numericAt now key s" and "typeOf now key s = TZSet"
  defines "z \<equiv> \<lparr>scores = scoresAt key s\<rparr>"
  shows "sortedMembers z = ranked (map_of (scoresAt key s))"
    and "sorted_wrt zless (sortedMembers z)" and "\<forall>m \<in> set (sortedMembers z). Score m \<noteq> NaN"
    and "distinct (map Member (sortedMembers z))"
proof -
  have "wf_map (scores z)" "numeric z" using assms scoresAt_wf [OF assms(1), of key] by (simp_all add: numericAt_def)
  then show "sortedMembers z = ranked (map_of (scoresAt key s))" "sorted_wrt zless (sortedMembers z)"
    "\<forall>m \<in> set (sortedMembers z). Score m \<noteq> NaN" "distinct (map Member (sortedMembers z))"
    using sortedMembers_ranked [of z] sortedMembers_sorted [of z] sortedMembers_distinct [of z] sortedMembers_set [of _ z]
    by (auto simp: z_def numeric_def)
qed

subsection \<open>Reading\<close>

lemma refines_ZScore [refinements]:
  assumes "wf_store s"
  shows "refines now (Ret (s, orErr AFloat (ZScore now key member s))) (specZScore key member (view now s))"
  by (rule refinesI [OF refl assms])
    (simp add: specZScore_def zss.read_as [OF assms] ZScore_def getZSet_cases [OF assms])

lemma refines_ZCard [refinements]:
  assumes "wf_store s" and "typeOf now key s \<noteq> NoKey"
  shows "refines now (map_go (\<lambda>r. (s, orErr AInt r)) (ZCard now key s)) (specZCard key (view now s))"
  using assms wf_map_card [OF scoresAt_wf [OF assms(1), of key]]
  by (intro refinesI) (auto simp: specZCard_def zss.read_as [OF assms(1)] ZCard_def getZSet_cases [OF assms(1)])

lemma ranks:
  assumes "wf_store s" and "numericAt now key s" and "typeOf now key s = TZSet"
    and sc: "map_of (scoresAt key s) member = Some sc"
  defines "ms \<equiv> sortedMembers \<lparr>scores = scoresAt key s\<rparr>" and "m \<equiv> \<lparr>Member = member, Score = sc\<rparr>"
  shows "rankLoop member ms 0 = Some (int (length (filter (\<lambda>x. zless x m) ms)))"
    and "int (length ms) - 1 - int (length (filter (\<lambda>x. zless x m) ms)) = int (length (filter (zless m) ms))"
proof -
  have m: "m \<in> set ms" using map_of_SomeD [OF sc] by (simp add: ms_def m_def sortedMembers_set)
  obtain xs ys where split: "ms = xs @ m # ys" "filter (\<lambda>x. zless x m) ms = xs" "filter (zless m) ms = ys"
    "takeWhile (\<lambda>x. Member x \<noteq> Member m) ms = xs"
    using rank_split [OF sortedAt(2-3) [OF assms(1-3)] _ sortedAt(4) [OF assms(1-3)]] m unfolding ms_def by metis
  have "member \<in> Member ` set ms" using m by (force simp: m_def)
  then show "rankLoop member ms 0 = Some (int (length (filter (\<lambda>x. zless x m) ms)))"
    using split(2,4) by (simp add: rankLoop_eq m_def)
  have "length ms = length xs + Suc (length ys)" by (simp add: split(1))
  then show "int (length ms) - 1 - int (length (filter (\<lambda>x. zless x m) ms)) = int (length (filter (zless m) ms))"
    unfolding split(2,3) by simp
qed

lemma refines_ZRank [refinements]:
  assumes "wf_store s" and "numericAt now key s"
  shows "refines now (Ret (s, orErr ARank (ZRank now key member s))) (specZRank key member (view now s))"
    and "refines now (Ret (s, orErr ARank (ZRevRank now key member s))) (specZRevRank key member (view now s))"
proof -
  note defs = zss.read_as [OF assms(1)] getZSet_cases [OF assms(1)]
  show "refines now (Ret (s, orErr ARank (ZRank now key member s))) (specZRank key member (view now s))"
    using ranks(1) [OF assms] sortedAt(1) [OF assms]
    by (intro refinesI [OF refl assms(1)]) (auto simp: specZRank_def ZRank_def defs split: option.split)
  show "refines now (Ret (s, orErr ARank (ZRevRank now key member s))) (specZRevRank key member (view now s))"
    using ranks [OF assms] sortedAt(1) [OF assms]
    by (intro refinesI [OF refl assms(1)]) (auto simp: specZRevRank_def ZRevRank_def defs Let_def split: option.split)
qed

lemma refines_ZRange [refinements]:
  assumes "wf_store s" and "numericAt now key s"
  shows "refines now (Ret (s, orErr AStrs (ZRange now key start stop reverse withScores s)))
    (specZRange key start stop reverse withScores (view now s))"
proof (rule refinesI [OF refl assms(1)])
  have "orErr AStrs (ZRange now key start stop reverse withScores s) =
      (let r = rangeOf start stop (ranked (map_of (scoresAt key s)))
       in AStrs (concat (map (withScore withScores) (if reverse then rev r else r))))" if "typeOf now key s = TZSet"
    unfolding sortedAt(1) [OF assms that, symmetric]
    using that by (cases "scoresAt key s") (simp_all add: ZRange_def getZSet_cases [OF assms(1)] rangeOf_take_drop subslice_def fromEnd_def Let_def max_def min_def)
  then show "specZRange key start stop reverse withScores (view now s) =
      (view now s, orErr AStrs (ZRange now key start stop reverse withScores s))"
    by (simp add: specZRange_def zss.read_as [OF assms(1)] ZRange_def getZSet_cases [OF assms(1)])
qed

lemma filter_inBounds:
  "\<forall>m \<in> set ms. Score m \<noteq> NaN \<Longrightarrow> lo \<noteq> NaN \<Longrightarrow> hi \<noteq> NaN \<Longrightarrow>
     filter (\<lambda>m. scoreInRange lo hi loExcl hiExcl (Score m)) ms = filter (\<lambda>m. inBounds lo hi loExcl hiExcl (Score m)) ms"
  by (rule filter_cong) (simp_all add: scoreInRange_numeric inBounds_def)

lemma limited_Nil [simp]: "limited offset cnt [] = []"
  by (simp add: limited_def)

lemma refines_ZRangeByScore [refinements]:
  assumes "wf_store s" and "numericAt now key s" and "lo \<noteq> NaN" "hi \<noteq> NaN"
  shows "refines now (Ret (s, orErr AStrs (ZRangeByScore now key lo hi loExcl hiExcl withScores offset cnt s)))
      (specZRangeByScore key lo hi loExcl hiExcl withScores offset cnt (view now s))"
    and "refines now (Ret (s, orErr AStrs (ZRevRangeByScore now key hi lo hiExcl loExcl withScores offset cnt s)))
      (specZRevRangeByScore key hi lo hiExcl loExcl withScores offset cnt (view now s))"
proof -
  let ?r = "ranked (map_of (scoresAt key s))"
  let ?in = "\<lambda>x. scoreInRange lo hi loExcl hiExcl (Score x)" and ?bound = "\<lambda>x. inBounds lo hi loExcl hiExcl (Score x)"
  note defs = specZRangeByScore_def ZRangeByScore_def specZRevRangeByScore_def ZRevRangeByScore_def
    zss.read_as [OF assms(1)] getZSet_cases [OF assms(1)] limitLoop_eq
  have r: "sortedMembers \<lparr>scores = scoresAt key s\<rparr> = ?r" "filter ?in ?r = filter ?bound ?r"
    "filter ?in (rev ?r) = filter ?bound (rev ?r)" if "typeOf now key s = TZSet"
    using sortedAt(1,3) [OF assms(1,2) that] filter_inBounds [OF _ assms(3,4), of ?r] filter_inBounds [OF _ assms(3,4), of "rev ?r"]
    by simp_all
  show "refines now (Ret (s, orErr AStrs (ZRangeByScore now key lo hi loExcl hiExcl withScores offset cnt s)))
      (specZRangeByScore key lo hi loExcl hiExcl withScores offset cnt (view now s))"
    using r by (intro refinesI [OF refl assms(1)]) (simp add: defs)
  show "refines now (Ret (s, orErr AStrs (ZRevRangeByScore now key hi lo hiExcl loExcl withScores offset cnt s)))
      (specZRevRangeByScore key hi lo hiExcl loExcl withScores offset cnt (view now s))"
    using r by (intro refinesI [OF refl assms(1)]) (simp add: defs)
qed

lemma card_filter_map:
  assumes "wf_map m"
  shows "length (filter (\<lambda>(k, v). P v) m) = card {k \<in> dom (map_of m). P (the (map_of m k))}"
proof -
  have "dom (map_of (filter (\<lambda>(k, v). P v) m)) = {k \<in> dom (map_of m). P (the (map_of m k))}"
    by (auto simp: map_of_filter_wf [OF assms, where P = "\<lambda>k v. P v"] split: option.splits if_splits)
  then show ?thesis using wf_map_card [OF wf_map_filter [OF assms], of "\<lambda>(k, v). P v"] by simp
qed

lemma refines_ZCount [refinements]:
  assumes "wf_store s"
  shows "refines now (Ret (s, orErr AInt (ZCount now key lo hi loExcl hiExcl s))) (specZCount key lo hi loExcl hiExcl (view now s))"
proof (rule refinesI [OF refl assms])
  have "(\<lambda>(_ :: string, sc). (\<not> loExcl \<and> fle lo sc \<or> loExcl \<and> flt lo sc) \<and> (\<not> hiExcl \<and> fle sc hi \<or> hiExcl \<and> flt sc hi)) =
      (\<lambda>(_, sc). inBounds lo hi loExcl hiExcl sc)"
    by (auto simp: fun_eq_iff inBounds_def)
  then show "specZCount key lo hi loExcl hiExcl (view now s) = (view now s, orErr AInt (ZCount now key lo hi loExcl hiExcl s))"
    by (simp add: specZCount_def ZCount_def zss.read_as [OF assms] getZSet_cases [OF assms]
        card_filter_map [OF scoresAt_wf [OF assms]])
qed

lemma limited_map: "map f (limited offset cnt xs) = limited offset cnt (map f xs)"
  by (simp add: limited_def take_map drop_map)

lemma refines_ZRangeByLex [refinements]:
  assumes "wf_store s" and "numericAt now key s"
  shows "refines now (Ret (s, orErr AStrs (ZRangeByLex now key lo hi offset cnt s))) (specZRangeByLex key lo hi offset cnt (view now s))"
  using sortedAt(1) [OF assms]
  by (intro refinesI [OF refl assms(1)])
    (simp add: specZRangeByLex_def ZRangeByLex_def zss.read_as [OF assms(1)] getZSet_cases [OF assms(1)]
      limitLoop_eq limited_map filter_map comp_def)

lemma refines_ZLexCount [refinements]:
  assumes "wf_store s"
  shows "refines now (Ret (s, orErr AInt (ZLexCount now key lo hi s))) (specZLexCount key lo hi (view now s))"
proof (rule refinesI [OF refl assms])
  let ?z = "\<lparr>scores = scoresAt key s\<rparr>"
  let ?hits = "filter (lexInRange lo hi) (map Member (sortedMembers ?z))"
  have "distinct ?hits" using sortedMembers_distinct [of ?z] scoresAt_wf [OF assms] by simp
  moreover have "set ?hits = {k \<in> dom (map_of (scoresAt key s)). lexInRange lo hi k}"
    using sortedMembers_members [of ?z] by (simp only: set_filter zset.select_convs)
  ultimately have "length ?hits = card {k \<in> dom (map_of (scoresAt key s)). lexInRange lo hi k}"
    using distinct_card by metis
  then show "specZLexCount key lo hi (view now s) = (view now s, orErr AInt (ZLexCount now key lo hi s))"
    by (simp add: specZLexCount_def ZLexCount_def ZRangeByLex_def zss.read_as [OF assms] getZSet_cases [OF assms]
        limitLoop_eq limited_def filter_map comp_def)
qed

subsection \<open>Writing\<close>

lemma refines_ZRem [refinements]:
  assumes "wf_store s"
  shows "refines now (Ret (map_prod id (orErr AInt) (ZRem now key ms s))) (specZRem key ms (view now s))"
proof -
  have "map_of (fst (removeKeys ms sc)) = map_of sc |` (- set ms)" for sc :: "(string, float64) gomap"
    by (auto simp: fun_eq_iff map_of_removeKeys restrict_map_def)
  then show ?thesis
    unfolding specZRem_def ZRem_def getZSet_cases [OF assms]
    by (intro zss.write_with [where new = "fst (removeKeys ms (scoresAt key s))"])
      (use assms scoresAt_wf [OF assms, of key] in \<open>simp_all add: case_prod_beta Let_def removeKeys_card Int_commute\<close>)
qed

lemma zadd_map:
  "fold (zaddOne nx xx gt lt ch) ms (map_of sc, n) =
     map_prod map_of id (fold (zaddStep nx xx gt lt ch) ms (sc, n))"
proof (induction ms arbitrary: sc n)
  case (Cons m ms)
  obtain sc' n' where step: "zaddStep nx xx gt lt ch m (sc, n) = (sc', n')" by fastforce
  then have "zaddOne nx xx gt lt ch m (map_of sc, n) = (map_of sc', n')"
    by (auto simp: zaddStep_def zaddOne_def split: option.splits if_splits)
  then show ?case using Cons.IH [of sc' n'] by (simp add: step)
qed simp

lemma zadd_ne:
  assumes "ms \<noteq> []" and "xx \<longrightarrow> sc \<noteq> []"
  shows "fst (fold (zaddStep nx xx gt lt ch) ms (sc, n)) \<noteq> []"
proof -
  obtain m ms' where ms: "ms = m # ms'" using assms(1) by (cases ms) auto
  obtain sc' n' where step: "zaddStep nx xx gt lt ch m (sc, n) = (sc', n')" by fastforce
  have "sc' \<noteq> []" using assms(2) step by (cases sc) (auto simp: zaddStep_def split: option.splits if_splits)
  then have "fst (fold (zaddStep nx xx gt lt ch) ms' (sc', n')) \<noteq> []"
    by (intro zadd_invariant [where P = "\<lambda>sc. sc \<noteq> []"]) (auto simp: zaddStep_fst)
  then show ?thesis by (simp add: ms step)
qed

lemma refines_ZAdd [refinements]:
  assumes "wf_store s" and "settled now s key" and "ms \<noteq> []" and "xx \<longrightarrow> scoresAt key s \<noteq> []"
  shows "refines now (Ret (map_prod id (orErr AInt) (ZAdd now key ms nx xx gt lt ch s))) (specZAdd key ms nx xx gt lt ch (view now s))"
proof -
  let ?new = "fold (zaddStep nx xx gt lt ch) ms (scoresAt key s, 0)"
  have "s\<lparr>zsets := mput key \<lparr>scores = fst ?new\<rparr> (zsets s)\<rparr> = storeScores key (fst ?new) s"
    using zadd_ne [OF assms(3,4), of nx gt lt ch 0] by (simp add: storeScores_def)
  then show ?thesis
    unfolding specZAdd_def ZAdd_def Let_def case_prod_beta
    by (intro zss.write_with [where new = "fst ?new"])
      (use assms scoresAt_wf [OF assms(1), of key] scoresAt_missing [OF assms(1,2)]
        zadd_map [of nx xx gt lt ch ms "scoresAt key s" 0] in \<open>simp_all add: zadd_wf\<close>)
qed

lemma refines_ZIncrBy [refinements]:
  assumes "wf_store s" and "settled now s key"
  shows "refines now (Ret (map_prod id (orErr (\<lambda>f. AFloat (Some f))) (ZIncrBy now key inc member s))) (specZIncrBy key inc member (view now s))"
proof -
  let ?new = "mput member (fadd (case map_of (scoresAt key s) member of None \<Rightarrow> Fin 0 | Some f \<Rightarrow> f) inc) (scoresAt key s)"
  have "s\<lparr>zsets := mput key \<lparr>scores = ?new\<rparr> (zsets s)\<rparr> = storeScores key ?new s" by (simp add: storeScores_def)
  then show ?thesis
    unfolding specZIncrBy_def ZIncrBy_def Let_def
    by (intro zss.write_with [where new = ?new])
      (use assms scoresAt_wf [OF assms(1), of key] scoresAt_missing [OF assms] in simp_all)
qed

lemma popMembers_eq:
  assumes "0 \<le> cnt"
  shows "popMembers key cnt ms sc s =
    Ret (bumpVersion key (storeScores key (fold (\<lambda>m sc. mdel (Member m) sc) (take (nat cnt) ms) sc) s), Inr (take (nat cnt) ms))"
proof -
  have "take (nat (if int (length ms) < cnt then int (length ms) else cnt)) ms = take (nat cnt) ms" by simp
  then show ?thesis using assms by (simp add: popMembers_def Let_def)
qed

lemma fold_mdel_restrict:
  "map_of (fold (\<lambda>m sc. mdel (Member m) sc) ms sc) = map_of sc |` (- Member ` set ms)"
  by (auto simp: fun_eq_iff fold_mdel_members restrict_map_def)

lemma refines_ZPop [refinements]:
  assumes "wf_store s" and "numericAt now key s" and "0 \<le> cnt" and "typeOf now key s = TZSet \<longrightarrow> scoresAt key s \<noteq> []"
  shows "refines now (map_go (map_prod id (orErr AMembers)) (ZPopMin now key cnt s)) (specZPopMin key cnt (view now s))"
    and "refines now (map_go (map_prod id (orErr AMembers)) (ZPopMax now key cnt s)) (specZPopMax key cnt (view now s))"
proof -
  let ?sc = "scoresAt key s" and ?drop = "\<lambda>ms. fold (\<lambda>m sc. mdel (Member m) sc) (take (nat cnt) ms)"
  let ?r = "ranked (map_of ?sc)"
  have wf: "wf_map (?drop ms ?sc)" for ms using fold_mdel_members(2) [OF scoresAt_wf [OF assms(1)]] .
  note facts = assms wf sortedAt(1) [OF assms(1,2)]
  show "refines now (map_go (map_prod id (orErr AMembers)) (ZPopMin now key cnt s)) (specZPopMin key cnt (view now s))"
    unfolding specZPopMin_def ZPopMin_def getZSet_cases [OF assms(1)]
    by (rule zss.write_with [where new = "?drop ?r ?sc"])
      (use facts in \<open>simp_all add: popMembers_eq fold_mdel_restrict Let_def\<close>)
  show "refines now (map_go (map_prod id (orErr AMembers)) (ZPopMax now key cnt s)) (specZPopMax key cnt (view now s))"
    unfolding specZPopMax_def ZPopMax_def getZSet_cases [OF assms(1)]
    by (rule zss.write_with [where new = "?drop (rev ?r) ?sc"])
      (use facts in \<open>simp_all add: popMembers_eq fold_mdel_restrict Let_def\<close>)
qed

end
