(* ===== verification/StoreContract.thy ===== *)
theory StoreContract
  imports StoreRefine
begin

text \<open>
  The interface \<^verbatim>\<open>Store\<close> as a whole.  A call of a method is a value of \<open>StoreOp\<close>; \<open>runOp\<close> carries it out on
  the store of \<^verbatim>\<open>memory.go\<close>, \<open>specOp\<close> on the abstract keyspace of the contract, and \<open>fitOp\<close> is the condition under
  which the two agree.  The sweep of the background goroutine is one more call, which the contract
  does not notice.  The result is about sequences of calls at any times that do not go back: the
  store gives the answers of the contract, all the way.
\<close>

section \<open>Whole keys\<close>

datatype KeyOp =
    DoSet string string
  | DoSetWithTTL string string duration
  | DoSetAdv string string duration SetAdvOpts
  | DoGet string
  | DoGetEx string duration bool bool
  | DoDel "string list"
  | DoExists "string list"
  | DoKeys string
  | DoLen
  | DoFlush
  | DoExpire string duration
  | DoTTL string
  | DoPersist string
  | DoRename string string
  | DoType string
  | DoSweep

fun runKey :: "gotime \<Rightarrow> KeyOp \<Rightarrow> MemoryStore \<Rightarrow> (MemoryStore \<times> Answer) go" where
  "runKey now (DoSet key v) s = Ret (Set key v s, AUnit)"
| "runKey now (DoSetWithTTL key v ttl) s = Ret (SetWithTTL now key v ttl s, AUnit)"
| "runKey now (DoSetAdv key v ttl opts) s = Ret (map_prod id (\<lambda>(a, b, c). AOld a b c) (SetAdv now key v ttl opts s))"
| "runKey now (DoGet key) s = Ret (s, AStr (Get now key s))"
| "runKey now (DoGetEx key ttl persist hasTTL) s = Ret (map_prod id AStr (GetEx now key ttl persist hasTTL s))"
| "runKey now (DoDel keys) s = Ret (map_prod id AInt (Del now keys s))"
| "runKey now (DoExists keys) s = Ret (s, AInt (Exists now keys s))"
| "runKey now (DoKeys pattern) s = Ret (s, ABag (mset (Keys now pattern s)))"
| "runKey now DoLen s = Ret (s, AInt (Len now s))"
| "runKey now DoFlush s = Ret (Flush s, AUnit)"
| "runKey now (DoExpire key ttl) s = Ret (map_prod id ABool (Expire now key ttl s))"
| "runKey now (DoTTL key) s = Ret (s, AInt (TTL now key s))"
| "runKey now (DoPersist key) s = Ret (map_prod id ABool (Persist now key s))"
| "runKey now (DoRename src dst) s = map_go (map_prod id ABool) (Rename now src dst s)"
| "runKey now (DoType key) s = Ret (s, AStr (Some (Type now key s)))"
| "runKey now DoSweep s = Ret (deleteExpired now s, AUnit)"

fun specKey :: "gotime \<Rightarrow> KeyOp \<Rightarrow> keyspace \<Rightarrow> keyspace \<times> Answer" where
  "specKey now (DoSet key v) m = specSet key v m"
| "specKey now (DoSetWithTTL key v ttl) m = specSetWithTTL now key v ttl m"
| "specKey now (DoSetAdv key v ttl opts) m = specSetAdv now key v ttl opts m"
| "specKey now (DoGet key) m = specGet key m"
| "specKey now (DoGetEx key ttl persist hasTTL) m = specGetEx now key ttl persist hasTTL m"
| "specKey now (DoDel keys) m = specDel keys m"
| "specKey now (DoExists keys) m = specExists keys m"
| "specKey now (DoKeys pattern) m = specKeys pattern m"
| "specKey now DoLen m = specLen m"
| "specKey now DoFlush m = specFlush m"
| "specKey now (DoExpire key ttl) m = specExpire now key ttl m"
| "specKey now (DoTTL key) m = specTTL now key m"
| "specKey now (DoPersist key) m = specPersist key m"
| "specKey now (DoRename src dst) m = specRename src dst m"
| "specKey now (DoType key) m = specType key m"
| "specKey now DoSweep m = (m, AUnit)"

fun fitKey :: "gotime \<Rightarrow> KeyOp \<Rightarrow> MemoryStore \<Rightarrow> bool" where
  "fitKey now (DoSet key v) s \<longleftrightarrow> True"
| "fitKey now (DoSetWithTTL key v ttl) s \<longleftrightarrow> now + ttl \<noteq> zeroTime"
| "fitKey now (DoSetAdv key v ttl opts) s \<longleftrightarrow> now + ttl \<noteq> zeroTime \<and> typeOf now key s \<in> {NoKey, TString} \<and> (KeepTTL opts \<longrightarrow> settled now s key)"
| "fitKey now (DoGet key) s \<longleftrightarrow> True"
| "fitKey now (DoGetEx key ttl persist hasTTL) s \<longleftrightarrow> (hasTTL \<longrightarrow> now + ttl \<noteq> zeroTime)"
| "fitKey now (DoDel keys) s \<longleftrightarrow> True"
| "fitKey now (DoExists keys) s \<longleftrightarrow> True"
| "fitKey now (DoKeys pattern) s \<longleftrightarrow> True"
| "fitKey now DoLen s \<longleftrightarrow> noneDue now s"
| "fitKey now DoFlush s \<longleftrightarrow> True"
| "fitKey now (DoExpire key ttl) s \<longleftrightarrow> now + ttl \<noteq> zeroTime"
| "fitKey now (DoTTL key) s \<longleftrightarrow> True"
| "fitKey now (DoPersist key) s \<longleftrightarrow> True"
| "fitKey now (DoRename src dst) s \<longleftrightarrow> src \<noteq> dst"
| "fitKey now (DoType key) s \<longleftrightarrow> True"
| "fitKey now DoSweep s \<longleftrightarrow> True"

section \<open>Hashes\<close>

datatype HashOp =
    DoHSet string "(string, string) gomap"
  | DoHGet string string
  | DoHDel string "string list"
  | DoHGetAll string
  | DoHLen string
  | DoHExists string string
  | DoHKeys string
  | DoHVals string

fun runHash :: "gotime \<Rightarrow> HashOp \<Rightarrow> MemoryStore \<Rightarrow> (MemoryStore \<times> Answer) go" where
  "runHash now (DoHSet key flds) s = Ret (map_prod id AInt (HSet key flds s))"
| "runHash now (DoHGet key field) s = Ret (s, AStr (HGet now key field s))"
| "runHash now (DoHDel key flds) s = Ret (map_prod id AInt (HDel now key flds s))"
| "runHash now (DoHGetAll key) s = Ret (s, AFields (set (HGetAll now key s)))"
| "runHash now (DoHLen key) s = Ret (s, AInt (HLen now key s))"
| "runHash now (DoHExists key field) s = Ret (s, ABool (HExists now key field s))"
| "runHash now (DoHKeys key) s = Ret (s, ABag (mset (HKeys now key s)))"
| "runHash now (DoHVals key) s = Ret (s, ABag (mset (HVals now key s)))"

fun specHash :: "gotime \<Rightarrow> HashOp \<Rightarrow> keyspace \<Rightarrow> keyspace \<times> Answer" where
  "specHash now (DoHSet key flds) m = specHSet key flds m"
| "specHash now (DoHGet key field) m = specHGet key field m"
| "specHash now (DoHDel key flds) m = specHDel key flds m"
| "specHash now (DoHGetAll key) m = specHGetAll key m"
| "specHash now (DoHLen key) m = specHLen key m"
| "specHash now (DoHExists key field) m = specHExists key field m"
| "specHash now (DoHKeys key) m = specHKeys key m"
| "specHash now (DoHVals key) m = specHVals key m"

fun fitHash :: "gotime \<Rightarrow> HashOp \<Rightarrow> MemoryStore \<Rightarrow> bool" where
  "fitHash now (DoHSet key flds) s \<longleftrightarrow> settled now s key \<and> typeOf now key s \<in> {NoKey, TString, THash} \<and> wf_map flds \<and> flds \<noteq> []"
| "fitHash now (DoHGet key field) s \<longleftrightarrow> True"
| "fitHash now (DoHDel key flds) s \<longleftrightarrow> True"
| "fitHash now (DoHGetAll key) s \<longleftrightarrow> True"
| "fitHash now (DoHLen key) s \<longleftrightarrow> True"
| "fitHash now (DoHExists key field) s \<longleftrightarrow> True"
| "fitHash now (DoHKeys key) s \<longleftrightarrow> True"
| "fitHash now (DoHVals key) s \<longleftrightarrow> True"

section \<open>Lists\<close>

datatype ListOp =
    DoLPush string "string list"
  | DoRPush string "string list"
  | DoLPop string int
  | DoRPop string int
  | DoLLen string
  | DoLRange string int int
  | DoLIndex string int
  | DoLSet string int string
  | DoLInsert string bool string string
  | DoLRem string int string
  | DoLTrim string int int
  | DoLMove string string bool bool

fun runList :: "gotime \<Rightarrow> ListOp \<Rightarrow> MemoryStore \<Rightarrow> (MemoryStore \<times> Answer) go" where
  "runList now (DoLPush key vals) s = Ret (map_prod id (orErr AInt) (LPush now key vals s))"
| "runList now (DoRPush key vals) s = Ret (map_prod id (orErr AInt) (RPush now key vals s))"
| "runList now (DoLPop key cnt) s = map_go (map_prod id (orErr APopped)) (LPop now key cnt s)"
| "runList now (DoRPop key cnt) s = map_go (map_prod id (orErr APopped)) (RPop now key cnt s)"
| "runList now (DoLLen key) s = Ret (s, orErr AInt (LLen now key s))"
| "runList now (DoLRange key start stop) s = Ret (s, orErr AStrs (LRange now key start stop s))"
| "runList now (DoLIndex key index) s = Ret (s, orErr AStr (LIndex now key index s))"
| "runList now (DoLSet key index v) s = Ret (map_prod id (orErr (\<lambda>_. AUnit)) (LSet now key index v s))"
| "runList now (DoLInsert key before pivot v) s = Ret (map_prod id (orErr AInt) (LInsert now key before pivot v s))"
| "runList now (DoLRem key cnt v) s = Ret (map_prod id (orErr AInt) (LRem now key cnt v s))"
| "runList now (DoLTrim key start stop) s = Ret (map_prod id (orErr (\<lambda>_. AUnit)) (LTrim now key start stop s))"
| "runList now (DoLMove src dst srcLeft dstLeft) s = Ret (map_prod id (orErr AStr) (LMove now src dst srcLeft dstLeft s))"

fun specList :: "gotime \<Rightarrow> ListOp \<Rightarrow> keyspace \<Rightarrow> keyspace \<times> Answer" where
  "specList now (DoLPush key vals) m = specLPush key vals m"
| "specList now (DoRPush key vals) m = specRPush key vals m"
| "specList now (DoLPop key cnt) m = specLPop key cnt m"
| "specList now (DoRPop key cnt) m = specRPop key cnt m"
| "specList now (DoLLen key) m = specLLen key m"
| "specList now (DoLRange key start stop) m = specLRange key start stop m"
| "specList now (DoLIndex key index) m = specLIndex key index m"
| "specList now (DoLSet key index v) m = specLSet key index v m"
| "specList now (DoLInsert key before pivot v) m = specLInsert key before pivot v m"
| "specList now (DoLRem key cnt v) m = specLRem key cnt v m"
| "specList now (DoLTrim key start stop) m = specLTrim key start stop m"
| "specList now (DoLMove src dst srcLeft dstLeft) m = specLMove src dst srcLeft dstLeft m"

fun fitList :: "gotime \<Rightarrow> ListOp \<Rightarrow> MemoryStore \<Rightarrow> bool" where
  "fitList now (DoLPush key vals) s \<longleftrightarrow> settled now s key \<and> vals \<noteq> []"
| "fitList now (DoRPush key vals) s \<longleftrightarrow> settled now s key \<and> vals \<noteq> []"
| "fitList now (DoLPop key cnt) s \<longleftrightarrow> 0 \<le> cnt"
| "fitList now (DoRPop key cnt) s \<longleftrightarrow> 0 \<le> cnt"
| "fitList now (DoLLen key) s \<longleftrightarrow> True"
| "fitList now (DoLRange key start stop) s \<longleftrightarrow> True"
| "fitList now (DoLIndex key index) s \<longleftrightarrow> True"
| "fitList now (DoLSet key index v) s \<longleftrightarrow> True"
| "fitList now (DoLInsert key before pivot v) s \<longleftrightarrow> True"
| "fitList now (DoLRem key cnt v) s \<longleftrightarrow> in64 cnt \<and> cnt \<noteq> minInt64"
| "fitList now (DoLTrim key start stop) s \<longleftrightarrow> True"
| "fitList now (DoLMove src dst srcLeft dstLeft) s \<longleftrightarrow> settled now s src \<and> settled now s dst"

section \<open>Sets\<close>

datatype SetOp =
    DoSAdd string "string list"
  | DoSRem string "string list"
  | DoSMembers string
  | DoSCard string
  | DoSIsMember string string
  | DoSMIsMember string "string list"
  | DoSInter "string list"
  | DoSUnion "string list"
  | DoSDiff "string list"
  | DoSInterStore string "string list"
  | DoSUnionStore string "string list"
  | DoSDiffStore string "string list"
  | DoSMove string string string

fun runSet :: "gotime \<Rightarrow> SetOp \<Rightarrow> MemoryStore \<Rightarrow> (MemoryStore \<times> Answer) go" where
  "runSet now (DoSAdd key ms) s = Ret (map_prod id (orErr AInt) (SAdd now key ms s))"
| "runSet now (DoSRem key ms) s = Ret (map_prod id (orErr AInt) (SRem now key ms s))"
| "runSet now (DoSMembers key) s = Ret (s, orErr (\<lambda>ms. ABag (mset ms)) (SMembers now key s))"
| "runSet now (DoSCard key) s = Ret (s, orErr AInt (SCard now key s))"
| "runSet now (DoSIsMember key x) s = Ret (s, orErr ABool (SIsMember now key x s))"
| "runSet now (DoSMIsMember key ms) s = Ret (s, orErr AInts (SMIsMember now key ms s))"
| "runSet now (DoSInter keys) s = Ret (s, orErr (\<lambda>ms. ABag (mset ms)) (SInter now keys s))"
| "runSet now (DoSUnion keys) s = Ret (s, orErr (\<lambda>ms. ABag (mset ms)) (SUnion now keys s))"
| "runSet now (DoSDiff keys) s = Ret (s, orErr (\<lambda>ms. ABag (mset ms)) (SDiff now keys s))"
| "runSet now (DoSInterStore dst keys) s = Ret (map_prod id (orErr AInt) (SInterStore now dst keys s))"
| "runSet now (DoSUnionStore dst keys) s = Ret (map_prod id (orErr AInt) (SUnionStore now dst keys s))"
| "runSet now (DoSDiffStore dst keys) s = Ret (map_prod id (orErr AInt) (SDiffStore now dst keys s))"
| "runSet now (DoSMove src dst x) s = Ret (map_prod id (orErr ABool) (SMove now src dst x s))"

fun specSetOp :: "gotime \<Rightarrow> SetOp \<Rightarrow> keyspace \<Rightarrow> keyspace \<times> Answer" where
  "specSetOp now (DoSAdd key ms) m = specSAdd key ms m"
| "specSetOp now (DoSRem key ms) m = specSRem key ms m"
| "specSetOp now (DoSMembers key) m = specSMembers key m"
| "specSetOp now (DoSCard key) m = specSCard key m"
| "specSetOp now (DoSIsMember key x) m = specSIsMember key x m"
| "specSetOp now (DoSMIsMember key ms) m = specSMIsMember key ms m"
| "specSetOp now (DoSInter keys) m = specSInter keys m"
| "specSetOp now (DoSUnion keys) m = specSUnion keys m"
| "specSetOp now (DoSDiff keys) m = specSDiff keys m"
| "specSetOp now (DoSInterStore dst keys) m = specSInterStore dst keys m"
| "specSetOp now (DoSUnionStore dst keys) m = specSUnionStore dst keys m"
| "specSetOp now (DoSDiffStore dst keys) m = specSDiffStore dst keys m"
| "specSetOp now (DoSMove src dst x) m = specSMove src dst x m"

fun fitSet :: "gotime \<Rightarrow> SetOp \<Rightarrow> MemoryStore \<Rightarrow> bool" where
  "fitSet now (DoSAdd key ms) s \<longleftrightarrow> settled now s key \<and> ms \<noteq> []"
| "fitSet now (DoSRem key ms) s \<longleftrightarrow> True"
| "fitSet now (DoSMembers key) s \<longleftrightarrow> True"
| "fitSet now (DoSCard key) s \<longleftrightarrow> True"
| "fitSet now (DoSIsMember key x) s \<longleftrightarrow> True"
| "fitSet now (DoSMIsMember key ms) s \<longleftrightarrow> True"
| "fitSet now (DoSInter keys) s \<longleftrightarrow> list_all (setLike now s) keys \<and> keys \<noteq> []"
| "fitSet now (DoSUnion keys) s \<longleftrightarrow> list_all (setLike now s) keys"
| "fitSet now (DoSDiff keys) s \<longleftrightarrow> list_all (setLike now s) keys \<and> keys \<noteq> []"
| "fitSet now (DoSInterStore dst keys) s \<longleftrightarrow> list_all (setLike now s) keys \<and> keys \<noteq> []"
| "fitSet now (DoSUnionStore dst keys) s \<longleftrightarrow> list_all (setLike now s) keys"
| "fitSet now (DoSDiffStore dst keys) s \<longleftrightarrow> list_all (setLike now s) keys \<and> keys \<noteq> []"
| "fitSet now (DoSMove src dst x) s \<longleftrightarrow> settled now s src \<and> settled now s dst"

section \<open>Sorted sets\<close>

datatype ZSetOp =
    DoZAdd string "ZMember list" bool bool bool bool bool
  | DoZRem string "string list"
  | DoZScore string string
  | DoZCard string
  | DoZRank string string
  | DoZRevRank string string
  | DoZIncrBy string float64 string
  | DoZRange string int int bool bool
  | DoZRangeByScore string float64 float64 bool bool bool int int
  | DoZRevRangeByScore string float64 float64 bool bool bool int int
  | DoZCount string float64 float64 bool bool
  | DoZRangeByLex string string string int int
  | DoZLexCount string string string
  | DoZPopMin string int
  | DoZPopMax string int

fun runZSet :: "gotime \<Rightarrow> ZSetOp \<Rightarrow> MemoryStore \<Rightarrow> (MemoryStore \<times> Answer) go" where
  "runZSet now (DoZAdd key ms nx xx gt lt ch) s = Ret (map_prod id (orErr AInt) (ZAdd now key ms nx xx gt lt ch s))"
| "runZSet now (DoZRem key ms) s = Ret (map_prod id (orErr AInt) (ZRem now key ms s))"
| "runZSet now (DoZScore key x) s = Ret (s, orErr AFloat (ZScore now key x s))"
| "runZSet now (DoZCard key) s = map_go (\<lambda>r. (s, orErr AInt r)) (ZCard now key s)"
| "runZSet now (DoZRank key x) s = Ret (s, orErr ARank (ZRank now key x s))"
| "runZSet now (DoZRevRank key x) s = Ret (s, orErr ARank (ZRevRank now key x s))"
| "runZSet now (DoZIncrBy key inc x) s = Ret (map_prod id (orErr (\<lambda>f. AFloat (Some f))) (ZIncrBy now key inc x s))"
| "runZSet now (DoZRange key start stop reverse scs) s = Ret (s, orErr AStrs (ZRange now key start stop reverse scs s))"
| "runZSet now (DoZRangeByScore key lo hi loExcl hiExcl scs offset cnt) s = Ret (s, orErr AStrs (ZRangeByScore now key lo hi loExcl hiExcl scs offset cnt s))"
| "runZSet now (DoZRevRangeByScore key hi lo hiExcl loExcl scs offset cnt) s = Ret (s, orErr AStrs (ZRevRangeByScore now key hi lo hiExcl loExcl scs offset cnt s))"
| "runZSet now (DoZCount key lo hi loExcl hiExcl) s = Ret (s, orErr AInt (ZCount now key lo hi loExcl hiExcl s))"
| "runZSet now (DoZRangeByLex key lo hi offset cnt) s = Ret (s, orErr AStrs (ZRangeByLex now key lo hi offset cnt s))"
| "runZSet now (DoZLexCount key lo hi) s = Ret (s, orErr AInt (ZLexCount now key lo hi s))"
| "runZSet now (DoZPopMin key cnt) s = map_go (map_prod id (orErr AMembers)) (ZPopMin now key cnt s)"
| "runZSet now (DoZPopMax key cnt) s = map_go (map_prod id (orErr AMembers)) (ZPopMax now key cnt s)"

fun specZSet :: "gotime \<Rightarrow> ZSetOp \<Rightarrow> keyspace \<Rightarrow> keyspace \<times> Answer" where
  "specZSet now (DoZAdd key ms nx xx gt lt ch) m = specZAdd key ms nx xx gt lt ch m"
| "specZSet now (DoZRem key ms) m = specZRem key ms m"
| "specZSet now (DoZScore key x) m = specZScore key x m"
| "specZSet now (DoZCard key) m = specZCard key m"
| "specZSet now (DoZRank key x) m = specZRank key x m"
| "specZSet now (DoZRevRank key x) m = specZRevRank key x m"
| "specZSet now (DoZIncrBy key inc x) m = specZIncrBy key inc x m"
| "specZSet now (DoZRange key start stop reverse scs) m = specZRange key start stop reverse scs m"
| "specZSet now (DoZRangeByScore key lo hi loExcl hiExcl scs offset cnt) m = specZRangeByScore key lo hi loExcl hiExcl scs offset cnt m"
| "specZSet now (DoZRevRangeByScore key hi lo hiExcl loExcl scs offset cnt) m = specZRevRangeByScore key hi lo hiExcl loExcl scs offset cnt m"
| "specZSet now (DoZCount key lo hi loExcl hiExcl) m = specZCount key lo hi loExcl hiExcl m"
| "specZSet now (DoZRangeByLex key lo hi offset cnt) m = specZRangeByLex key lo hi offset cnt m"
| "specZSet now (DoZLexCount key lo hi) m = specZLexCount key lo hi m"
| "specZSet now (DoZPopMin key cnt) m = specZPopMin key cnt m"
| "specZSet now (DoZPopMax key cnt) m = specZPopMax key cnt m"

fun fitZSet :: "gotime \<Rightarrow> ZSetOp \<Rightarrow> MemoryStore \<Rightarrow> bool" where
  "fitZSet now (DoZAdd key ms nx xx gt lt ch) s \<longleftrightarrow> settled now s key \<and> ms \<noteq> [] \<and> (xx \<longrightarrow> scoresAt key s \<noteq> [])"
| "fitZSet now (DoZRem key ms) s \<longleftrightarrow> True"
| "fitZSet now (DoZScore key x) s \<longleftrightarrow> True"
| "fitZSet now (DoZCard key) s \<longleftrightarrow> typeOf now key s \<noteq> NoKey"
| "fitZSet now (DoZRank key x) s \<longleftrightarrow> numericAt now key s"
| "fitZSet now (DoZRevRank key x) s \<longleftrightarrow> numericAt now key s"
| "fitZSet now (DoZIncrBy key inc x) s \<longleftrightarrow> settled now s key"
| "fitZSet now (DoZRange key start stop reverse scs) s \<longleftrightarrow> numericAt now key s"
| "fitZSet now (DoZRangeByScore key lo hi loExcl hiExcl scs offset cnt) s \<longleftrightarrow> numericAt now key s \<and> lo \<noteq> NaN \<and> hi \<noteq> NaN"
| "fitZSet now (DoZRevRangeByScore key hi lo hiExcl loExcl scs offset cnt) s \<longleftrightarrow> numericAt now key s \<and> lo \<noteq> NaN \<and> hi \<noteq> NaN"
| "fitZSet now (DoZCount key lo hi loExcl hiExcl) s \<longleftrightarrow> True"
| "fitZSet now (DoZRangeByLex key lo hi offset cnt) s \<longleftrightarrow> numericAt now key s"
| "fitZSet now (DoZLexCount key lo hi) s \<longleftrightarrow> True"
| "fitZSet now (DoZPopMin key cnt) s \<longleftrightarrow> numericAt now key s \<and> 0 \<le> cnt \<and> (typeOf now key s = TZSet \<longrightarrow> scoresAt key s \<noteq> [])"
| "fitZSet now (DoZPopMax key cnt) s \<longleftrightarrow> numericAt now key s \<and> 0 \<le> cnt \<and> (typeOf now key s = TZSet \<longrightarrow> scoresAt key s \<noteq> [])"
section \<open>All calls\<close>

datatype StoreOp =
    OnKeys KeyOp
  | OnHash HashOp
  | OnList ListOp
  | OnSet SetOp
  | OnZSet ZSetOp

fun runOp :: "gotime \<Rightarrow> StoreOp \<Rightarrow> MemoryStore \<Rightarrow> (MemoryStore \<times> Answer) go" where
  "runOp now (OnKeys c) s = runKey now c s"
| "runOp now (OnHash c) s = runHash now c s"
| "runOp now (OnList c) s = runList now c s"
| "runOp now (OnSet c) s = runSet now c s"
| "runOp now (OnZSet c) s = runZSet now c s"

fun specOp :: "gotime \<Rightarrow> StoreOp \<Rightarrow> keyspace \<Rightarrow> keyspace \<times> Answer" where
  "specOp now (OnKeys c) m = specKey now c m"
| "specOp now (OnHash c) m = specHash now c m"
| "specOp now (OnList c) m = specList now c m"
| "specOp now (OnSet c) m = specSetOp now c m"
| "specOp now (OnZSet c) m = specZSet now c m"

fun fitOp :: "gotime \<Rightarrow> StoreOp \<Rightarrow> MemoryStore \<Rightarrow> bool" where
  "fitOp now (OnKeys c) s = fitKey now c s"
| "fitOp now (OnHash c) s = fitHash now c s"
| "fitOp now (OnList c) s = fitList now c s"
| "fitOp now (OnSet c) s = fitSet now c s"
| "fitOp now (OnZSet c) s = fitZSet now c s"

lemma runKey_refines: "wf_store s \<Longrightarrow> fitKey now c s \<Longrightarrow> refines now (runKey now c s) (specKey now c (view now s))"
  by (cases c) (simp_all add: refinements)

lemma runHash_refines: "wf_store s \<Longrightarrow> fitHash now c s \<Longrightarrow> refines now (runHash now c s) (specHash now c (view now s))"
  by (cases c) (simp_all add: refinements)

lemma runList_refines: "wf_store s \<Longrightarrow> fitList now c s \<Longrightarrow> refines now (runList now c s) (specList now c (view now s))"
  by (cases c) (simp_all add: refinements)

lemma runSet_refines: "wf_store s \<Longrightarrow> fitSet now c s \<Longrightarrow> refines now (runSet now c s) (specSetOp now c (view now s))"
  by (cases c) (simp_all add: refinements list_all_iff)

lemma runZSet_refines: "wf_store s \<Longrightarrow> fitZSet now c s \<Longrightarrow> refines now (runZSet now c s) (specZSet now c (view now s))"
  by (cases c) (simp_all add: refinements)

lemma runOp_refines: "wf_store s \<Longrightarrow> fitOp now c s \<Longrightarrow> refines now (runOp now c s) (specOp now c (view now s))"
  by (cases c) (simp_all add: runKey_refines runHash_refines runList_refines runSet_refines runZSet_refines)

section \<open>Sequences of calls\<close>

fun runAll :: "(gotime \<Rightarrow> 'o \<Rightarrow> 's \<Rightarrow> ('s \<times> 'a) go) \<Rightarrow> (gotime \<times> 'o) list \<Rightarrow> 's \<Rightarrow> ('s \<times> 'a list) go" where
  "runAll exec [] s = Ret (s, [])"
| "runAll exec ((t, c) # tr) s =
     (case exec t c s of
        Panic \<Rightarrow> Panic
      | Ret (s', a) \<Rightarrow> map_go (map_prod id (Cons a)) (runAll exec tr s'))"

fun specAll :: "(gotime \<Rightarrow> 'o \<Rightarrow> 'm \<Rightarrow> 'm \<times> 'a) \<Rightarrow> (gotime \<Rightarrow> 'm \<Rightarrow> 'm) \<Rightarrow> (gotime \<times> 'o) list \<Rightarrow> 'm \<Rightarrow> 'm \<times> 'a list" where
  "specAll spec age [] m = (m, [])"
| "specAll spec age ((t, c) # tr) m =
     (let (m', a) = spec t c (age t m) in map_prod id (Cons a) (specAll spec age tr m'))"

fun fitAll :: "(gotime \<Rightarrow> 'o \<Rightarrow> 's \<Rightarrow> ('s \<times> 'a) go) \<Rightarrow> (gotime \<Rightarrow> 'o \<Rightarrow> 's \<Rightarrow> bool) \<Rightarrow> (gotime \<times> 'o) list \<Rightarrow> 's \<Rightarrow> bool" where
  "fitAll exec fit [] s = True"
| "fitAll exec fit ((t, c) # tr) s =
     (fit t c s \<and> (case exec t c s of Panic \<Rightarrow> False | Ret (s', _) \<Rightarrow> fitAll exec fit tr s'))"

text \<open>
  An implementation whose view changes by itself as time passes, and the simulation that carries one
  call over to any sequence of them.
\<close>

locale timed_implementation =
  fixes inv :: "'s \<Rightarrow> bool"
    and look :: "gotime \<Rightarrow> 's \<Rightarrow> 'm"
    and age :: "gotime \<Rightarrow> 'm \<Rightarrow> 'm"
    and exec :: "gotime \<Rightarrow> 'o \<Rightarrow> 's \<Rightarrow> ('s \<times> 'a) go"
    and spec :: "gotime \<Rightarrow> 'o \<Rightarrow> 'm \<Rightarrow> 'm \<times> 'a"
    and fit :: "gotime \<Rightarrow> 'o \<Rightarrow> 's \<Rightarrow> bool"
  assumes later: "t \<le> t' \<Longrightarrow> look t' s = age t' (look t s)"
    and call: "inv s \<Longrightarrow> fit t c s \<Longrightarrow> \<exists>s' a. exec t c s = Ret (s', a) \<and> inv s' \<and> spec t c (look t s) = (look t s', a)"
begin

lemma simulation:
  assumes "inv s" and "sorted (t # map fst tr)" and "fitAll exec fit tr s"
  shows "\<exists>s' as. runAll exec tr s = Ret (s', as) \<and> inv s' \<and>
    specAll spec age tr (look t s) = (look (last (t # map fst tr)) s', as)"
  using assms
proof (induction tr arbitrary: s t)
  case (Cons e tr)
  obtain u c where e: "e = (u, c)" by (cases e)
  obtain s1 a where s1: "exec u c s = Ret (s1, a)" "inv s1" "spec u c (look u s) = (look u s1, a)"
    using call [of s u c] Cons.prems e by auto
  have "age u (look t s) = look u s" using later [of t u s] Cons.prems(2) e by simp
  moreover obtain s' as where "runAll exec tr s1 = Ret (s', as)" "inv s'"
    "specAll spec age tr (look u s1) = (look (last (u # map fst tr)) s', as)"
    using Cons.IH [OF s1(2), of u] Cons.prems s1(1) e by auto
  ultimately show ?case using s1 e by simp
qed simp

end

interpretation mem: timed_implementation wf_store view prune runOp specOp fitOp
  by unfold_locales (simp add: prune_view, use runOp_refines in \<open>simp add: refines_def\<close>)


definition demoTrace :: "(gotime \<times> StoreOp) list" where
  "demoTrace =
     [(10, OnKeys (DoSetWithTTL ''k'' ''v'' 5)), (12, OnKeys (DoGet ''k'')), (20, OnKeys (DoGet ''k'')),
      (20, OnKeys DoSweep), (21, OnList (DoRPush ''k'' [''a'', ''b''])), (22, OnList (DoLPop ''k'' 1)),
      (23, OnHash (DoHLen ''k'')), (24, OnSet (DoSCard ''k''))]"


end
