(* ===== verification/CmdContract.thy ===== *)
theory CmdContract
  imports Router StoreContract
begin

text \<open>
  From the wire to the contract: commands whose handler is one call of the interface \<^verbatim>\<open>Store\<close>.

  \<open>calls\<close> gives for each of these commands the call its arguments stand for, if they are well formed;
  \<open>says\<close> relates the answer of the contract to the reply a client receives.  \<open>answers\<close> is the contract
  of a handler: it makes that call and sends that reply.
\<close>

named_theorems answer_intros \<comment> \<open>handlers that are one call of the store\<close>

section \<open>Replies\<close>

text \<open>
  \<open>withCount\<close> is whether the command had its optional count.  Where the contract leaves the order open, the
  reply lists the elements in some order.
\<close>

fun says :: "bool \<Rightarrow> Answer \<Rightarrow> Response \<Rightarrow> bool" where
  "says withCount AUnit r \<longleftrightarrow> r = okReply"
| "says withCount (AInt n) r \<longleftrightarrow> r = Integer n"
| "says withCount (ABool b) r \<longleftrightarrow> r = boolInt b"
| "says withCount (AStr v) r \<longleftrightarrow> r = bulkOrNull v"
| "says withCount (AStrs vs) r \<longleftrightarrow> r = bulkArray vs"
| "says withCount (APopped vs) r \<longleftrightarrow> r = popReply withCount vs"
| "says withCount (ABag b) r \<longleftrightarrow> (\<exists>vs. r = bulkArray vs \<and> mset vs = b)"
| "says withCount (AFields f) r \<longleftrightarrow> (\<exists>fs. r = bulkArray (concat (map (\<lambda>(k, v). [k, v]) fs)) \<and> set fs = f)"
| "says withCount (AFloat v) r \<longleftrightarrow> r = bulkOrNull (map_option formatScore v)"
| "says withCount (ARank v) r \<longleftrightarrow> r = rankReply v"
| "says withCount (AMembers ms) r \<longleftrightarrow> r = membersReply ms"
| "says withCount (AInts ns) r \<longleftrightarrow> r = Array (map Integer ns)"
| "says withCount (AOld old there done') r \<longleftrightarrow> r = (if done' then okReply else NullBulkString)"
| "says withCount (AErr ErrWrongType) r \<longleftrightarrow> r = wrongType"
| "says withCount (AErr (Errorf m)) r \<longleftrightarrow> r = Error m"

type_synonym call = "Env \<Rightarrow> string list \<Rightarrow> StoreOp option"

definition answers :: "handler \<Rightarrow> call \<Rightarrow> bool" where
  "answers h call \<longleftrightarrow> (\<forall>env args s c. call env args = Some c \<longrightarrow>
     (case runOp (clock env) c s of
        Panic \<Rightarrow> h env args s = Panic
      | Ret (s', a) \<Rightarrow> \<exists>resp. h env args s = Ret (s', resp) \<and> says (length args = 3) a resp))"

section \<open>Calls\<close>

definition whenArgs :: "bool \<Rightarrow> 'a \<Rightarrow> 'a option" where
  "whenArgs b c = (if b then Some c else None)"

lemma whenArgs_Some [simp]: "whenArgs b c = Some d \<longleftrightarrow> b \<and> d = c"
  by (auto simp: whenArgs_def)

definition callSet :: call where
  "callSet env args =
     (if length args < 3 then None
      else
        case setOptions (clock env) (drop 3 args) noOpts 0 of
          Inl _ \<Rightarrow> None
        | Inr (opts, ttl) \<Rightarrow>
            whenArgs (\<not> (NX opts \<and> XX opts) \<and> \<not> GetOld opts) (OnKeys (DoSetAdv (args ! 1) (args ! 2) ttl opts)))"

definition callSetEX :: "duration \<Rightarrow> call" where
  "callSetEX u env args =
     (if length args \<noteq> 4 then None
      else
        case ParseInt (args ! 2) of
          None \<Rightarrow> None
        | Some n \<Rightarrow> whenArgs (0 < n) (OnKeys (DoSetWithTTL (args ! 1) (args ! 3) (mulDuration n u))))"

definition callExpire :: "duration \<Rightarrow> call" where
  "callExpire u env args =
     (if length args \<noteq> 3 then None
      else
        case ParseInt (args ! 2) of
          None \<Rightarrow> None
        | Some n \<Rightarrow> whenArgs (0 \<le> n) (OnKeys (DoExpire (args ! 1) (mulDuration n u))))"

definition callGetEX :: call where
  "callGetEX env args =
     (if length args < 2 then None
      else
        case getexOptions (clock env) (drop 2 args) \<lparr>ge_ttl = 0, ge_persist = False, ge_hasTTL = False\<rparr> of
          Inl _ \<Rightarrow> None
        | Inr g \<Rightarrow> Some (OnKeys (DoGetEx (args ! 1) (ge_ttl g) (ge_persist g) (ge_hasTTL g))))"

definition callInt :: "nat \<Rightarrow> nat \<Rightarrow> (string list \<Rightarrow> int \<Rightarrow> StoreOp) \<Rightarrow> call" where
  "callInt len i f env args =
     (if length args \<noteq> len then None else map_option (f args) (ParseInt (args ! i)))"

definition callRange :: "(string \<Rightarrow> int \<Rightarrow> int \<Rightarrow> StoreOp) \<Rightarrow> call" where
  "callRange f env args =
     (if length args \<noteq> 4 then None
      else
        case (ParseInt (args ! 2), ParseInt (args ! 3)) of
          (Some start, Some stop) \<Rightarrow> Some (f (args ! 1) start stop)
        | _ \<Rightarrow> None)"

definition callPop :: "(string \<Rightarrow> int \<Rightarrow> StoreOp) \<Rightarrow> call" where
  "callPop f env args =
     (if length args < 2 \<or> 3 < length args then None else map_option (f (args ! 1)) (popCount args))"

definition callInsert :: call where
  "callInsert env args =
     (let place = toUpper (args ! 2)
      in whenArgs (length args = 5 \<and> (place = ''BEFORE'' \<or> place = ''AFTER''))
           (OnList (DoLInsert (args ! 1) (place = ''BEFORE'') (args ! 3) (args ! 4))))"

definition callMove :: call where
  "callMove env args =
     (if length args \<noteq> 5 then None
      else
        case (endOf (args ! 3), endOf (args ! 4)) of
          (Some srcLeft, Some dstLeft) \<Rightarrow> Some (OnList (DoLMove (args ! 1) (args ! 2) srcLeft dstLeft))
        | _ \<Rightarrow> None)"

text \<open>The sorted sets: scores and score bounds are numbers, ranges take options.\<close>

definition callZAdd :: call where
  "callZAdd env args =
     (let (f, rest) =
            zaddOptions (drop 2 args) \<lparr>za_nx = False, za_xx = False, za_gt = False, za_lt = False, za_ch = False\<rparr>
      in if length args < 4 \<or> za_nx f \<and> (za_xx f \<or> za_gt f \<or> za_lt f) \<or> length rest mod 2 \<noteq> 0 \<or> rest = [] then None
         else
           map_option (\<lambda>ms. OnZSet (DoZAdd (args ! 1) ms (za_nx f) (za_xx f) (za_gt f) (za_lt f) (za_ch f)))
             (zaddMembers rest))"

definition callZIncrBy :: call where
  "callZIncrBy env args =
     (if length args \<noteq> 4 then None
      else map_option (\<lambda>inc. OnZSet (DoZIncrBy (args ! 1) inc (args ! 3))) (parseScore (args ! 2)))"

definition boundsOf :: "string list \<Rightarrow> (float64 \<Rightarrow> float64 \<Rightarrow> bool \<Rightarrow> bool \<Rightarrow> StoreOp) \<Rightarrow> StoreOp option" where
  "boundsOf args f =
     (case (parseScoreBound (args ! 2), parseScoreBound (args ! 3)) of
        (Some (x, xExcl), Some (y, yExcl)) \<Rightarrow> Some (f x y xExcl yExcl)
      | _ \<Rightarrow> None)"

definition callZCount :: call where
  "callZCount env args =
     (if length args \<noteq> 4 then None else boundsOf args (\<lambda>lo hi loExcl hiExcl. OnZSet (DoZCount (args ! 1) lo hi loExcl hiExcl)))"

definition callByScore :: "(string \<Rightarrow> float64 \<Rightarrow> float64 \<Rightarrow> bool \<Rightarrow> bool \<Rightarrow> bool \<Rightarrow> int \<Rightarrow> int \<Rightarrow> ZSetOp) \<Rightarrow> call" where
  "callByScore f env args =
     (if length args < 4 then None
      else
        case scoreOptions (drop 4 args) noRangeOpts of
          Inl _ \<Rightarrow> None
        | Inr z \<Rightarrow>
            boundsOf args (\<lambda>x y xExcl yExcl. OnZSet (f (args ! 1) x y xExcl yExcl (zr_withScores z) (zr_offset z) (zr_count z))))"

definition callByLex :: call where
  "callByLex env args =
     (if length args < 4 then None
      else
        case lexOptions (drop 4 args) noRangeOpts of
          Inl _ \<Rightarrow> None
        | Inr z \<Rightarrow> Some (OnZSet (DoZRangeByLex (args ! 1) (args ! 2) (args ! 3) (zr_offset z) (zr_count z))))"

definition callZRange :: call where
  "callZRange env args =
     (if length args < 4 then None
      else
        case zrangeOptions (drop 4 args) noRangeOpts of
          Inl _ \<Rightarrow> None
        | Inr z \<Rightarrow>
            let key = args ! 1; a = args ! 2; b = args ! 3; scs = zr_withScores z; off = zr_offset z; cnt = zr_count z
            in if zr_byLex z then
                 Some (OnZSet (if zr_rev z then DoZRangeByLex key b a off cnt else DoZRangeByLex key a b off cnt))
               else if zr_byScore z then
                 boundsOf args (\<lambda>x y xExcl yExcl.
                   OnZSet (if zr_rev z then DoZRevRangeByScore key x y xExcl yExcl scs off cnt
                           else DoZRangeByScore key x y xExcl yExcl scs off cnt))
               else
                 case (ParseInt a, ParseInt b) of
                   (Some start, Some stop) \<Rightarrow> Some (OnZSet (DoZRange key start stop (zr_rev z) scs))
                 | _ \<Rightarrow> None)"

definition callZRevRange :: call where
  "callZRevRange env args =
     (if length args < 4 then None
      else
        case (ParseInt (args ! 2), ParseInt (args ! 3)) of
          (Some start, Some stop) \<Rightarrow>
            Some (OnZSet (DoZRange (args ! 1) start stop True (length args = 5 \<and> toUpper (args ! 4) = ''WITHSCORES'')))
        | _ \<Rightarrow> None)"

definition exactly :: "nat \<Rightarrow> (string list \<Rightarrow> StoreOp) \<Rightarrow> call" where
  "exactly n f env args = whenArgs (length args = n) (f args)"

definition atLeast' :: "nat \<Rightarrow> (string list \<Rightarrow> StoreOp) \<Rightarrow> call" where
  "atLeast' n f env args = whenArgs (n \<le> length args) (f args)"

definition calls :: "(string \<times> call) list" where
  "calls =
     [(''SET'', callSet),
      (''GET'', exactly 2 (\<lambda>a. OnKeys (DoGet (a ! 1)))),
      (''GETEX'', callGetEX),
      (''DEL'', atLeast' 2 (\<lambda>a. OnKeys (DoDel (drop 1 a)))),
      (''EXISTS'', atLeast' 2 (\<lambda>a. OnKeys (DoExists (drop 1 a)))),
      (''KEYS'', \<lambda>env a. whenArgs (length a = 2 \<and> \<not> MatchErr (a ! 1) []) (OnKeys (DoKeys (a ! 1)))),
      (''SETEX'', callSetEX Second), (''PSETEX'', callSetEX Millisecond),
      (''EXPIRE'', callExpire Second), (''PEXPIRE'', callExpire Millisecond),
      (''PERSIST'', exactly 2 (\<lambda>a. OnKeys (DoPersist (a ! 1)))),
      (''HSET'', \<lambda>env a. whenArgs (4 \<le> length a \<and> (length a - 2) mod 2 = 0) (OnHash (DoHSet (a ! 1) (pairFields (drop 2 a) [])))),
      (''HMSET'', \<lambda>env a. whenArgs (4 \<le> length a \<and> (length a - 2) mod 2 = 0) (OnHash (DoHSet (a ! 1) (pairFields (drop 2 a) [])))),
      (''HGET'', exactly 3 (\<lambda>a. OnHash (DoHGet (a ! 1) (a ! 2)))),
      (''HDEL'', atLeast' 3 (\<lambda>a. OnHash (DoHDel (a ! 1) (drop 2 a)))),
      (''HGETALL'', exactly 2 (\<lambda>a. OnHash (DoHGetAll (a ! 1)))),
      (''HLEN'', exactly 2 (\<lambda>a. OnHash (DoHLen (a ! 1)))),
      (''HEXISTS'', exactly 3 (\<lambda>a. OnHash (DoHExists (a ! 1) (a ! 2)))),
      (''HKEYS'', exactly 2 (\<lambda>a. OnHash (DoHKeys (a ! 1)))),
      (''HVALS'', exactly 2 (\<lambda>a. OnHash (DoHVals (a ! 1)))),
      (''LPUSH'', atLeast' 3 (\<lambda>a. OnList (DoLPush (a ! 1) (drop 2 a)))),
      (''RPUSH'', atLeast' 3 (\<lambda>a. OnList (DoRPush (a ! 1) (drop 2 a)))),
      (''LPOP'', callPop (\<lambda>k n. OnList (DoLPop k n))), (''RPOP'', callPop (\<lambda>k n. OnList (DoRPop k n))),
      (''LLEN'', exactly 2 (\<lambda>a. OnList (DoLLen (a ! 1)))),
      (''LRANGE'', callRange (\<lambda>k i j. OnList (DoLRange k i j))),
      (''LINDEX'', callInt 3 2 (\<lambda>a i. OnList (DoLIndex (a ! 1) i))),
      (''LSET'', callInt 4 2 (\<lambda>a i. OnList (DoLSet (a ! 1) i (a ! 3)))),
      (''LINSERT'', callInsert),
      (''LREM'', callInt 4 2 (\<lambda>a n. OnList (DoLRem (a ! 1) n (a ! 3)))),
      (''LTRIM'', callRange (\<lambda>k i j. OnList (DoLTrim k i j))),
      (''LMOVE'', callMove),
      (''RPOPLPUSH'', exactly 3 (\<lambda>a. OnList (DoLMove (a ! 1) (a ! 2) False True))),
      (''SADD'', atLeast' 3 (\<lambda>a. OnSet (DoSAdd (a ! 1) (drop 2 a)))),
      (''SREM'', atLeast' 3 (\<lambda>a. OnSet (DoSRem (a ! 1) (drop 2 a)))),
      (''SMEMBERS'', exactly 2 (\<lambda>a. OnSet (DoSMembers (a ! 1)))),
      (''SCARD'', exactly 2 (\<lambda>a. OnSet (DoSCard (a ! 1)))),
      (''SISMEMBER'', exactly 3 (\<lambda>a. OnSet (DoSIsMember (a ! 1) (a ! 2)))),
      (''SMISMEMBER'', atLeast' 3 (\<lambda>a. OnSet (DoSMIsMember (a ! 1) (drop 2 a)))),
      (''SINTER'', atLeast' 2 (\<lambda>a. OnSet (DoSInter (drop 1 a)))),
      (''SUNION'', atLeast' 2 (\<lambda>a. OnSet (DoSUnion (drop 1 a)))),
      (''SDIFF'', atLeast' 2 (\<lambda>a. OnSet (DoSDiff (drop 1 a)))),
      (''SINTERSTORE'', atLeast' 3 (\<lambda>a. OnSet (DoSInterStore (a ! 1) (drop 2 a)))),
      (''SUNIONSTORE'', atLeast' 3 (\<lambda>a. OnSet (DoSUnionStore (a ! 1) (drop 2 a)))),
      (''SDIFFSTORE'', atLeast' 3 (\<lambda>a. OnSet (DoSDiffStore (a ! 1) (drop 2 a)))),
      (''SMOVE'', exactly 4 (\<lambda>a. OnSet (DoSMove (a ! 1) (a ! 2) (a ! 3)))),
      (''ZADD'', callZAdd),
      (''ZREM'', atLeast' 3 (\<lambda>a. OnZSet (DoZRem (a ! 1) (drop 2 a)))),
      (''ZSCORE'', exactly 3 (\<lambda>a. OnZSet (DoZScore (a ! 1) (a ! 2)))),
      (''ZCARD'', exactly 2 (\<lambda>a. OnZSet (DoZCard (a ! 1)))),
      (''ZRANK'', exactly 3 (\<lambda>a. OnZSet (DoZRank (a ! 1) (a ! 2)))),
      (''ZREVRANK'', exactly 3 (\<lambda>a. OnZSet (DoZRevRank (a ! 1) (a ! 2)))),
      (''ZINCRBY'', callZIncrBy), (''ZRANGE'', callZRange), (''ZREVRANGE'', callZRevRange),
      (''ZRANGEBYSCORE'', callByScore DoZRangeByScore), (''ZREVRANGEBYSCORE'', callByScore DoZRevRangeByScore),
      (''ZRANGEBYLEX'', callByLex), (''ZCOUNT'', callZCount),
      (''ZLEXCOUNT'', exactly 4 (\<lambda>a. OnZSet (DoZLexCount (a ! 1) (a ! 2) (a ! 3)))),
      (''ZPOPMIN'', callPop (\<lambda>k n. OnZSet (DoZPopMin k n))), (''ZPOPMAX'', callPop (\<lambda>k n. OnZSet (DoZPopMax k n))),
      (''DBSIZE'', exactly 1 (\<lambda>a. OnKeys DoLen)),
      (''FLUSHDB'', exactly 1 (\<lambda>a. OnKeys DoFlush)), (''FLUSHALL'', exactly 1 (\<lambda>a. OnKeys DoFlush))]"

definition callOf :: call where
  "callOf env args = (if args = [] then None
     else case map_of calls (toUpper (args ! 0)) of None \<Rightarrow> None | Some call \<Rightarrow> call env args)"

section \<open>The handlers make these calls\<close>

text \<open>The only error most methods know is \<^verbatim>\<open>ErrWrongType\<close>, so nothing is lost in the reply.\<close>

definition plainErr :: "error + 'a \<Rightarrow> bool" where
  "plainErr r \<longleftrightarrow> (\<forall>m. r \<noteq> Inl (Errorf m))"

lemma plainErr_simps [simp]:
  "plainErr (Inr x)" "plainErr (Inl e) \<longleftrightarrow> e = ErrWrongType" "plainErr (map_sum id f r) \<longleftrightarrow> plainErr r"
  by (cases e; simp add: plainErr_def) (cases e; cases r; simp add: plainErr_def)+

lemma plainErr_get [simp]: "plainErr (getList now key s)" "plainErr (getSet now key s)" "plainErr (getZSet now key s)"
  by (simp_all add: getList_def getSet_def getZSet_def Let_def)

lemma says_reply:
  assumes "plainErr r" and "\<And>x. says w (g x) (f x)"
  shows "says w (orErr g r) (orWrongType z f r)"
proof (cases r)
  case (Inl e)
  then show ?thesis using assms(1) by (cases e) (simp_all add: orWrongType_def plainErr_def)
qed (simp add: orWrongType_def assms(2))

lemma get_Inl [dest!]:
  "getList now key s = Inl e \<Longrightarrow> e = ErrWrongType" "getSet now key s = Inl e \<Longrightarrow> e = ErrWrongType"
  "getZSet now key s = Inl e \<Longrightarrow> e = ErrWrongType"
  by (auto simp: getList_def getSet_def getZSet_def Let_def split: if_splits)

lemma plainErr_list [simp]:
  "plainErr (snd (LPush now key vals s))" "plainErr (snd (RPush now key vals s))" "plainErr (LLen now key s)"
  "plainErr (LRange now key start stop s)" "plainErr (LIndex now key i s)" "plainErr (snd (LInsert now key before p v s))"
  "plainErr (snd (LRem now key cnt v s))" "plainErr (snd (LMove now src dst a b s))"
  by (auto simp: LPush_def RPush_def LLen_def LRange_def LIndex_def LInsert_def LRem_def LMove_def Let_def
      split: sum.split option.split prod.split)

lemma plainErr_keep: "(\<And>m. plainErr (test m)) \<Longrightarrow> plainErr (keepMembers test ms)"
proof (induction ms)
  case (Cons m ms)
  then show ?case using Cons.prems [of m] by (cases "test m") simp_all
qed simp

lemma plainErr_loops: "plainErr (inAll now m ks s)" "plainErr (inOther now m ks s)" "plainErr (unionLoop now ks s acc)"
  by (induction ks arbitrary: acc) (auto split: sum.split)

lemma plainErr_set [simp]:
  "plainErr (snd (SAdd now key ms s))" "plainErr (snd (SRem now key ms s))" "plainErr (SMembers now key s)"
  "plainErr (SCard now key s)" "plainErr (SIsMember now key x s)" "plainErr (SMIsMember now key ms s)"
  "plainErr (snd (SMove now src dst x s))" "plainErr (setInter now keys s)" "plainErr (setUnion now keys s)" "plainErr (setDiff now keys s)"
  by (auto simp: SAdd_def SRem_def SMembers_def SCard_def SIsMember_def SMIsMember_def SMove_def setInter_def setUnion_def
      setDiff_def Let_def plainErr_loops intro!: plainErr_keep split: sum.split prod.split list.split)

lemma plainErr_storeResult [simp]: "plainErr r \<Longrightarrow> plainErr (snd (storeResult dst r s))"
  by (auto simp: storeResult_def Let_def plainErr_def split: sum.split)

lemma plainErr_zset [simp]:
  "plainErr (snd (ZRem now key ms s))" "plainErr (ZScore now key x s)" "plainErr (ZRank now key x s)"
  "plainErr (ZRevRank now key x s)" "plainErr (ZLexCount now key lo hi s)" "plainErr (ZRangeByLex now key lo hi offset cnt s)"
  by (auto simp: ZRem_def ZScore_def ZRank_def ZRevRank_def ZLexCount_def ZRangeByLex_def Let_def
      split: sum.split prod.split option.split)

lemma plainErr_zrange [simp]:
  "plainErr (snd (ZAdd now key ms nx xx gt lt ch s))" "plainErr (snd (ZIncrBy now key inc x s))"
  "plainErr (ZRange now key start stop reverse scs s)" "plainErr (ZCount now key a b aExcl bExcl s)"
  "plainErr (ZRangeByScore now key a b aExcl bExcl scs offset cnt s)"
  "plainErr (ZRevRangeByScore now key a b aExcl bExcl scs offset cnt s)"
  by (auto simp: ZAdd_def ZIncrBy_def ZRange_def ZRangeByScore_def ZRevRangeByScore_def ZCount_def Let_def
      split: sum.split prod.split option.split)

lemma pop_plain:
  "LPop now key cnt s = Ret (s', r) \<Longrightarrow> plainErr r" "RPop now key cnt s = Ret (s', r) \<Longrightarrow> plainErr r"
  "ZPopMin now key cnt s = Ret (s', p) \<Longrightarrow> plainErr p" "ZPopMax now key cnt s = Ret (s', p) \<Longrightarrow> plainErr p"
  "ZCard now key s = Ret q \<Longrightarrow> plainErr q"
  by (auto simp: LPop_def RPop_def ZPopMin_def ZPopMax_def popMembers_def ZCard_def Let_def
      split: sum.splits option.splits if_splits)

lemma answersI:
  assumes "\<And>env args s c. call env args = Some c \<Longrightarrow>
    case runOp (clock env) c s of
      Panic \<Rightarrow> h env args s = Panic
    | Ret (s', a) \<Rightarrow> \<exists>resp. h env args s = Ret (s', resp) \<and> says (length args = 3) a resp"
  shows "answers h call"
  using assms by (auto simp: answers_def)

lemma answersD:
  assumes "answers h call" and "call env args = Some c" and "runOp (clock env) c s = Ret (s', a)"
  obtains resp where "h env args s = Ret (s', resp)" "says (length args = 3) a resp"
  using assms(1) [unfolded answers_def, rule_format, OF assms(2), of s] assms(3) that by auto

lemma says_replyOf:
  "plainErr (snd p) \<Longrightarrow> (\<And>x. says w (g x) (f x)) \<Longrightarrow>
     case map_prod id (orErr g) p of (s', a) \<Rightarrow> \<exists>resp. replyOf z f p = Ret (s', resp) \<and> says w a resp"
  by (cases p) (simp add: replyOf_def says_reply)

lemmas call_defs = exactly_def atLeast'_def callSet_def callSetEX_def callExpire_def callGetEX_def callInt_def callRange_def
  callPop_def callInsert_def callMove_def callZAdd_def callZIncrBy_def boundsOf_def callZCount_def callByScore_def callByLex_def
  callZRange_def callZRevRange_def

lemma answers_keys [answer_intros]:
  "answers handleSet callSet"
  "answers handleGet (exactly 2 (\<lambda>a. OnKeys (DoGet (a ! 1))))"
  "answers handleGetEX callGetEX"
  "answers handleDel (atLeast' 2 (\<lambda>a. OnKeys (DoDel (drop 1 a))))"
  "answers handleExists (atLeast' 2 (\<lambda>a. OnKeys (DoExists (drop 1 a))))"
  "answers handleKeys (\<lambda>env a. whenArgs (length a = 2 \<and> \<not> MatchErr (a ! 1) []) (OnKeys (DoKeys (a ! 1))))"
  "answers handleSetEX (callSetEX Second)" "answers handlePSetEX (callSetEX Millisecond)"
  "answers handleExpire (callExpire Second)" "answers handlePExpire (callExpire Millisecond)"
  "answers handlePersist (exactly 2 (\<lambda>a. OnKeys (DoPersist (a ! 1))))"
  "answers handleDBSize (exactly 1 (\<lambda>a. OnKeys DoLen))"
  "answers handleFlushDB (exactly 1 (\<lambda>a. OnKeys DoFlush))" "answers handleFlushAll (exactly 1 (\<lambda>a. OnKeys DoFlush))"
  by (rule answersI; auto simp: call_defs handleSet_def handleGet_def handleGetEX_def handleDel_def handleExists_def handleKeys_def
      handleSetEX_def handlePSetEX_def handleExpire_def handlePExpire_def handlePersist_def handleDBSize_def
      handleFlushDB_def handleFlushAll_def case_prod_beta Let_def split: if_splits sum.splits option.splits)+

lemma answers_hash [answer_intros]:
  "answers handleHSet (\<lambda>env a. whenArgs (4 \<le> length a \<and> (length a - 2) mod 2 = 0) (OnHash (DoHSet (a ! 1) (pairFields (drop 2 a) []))))"
  "answers handleHGet (exactly 3 (\<lambda>a. OnHash (DoHGet (a ! 1) (a ! 2))))"
  "answers handleHDel (atLeast' 3 (\<lambda>a. OnHash (DoHDel (a ! 1) (drop 2 a))))"
  "answers handleHGetAll (exactly 2 (\<lambda>a. OnHash (DoHGetAll (a ! 1))))"
  "answers handleHLen (exactly 2 (\<lambda>a. OnHash (DoHLen (a ! 1))))"
  "answers handleHExists (exactly 3 (\<lambda>a. OnHash (DoHExists (a ! 1) (a ! 2))))"
  "answers handleHKeys (exactly 2 (\<lambda>a. OnHash (DoHKeys (a ! 1))))"
  "answers handleHVals (exactly 2 (\<lambda>a. OnHash (DoHVals (a ! 1))))"
  by (rule answersI; auto simp: call_defs handleHSet_def handleHGet_def handleHDel_def handleHGetAll_def handleHLen_def
      handleHExists_def handleHKeys_def handleHVals_def case_prod_beta Let_def split: if_splits)+

text \<open>\<open>LSET\<close> and \<open>LTRIM\<close> print whatever error the store gives.\<close>

lemma says_errorText: "says w (AErr e) (Error (errorText e))"
  by (cases e) (simp_all add: errorText_def wrongType_def)

lemma says_unit:
  "map_prod id (orErr (\<lambda>_. AUnit)) p = (s', a) \<Longrightarrow>
     \<exists>resp. (case p of (s, Inl e) \<Rightarrow> Ret (s, Error (errorText e)) | (s, Inr _) \<Rightarrow> Ret (s, okReply)) = Ret (s', resp) \<and> says w a resp"
  by (cases p; cases "snd p") (auto simp: says_errorText)

lemma answers_list [answer_intros]:
  "answers handleLPush (atLeast' 3 (\<lambda>a. OnList (DoLPush (a ! 1) (drop 2 a))))"
  "answers handleRPush (atLeast' 3 (\<lambda>a. OnList (DoRPush (a ! 1) (drop 2 a))))"
  "answers handleLLen (exactly 2 (\<lambda>a. OnList (DoLLen (a ! 1))))"
  "answers handleLRange (callRange (\<lambda>k i j. OnList (DoLRange k i j)))"
  "answers handleLIndex (callInt 3 2 (\<lambda>a i. OnList (DoLIndex (a ! 1) i)))"
  "answers handleLInsert callInsert"
  "answers handleLRem (callInt 4 2 (\<lambda>a n. OnList (DoLRem (a ! 1) n (a ! 3))))"
  "answers handleLMove callMove"
  "answers handleRPopLPush (exactly 3 (\<lambda>a. OnList (DoLMove (a ! 1) (a ! 2) False True)))"
  by (rule answersI; auto simp: call_defs handleLPush_def handleRPush_def handleLLen_def handleLRange_def handleLIndex_def
      handleLInsert_def handleLRem_def handleLMove_def handleRPopLPush_def replyOf_def case_prod_beta Let_def
      intro!: says_reply split: if_splits option.splits)+

lemma answers_list_unit [answer_intros]:
  "answers handleLSet (callInt 4 2 (\<lambda>a i. OnList (DoLSet (a ! 1) i (a ! 3))))"
  "answers handleLTrim (callRange (\<lambda>k i j. OnList (DoLTrim k i j)))"
  by (rule answersI; auto simp: call_defs handleLSet_def handleLTrim_def Let_def intro!: says_unit simp del: says.simps
      split: if_splits option.splits)+

lemma answers_pop [answer_intros]:
  "answers handleLPop (callPop (\<lambda>k n. OnList (DoLPop k n)))" "answers handleRPop (callPop (\<lambda>k n. OnList (DoRPop k n)))"
  "answers handleZPopMin (callPop (\<lambda>k n. OnZSet (DoZPopMin k n)))" "answers handleZPopMax (callPop (\<lambda>k n. OnZSet (DoZPopMax k n)))"
  "answers handleZCard (exactly 2 (\<lambda>a. OnZSet (DoZCard (a ! 1))))"
  by (rule answersI; auto simp: call_defs handleLPop_def handleRPop_def handleZPopMin_def handleZPopMax_def handleZCard_def replyOf_def
      intro!: says_reply dest: pop_plain split: if_splits option.splits go.splits)+

lemma answers_set [answer_intros]:
  "answers handleSAdd (atLeast' 3 (\<lambda>a. OnSet (DoSAdd (a ! 1) (drop 2 a))))"
  "answers handleSRem (atLeast' 3 (\<lambda>a. OnSet (DoSRem (a ! 1) (drop 2 a))))"
  "answers handleSMembers (exactly 2 (\<lambda>a. OnSet (DoSMembers (a ! 1))))"
  "answers handleSCard (exactly 2 (\<lambda>a. OnSet (DoSCard (a ! 1))))"
  "answers handleSIsMember (exactly 3 (\<lambda>a. OnSet (DoSIsMember (a ! 1) (a ! 2))))"
  "answers handleSMIsMember (atLeast' 3 (\<lambda>a. OnSet (DoSMIsMember (a ! 1) (drop 2 a))))"
  "answers handleSInter (atLeast' 2 (\<lambda>a. OnSet (DoSInter (drop 1 a))))"
  "answers handleSUnion (atLeast' 2 (\<lambda>a. OnSet (DoSUnion (drop 1 a))))"
  "answers handleSDiff (atLeast' 2 (\<lambda>a. OnSet (DoSDiff (drop 1 a))))"
  "answers handleSInterStore (atLeast' 3 (\<lambda>a. OnSet (DoSInterStore (a ! 1) (drop 2 a))))"
  "answers handleSUnionStore (atLeast' 3 (\<lambda>a. OnSet (DoSUnionStore (a ! 1) (drop 2 a))))"
  "answers handleSDiffStore (atLeast' 3 (\<lambda>a. OnSet (DoSDiffStore (a ! 1) (drop 2 a))))"
  "answers handleSMove (exactly 4 (\<lambda>a. OnSet (DoSMove (a ! 1) (a ! 2) (a ! 3))))"
  by (rule answersI; auto simp: call_defs handleSAdd_def handleSRem_def handleSMembers_def handleSCard_def handleSIsMember_def
      handleSMIsMember_def handleSInter_def handleSUnion_def handleSDiff_def handleSInterStore_def handleSUnionStore_def
      handleSDiffStore_def handleSMove_def SInter_def SUnion_def SDiff_def SInterStore_def SUnionStore_def SDiffStore_def
      replyOf_def case_prod_beta intro!: says_reply split: if_splits)+

lemma answers_zset [answer_intros]:
  "answers handleZRem (atLeast' 3 (\<lambda>a. OnZSet (DoZRem (a ! 1) (drop 2 a))))"
  "answers handleZScore (exactly 3 (\<lambda>a. OnZSet (DoZScore (a ! 1) (a ! 2))))"
  "answers handleZRank (exactly 3 (\<lambda>a. OnZSet (DoZRank (a ! 1) (a ! 2))))"
  "answers handleZRevRank (exactly 3 (\<lambda>a. OnZSet (DoZRevRank (a ! 1) (a ! 2))))"
  "answers handleZLexCount (exactly 4 (\<lambda>a. OnZSet (DoZLexCount (a ! 1) (a ! 2) (a ! 3))))"
  by (rule answersI; auto simp: call_defs handleZRem_def handleZScore_def handleZRank_def handleZRevRank_def handleZLexCount_def
      replyOf_def case_prod_beta intro!: says_reply split: if_splits)+

lemma answers_zrange [answer_intros]:
  "answers handleZAdd callZAdd" "answers handleZIncrBy callZIncrBy" "answers handleZRange callZRange"
  "answers handleZRevRange callZRevRange" "answers handleZRangeByScore (callByScore DoZRangeByScore)"
  "answers handleZRevRangeByScore (callByScore DoZRevRangeByScore)" "answers handleZRangeByLex callByLex"
  "answers handleZCount callZCount"
  by (rule answersI; auto simp: call_defs handleZAdd_def handleZIncrBy_def handleZRange_def handleZRevRange_def
      handleZRangeByScore_def handleZRevRangeByScore_def handleZRangeByLex_def handleZCount_def replyOf_def bulkOrNull_def case_prod_beta Let_def
      intro!: says_reply split: if_splits option.splits sum.splits)+

section \<open>Every command of the table\<close>

text \<open>The table lists its commands in the order of the registry, so one walk along both pairs them up.\<close>

fun covers :: "(string \<times> handler) list \<Rightarrow> (string \<times> call) list \<Rightarrow> bool" where
  "covers hs [] \<longleftrightarrow> True"
| "covers [] (c # cs) \<longleftrightarrow> False"
| "covers ((n, h) # hs) ((m, call) # cs) \<longleftrightarrow>
     (if n = m then answers h call \<and> covers hs cs else covers hs ((m, call) # cs))"

lemma covers_member: "covers hs cs \<Longrightarrow> (n, call) \<in> set cs \<Longrightarrow> \<exists>h. (n, h) \<in> set hs \<and> answers h call"
  by (induction hs cs rule: covers.induct) (auto split: if_splits)

lemma calls_covered: "covers storeHandlers calls"
  by (simp add: calls_def storeHandlers_def answer_intros del: One_nat_def)

lemma storeHandlers_distinct: "distinct (map fst storeHandlers)" "''PUBLISH'' \<notin> set (map fst storeHandlers)"
  by (simp_all add: storeHandlers_def)

lemma calls_handler:
  assumes "map_of calls n = Some call"
  obtains h where "n \<noteq> ''PUBLISH''" "map_of storeHandlers n = Some h" "answers h call"
proof -
  obtain h where h: "(n, h) \<in> set storeHandlers" "answers h call"
    using covers_member [OF calls_covered map_of_SomeD [OF assms]] by blast
  moreover have "n \<noteq> ''PUBLISH''" using h(1) storeHandlers_distinct(2) by force
  ultimately show thesis using that storeHandlers_distinct(1) by simp
qed

text \<open>A dispatched command runs its call and sends the reply the answer stands for.\<close>

lemma Dispatch_call:
  assumes c: "callOf env args = Some c" and run: "runOp (clock env) c (rstore r) = Ret (s', a)"
  obtains resp recs where "Dispatch pub env args r = Ret (r\<lparr>rstore := s', raof := map_option (AppendAll recs) (raof r)\<rparr>, resp)"
    "says (length args = 3) a resp"
proof -
  from c obtain call where args: "args \<noteq> []" and call: "map_of calls (toUpper (args ! 0)) = Some call" "call env args = Some c"
    by (auto simp: callOf_def split: if_splits option.splits)
  obtain h where h: "toUpper (args ! 0) \<noteq> ''PUBLISH''" "map_of storeHandlers (toUpper (args ! 0)) = Some h" "answers h call"
    using calls_handler [OF call(1)] .
  obtain resp where run: "h env args (rstore r) = Ret (s', resp)" and says: "says (length args = 3) a resp"
    using answersD [OF h(3) call(2) run] .
  let ?recs = "if isError resp then [] else appendToAOF (clock env) (toUpper (args ! 0)) args resp s'"
  have "handlers pub (toUpper (args ! 0)) = Some (onStore h)" using h(1,2) by (simp add: handlers_def)
  moreover have "onStore h env args (rstore r, rpub r) = Ret ((s', rpub r), resp)" using run by (simp add: onStore_def)
  ultimately have "Dispatch pub env args r = Ret (r\<lparr>rstore := s', raof := map_option (AppendAll ?recs) (raof r)\<rparr>, resp)"
    using args unfolding Dispatch_def Let_def by simp
  then show thesis using says by (rule that)
qed

section \<open>A command seen by its client\<close>


definition bareRouter :: "unit Router" where
  "bareRouter = \<lparr>rstore = NewMemoryStore, raof = None, rpub = ()\<rparr>"


end
