(* ===== verification/Spec2Isabelle.thy ===== *)
theory Spec2Isabelle
  imports RouterProps Startup Watch Integrity CmdContract
begin

text \<open>
  A verification development of go-redis, a Redis server in Go.

  \<^bold>\<open>The program.\<close>  \<^verbatim>\<open>cmd/server/main.go\<close> reads the flags (\<^verbatim>\<open>internal/config\<close>), replays the append-only file into a new
  in-memory store (\<^verbatim>\<open>internal/persistence\<close>, \<^verbatim>\<open>internal/storage\<close>), builds the command router (\<^verbatim>\<open>internal/commands\<close>) and the
  publish/subscribe broker (\<^verbatim>\<open>internal/pubsub\<close>), starts the sweeper of expired keys and runs the TCP server
  (\<^verbatim>\<open>internal/server\<close>).  Each connection has a handler that reads RESP commands (\<^verbatim>\<open>internal/protocol\<close>), keeps the
  state of a transaction and of its subscriptions, and sends every data command to the router.  The router
  runs the command's handler on the store and appends the resulting records to the file.

  \<^bold>\<open>Conventions.\<close>  A Go map is an association list with distinct keys whose order stands for the order of
  iteration; \<^verbatim>\<open>int\<close> and \<^verbatim>\<open>int64\<close> are integers with the wrap-around written out (\<open>wrap64\<close>), version counters are
  64-bit words, a time is a number of nanoseconds.  A panic is the value \<open>Panic\<close> of the type \<open>go\<close>, an error is
  the left side of a sum.  What a command reads from its surroundings, the clock, random draws, facts of the
  process, is the record \<open>Env\<close>.

  \<^bold>\<open>The theories.\<close>
  \<^item> \<^emph>\<open>Go itself.\<close>  \<^verbatim>\<open>GoPrelude\<close> (maps, panics, shared lemmas), \<^verbatim>\<open>GoLib\<close> (\<^verbatim>\<open>strconv\<close>, \<^verbatim>\<open>strings\<close>, \<^verbatim>\<open>time\<close>), \<^verbatim>\<open>GoSort\<close>
    (\<^verbatim>\<open>sort\<close>, through the interface \<open>comparator\<close>), \<^verbatim>\<open>GoGlob\<close> (\<^verbatim>\<open>filepath.Match\<close>), \<^verbatim>\<open>Float64\<close> and \<^verbatim>\<open>FloatText\<close> (\<^verbatim>\<open>float64\<close>,
    its parsing and printing), \<^verbatim>\<open>Ranges\<close> (slices with bounds from the end).
  \<^item> \<^emph>\<open>Protocol.\<close>  \<^verbatim>\<open>Protocol\<close> and \<^verbatim>\<open>Parser\<close>: \<^verbatim>\<open>types.go\<close>, \<^verbatim>\<open>serializer.go\<close>, \<^verbatim>\<open>parser.go\<close>.  Replies and commands are both
    instances of the interface \<open>stream_codec\<close>: round trip, unambiguity, torn input, termination.
  \<^item> \<^emph>\<open>Store.\<close>  \<^verbatim>\<open>Store\<close>, \<^verbatim>\<open>StoreHash\<close>, \<^verbatim>\<open>StoreList\<close>, \<^verbatim>\<open>StoreSet\<close>, \<^verbatim>\<open>StoreZSet\<close>, \<^verbatim>\<open>StoreScan\<close>: every method of \<^verbatim>\<open>memory.go\<close>, one
    definition each, on the record \<open>MemoryStore\<close>.  \<^verbatim>\<open>Keyspace\<close> has the representation invariant \<open>wf_store\<close> (a key
    has one type, no container is empty, deadlines belong to keys), what a key reads as (\<open>entry\<close>, \<open>live\<close>) and
    that each operation keeps the invariant and changes the reading as it should; the sweeper deletes
    exactly the expired keys, a scan visits every key once.
  \<^item> \<^emph>\<open>Contract of the store.\<close>  \<^verbatim>\<open>StoreSpec\<close> turns the comments of the interface in \<^verbatim>\<open>store.go\<close> into an abstract machine
    over one map from keys to values.  \<^verbatim>\<open>StoreRefine\<close> shows method by method that \<^verbatim>\<open>memory.go\<close> implements it, with
    the interface \<open>container_type\<close> for what lists, sets and sorted sets share; \<^verbatim>\<open>StoreContract\<close> carries this to
    every sequence of calls (interface \<open>timed_implementation\<close>).  A method is called within its contract when
    \<open>fitOp\<close> holds; where the code and the comments part (an expired key not yet swept, a hash written over
    another type, and so on) \<open>fitOp\<close> says so.
  \<^item> \<^emph>\<open>Commands.\<close>  \<^verbatim>\<open>CmdBase\<close>, \<^verbatim>\<open>CmdString\<close>, \<^verbatim>\<open>CmdHash\<close>, \<^verbatim>\<open>CmdList\<close>, \<^verbatim>\<open>CmdSet\<close>, \<^verbatim>\<open>CmdZSet\<close>, \<^verbatim>\<open>CmdServer\<close>: every handler of
    \<^verbatim>\<open>internal/commands\<close>, with its contracts (leaves the store alone, leaves it alone when it answers an error, does
    not panic) in collections of facts.  \<^verbatim>\<open>Router\<close>: the registry, \<^verbatim>\<open>Dispatch\<close> and \<^verbatim>\<open>appendToAOF\<close>.  \<^verbatim>\<open>RouterProps\<close> states
    the contracts for the dispatcher, \<^verbatim>\<open>Integrity\<close> that commands keep \<open>wf_store\<close>, \<^verbatim>\<open>CmdContract\<close> that sixty-five
    commands do to the store, and answer on the wire, what the contract of the store says.
  \<^item> \<^emph>\<open>Persistence.\<close>  \<^verbatim>\<open>Aof\<close> and \<^verbatim>\<open>Replay\<close>: \<^verbatim>\<open>aof.go\<close>, \<^verbatim>\<open>replay.go\<close>.  \<^verbatim>\<open>Durability\<close> compares each command with the records
    it writes; \<^verbatim>\<open>Restart\<close> carries this to runs, files and crashes (interface \<open>journal\<close>).  It holds for the commands
    \<open>durable\<close> names; for others the theory has the counterexample.
  \<^item> \<^emph>\<open>Pub/sub and connections.\<close>  \<^verbatim>\<open>PubSub\<close>: \<^verbatim>\<open>broker.go\<close>, \<^verbatim>\<open>subscriber.go\<close>, \<^verbatim>\<open>message.go\<close> (interface \<open>topic_registry\<close>).
    \<^verbatim>\<open>Handler\<close>: \<^verbatim>\<open>handler.go\<close>.  \<^verbatim>\<open>Transactions\<close>: whole conversations, pipelines and \<^verbatim>\<open>MULTI\<close>/\<^verbatim>\<open>EXEC\<close>.  \<^verbatim>\<open>Watch\<close>: \<^verbatim>\<open>WATCH\<close> finds every
    change the version counters record (interface \<open>change_counter\<close>).  \<^verbatim>\<open>Connections\<close>: a transition system of all
    connections, the sweeper and the write loops, with its invariant.
  \<^item> \<^emph>\<open>Process.\<close>  \<^verbatim>\<open>Server\<close>: \<^verbatim>\<open>server.go\<close> as a transition system of its goroutines, client limit and shutdown.  \<^verbatim>\<open>Config\<close>:
    \<^verbatim>\<open>config.go\<close> with the command line.  \<^verbatim>\<open>Startup\<close>: \<^verbatim>\<open>main.go\<close> and \<^verbatim>\<open>logger.go\<close>; histories of restarts.

  \<^bold>\<open>Bounds.\<close>  Only the parser is given fuel, twice the length of the input plus two; each of its calls reads a
  byte, so this is enough (\<open>readValue_fuel\<close>), and more changes nothing.  The replay loop is proved to
  terminate because every command read shortens the file.  \<open>wf_command\<close> and \<open>wf_resp\<close> bound the lengths by what
  \<^verbatim>\<open>make\<close> can allocate on a 64-bit machine.

  \<^bold>\<open>Flaws found.\<close>  Some theorems show behaviour that is not intended: inputs that panic the process (\<^verbatim>\<open>ZCARD\<close> of a
  missing key, \<^verbatim>\<open>ZUNIONSTORE\<close> with a huge \<^verbatim>\<open>numkeys\<close>, an oversized bulk length), records the replay refuses or that
  lose data (\<^verbatim>\<open>SET\<close> with options, \<^verbatim>\<open>RENAME\<close> of a list), \<^verbatim>\<open>WATCH\<close> after \<^verbatim>\<open>FLUSHALL\<close>, \<^verbatim>\<open>HSET\<close> on a list, a reply split by a line
  break, a subscription mode that is never left, a shutdown that can wait forever.

  \<^bold>\<open>Not modelled.\<close>
  \<^item> Concurrency inside one command.  A command, a publication and a sweep are atomic steps; commands that
    take the store's lock several times (\<^verbatim>\<open>MSET\<close>, \<^verbatim>\<open>GETDEL\<close>, the queue of \<^verbatim>\<open>EXEC\<close>) are still one step.
  \<^item> Input and output: sockets are byte lists and flags, a failed read or write ends the connection, the
    addresses and the text of log lines do not matter.  File-system errors other than failing to open
    the log are left out, and so are the texts of replay errors.
  \<^item> Time as such: the ticks of the sweeper and of the background sync come at any time, not every second.
  \<^item> In the contract of the store: \<^verbatim>\<open>SRandMember\<close> and \<^verbatim>\<open>SPop\<close> (random), the weighted unions of sorted sets and the
    cursor reads.  Their code is modelled, their comments promise too little to state.
\<close>

end
